theory Spec2Isabelle
  imports Main
begin

section \<open>The option parser of optparse.h\<close>

text \<open>
  A shallow embedding of \<^verbatim>\<open>include/optparse/optparse.h\<close>. Conventions:

  \<^item> A C string is the list of its characters before the terminating NUL, so the
    terminator is the end of the list: \<^verbatim>\<open>p[0] == '\0'\<close> is \<open>p = []\<close>, and the pointer
    \<^verbatim>\<open>p + k\<close> into a string is the suffix \<open>drop k p\<close>. A \<^verbatim>\<open>char *\<close> that may be
    \<^verbatim>\<open>NULL\<close> is a \<open>string option\<close>.
  \<^item> \<^verbatim>\<open>argv\<close> is the list of its tokens before the terminating \<^verbatim>\<open>NULL\<close> pointer, so
    \<^verbatim>\<open>argv[i]\<close> is \<^verbatim>\<open>NULL\<close> at \<open>i = length argv\<close>. Reads beyond the terminator of a
    string or of \<^verbatim>\<open>argv\<close> leave the C object; the accessors below answer them with the
    terminator as well.
  \<^item> \<^verbatim>\<open>optind\<close> and \<^verbatim>\<open>subopt\<close> are C \<^verbatim>\<open>int\<close>s that the code only counts up from 0 or 1
    (and down by one after counting up), far below the range of \<^verbatim>\<open>int\<close>: they are
    natural numbers here.
  \<^item> A function that writes through its \<^verbatim>\<open>optparse_t *\<close> argument returns the updated
    state next to its result; \<^verbatim>\<open>int *longindex\<close> is an \<open>int option\<close> (\<open>None\<close> for a null
    pointer, \<open>Some v\<close> for a slot holding \<open>v\<close>) that is returned updated in the same way.
\<close>

subsection \<open>Characters and strings\<close>

text \<open>\<^verbatim>\<open>p[0]\<close> of a C string \<open>p\<close>: its first character, or the terminator.\<close>

fun cstr_head :: "string \<Rightarrow> char" where
  "cstr_head [] = CHR 0x00"
| "cstr_head (c # cs) = c"

text \<open>
  The conversion of a \<^verbatim>\<open>char\<close> to \<^verbatim>\<open>int\<close>. Plain \<^verbatim>\<open>char\<close> is taken as signed (as on
  x86-64); the choice only shows on bytes from 128 on.
\<close>

definition c_int_of_char :: "char \<Rightarrow> int" where
  "c_int_of_char c = (if of_char c < (128::int) then of_char c else of_char c - 256)"

text \<open>\<^verbatim>\<open>char str[2] = {c, 0}\<close> read as a C string.\<close>

definition char_str :: "char \<Rightarrow> string" where
  "char_str c = (if c = CHR 0x00 then [] else [c])"

subsection \<open>Data\<close>

record optparse_t =
  argv :: "string list"
  permute :: int
  optind :: nat
  optopt :: int
  optarg :: "string option"
  errmsg :: string
  subopt :: nat

datatype optparse_argtype_t = OPTPARSE_NONE | OPTPARSE_REQUIRED | OPTPARSE_OPTIONAL

text \<open>The values of the enumeration.\<close>

fun argtype_int :: "optparse_argtype_t \<Rightarrow> nat" where
  "argtype_int OPTPARSE_NONE = 0"
| "argtype_int OPTPARSE_REQUIRED = 1"
| "argtype_int OPTPARSE_OPTIONAL = 2"

record optparse_long_t =
  longname :: "string option"
  shortname :: int
  argtype :: optparse_argtype_t

text \<open>\<^verbatim>\<open>argv[i]\<close>.\<close>

definition argv_at :: "string list \<Rightarrow> nat \<Rightarrow> string option" where
  "argv_at av i = (if i < length av then Some (av ! i) else None)"

subsection \<open>Error messages\<close>

definition OPTPARSE_MSG_INVALID :: string where
  "OPTPARSE_MSG_INVALID = ''invalid option''"

definition OPTPARSE_MSG_MISSING :: string where
  "OPTPARSE_MSG_MISSING = ''option requires an argument''"

definition OPTPARSE_MSG_TOOMANY :: string where
  "OPTPARSE_MSG_TOOMANY = ''option takes no arguments''"

text \<open>
  One copy loop of \<^verbatim>\<open>optparse__error\<close>:
  \<^verbatim>\<open>while (*src && p < lim) { errmsg[p++] = *src++; }\<close>.
  \<open>buf\<close> is what has been written so far, so \<open>p = length buf\<close>.
\<close>

fun optparse__error_copy :: "string \<Rightarrow> nat \<Rightarrow> string \<Rightarrow> string" where
  "optparse__error_copy buf lim [] = buf"
| "optparse__error_copy buf lim (c # src) =
     (if length buf < lim then optparse__error_copy (buf @ [c]) lim src else buf)"

text \<open>
  \<^verbatim>\<open>sizeof(options->errmsg)\<close> is 64; \<open>CHR 0x27\<close> is the single quote, so \<open>sep\<close> is
  the five characters of \<^verbatim>\<open>" -- '"\<close>.
\<close>

definition optparse__error :: "optparse_t \<Rightarrow> string \<Rightarrow> string \<Rightarrow> int \<times> optparse_t" where
  "optparse__error options msg data =
     (let sep = '' -- '' @ [CHR 0x27];
          b1 = optparse__error_copy [] (64 - 1) msg;
          b2 = optparse__error_copy b1 (64 - 1) sep;
          b3 = optparse__error_copy b2 (64 - 2) data;
          b4 = (if length b3 < 64 - 1 then b3 @ [CHR 0x27] else b3)
      in (c_int_of_char CHR ''?'', options\<lparr>errmsg := b4\<rparr>))"

subsection \<open>Token classes\<close>

fun optparse__is_dashdash :: "string option \<Rightarrow> bool" where
  "optparse__is_dashdash (Some (a0 # a1 # rest)) =
     (a0 = CHR ''-'' \<and> a1 = CHR ''-'' \<and> rest = [])"
| "optparse__is_dashdash _ = False"

fun optparse__is_shortopt :: "string option \<Rightarrow> bool" where
  "optparse__is_shortopt (Some (a0 # a1 # rest)) = (a0 = CHR ''-'' \<and> a1 \<noteq> CHR ''-'')"
| "optparse__is_shortopt _ = False"

fun optparse__is_longopt :: "string option \<Rightarrow> bool" where
  "optparse__is_longopt (Some (a0 # a1 # a2 # rest)) = (a0 = CHR ''-'' \<and> a1 = CHR ''-'')"
| "optparse__is_longopt _ = False"

subsection \<open>Permutation\<close>

text \<open>
  The loop of \<^verbatim>\<open>optparse__permute\<close>:
  \<^verbatim>\<open>for (i = index; i < optind - 1; ++i) { argv[i] = argv[i + 1]; }\<close>, with \<open>n\<close> for
  \<^verbatim>\<open>optind - 1\<close>.
\<close>

function optparse__permute_shift :: "string list \<Rightarrow> nat \<Rightarrow> nat \<Rightarrow> string list" where
  "optparse__permute_shift av i n =
     (if i < n then optparse__permute_shift (av[i := av ! (i + 1)]) (i + 1) n else av)"
  by pat_completeness auto
termination
  by (relation "measure (\<lambda>(av, i, n). n - i)") auto

definition optparse__permute :: "optparse_t \<Rightarrow> nat \<Rightarrow> optparse_t" where
  "optparse__permute options index =
     (let nonoption = argv options ! index;
          av = optparse__permute_shift (argv options) index (optind options - 1)
      in options\<lparr>argv := av[optind options - 1 := nonoption]\<rparr>)"

subsection \<open>The short-option scanner\<close>

text \<open>
  \<^verbatim>\<open>optparse__argtype\<close>: the scan for the first occurrence of \<open>c\<close> in the option string,
  then the count of the colons after it. A \<open>c\<close> that is the terminator is found at the
  end of the string, where the answer is -1 as well.
\<close>

fun optparse__argtype_scan :: "string \<Rightarrow> char \<Rightarrow> int" where
  "optparse__argtype_scan [] c = - 1"
| "optparse__argtype_scan (x # optstring) c =
     (if c \<noteq> x then optparse__argtype_scan optstring c
      else if cstr_head optstring = CHR '':''
        then (if cstr_head (drop 1 optstring) = CHR '':'' then 2 else 1)
        else 0)"

definition optparse__argtype :: "string \<Rightarrow> char \<Rightarrow> int" where
  "optparse__argtype optstring c =
     (if c = CHR '':'' then - 1 else optparse__argtype_scan optstring c)"

text \<open>
  Lines 238 to 282 of \<^verbatim>\<open>optparse\<close>: the current token \<open>tok\<close> is a short-option
  cluster. \<open>option\<close> is the pointer \<^verbatim>\<open>option + subopt + 1\<close>.
\<close>

definition optparse_cluster :: "optparse_t \<Rightarrow> string \<Rightarrow> string \<Rightarrow> int \<times> optparse_t" where
  "optparse_cluster options optstring tok =
     (let option = drop (subopt options + 1) tok;
          c = cstr_head option;
          options = options\<lparr>optopt := c_int_of_char c\<rparr>;
          type = optparse__argtype optstring c;
          next = argv_at (argv options) (optind options + 1)
      in if type = - 1 then
           optparse__error (options\<lparr>optind := optind options + 1, subopt := 0\<rparr>)
             OPTPARSE_MSG_INVALID (char_str c)
         else if type = 0 then
           (if drop 1 option \<noteq> []
            then (c_int_of_char c, options\<lparr>subopt := subopt options + 1\<rparr>)
            else (c_int_of_char c, options\<lparr>subopt := 0, optind := optind options + 1\<rparr>))
         else if type = 1 then
           (if drop 1 option \<noteq> []
            then (c_int_of_char c,
                  options\<lparr>subopt := 0, optind := optind options + 1,
                           optarg := Some (drop 1 option)\<rparr>)
            else (case next of
                    Some n \<Rightarrow>
                      (c_int_of_char c,
                       options\<lparr>subopt := 0, optind := optind options + 1 + 1,
                                optarg := Some n\<rparr>)
                  | None \<Rightarrow>
                      optparse__error
                        (options\<lparr>subopt := 0, optind := optind options + 1, optarg := None\<rparr>)
                        OPTPARSE_MSG_MISSING (char_str c)))
         else if type = 2 then
           (c_int_of_char c,
            options\<lparr>subopt := 0, optind := optind options + 1,
                     optarg := (if drop 1 option \<noteq> [] then Some (drop 1 option) else None)\<rparr>)
         else (0, options))"

function optparse :: "optparse_t \<Rightarrow> string \<Rightarrow> int \<times> optparse_t" where
  "optparse options0 optstring =
     (let options = options0\<lparr>errmsg := [], optopt := 0, optarg := None\<rparr> in
      case argv_at (argv options) (optind options) of
        None \<Rightarrow> (- 1, options)
      | Some option \<Rightarrow>
          if optparse__is_dashdash (Some option) then
            (- 1, options\<lparr>optind := optind options + 1\<rparr>)
          else if \<not> optparse__is_shortopt (Some option) then
            (if permute options \<noteq> 0 then
               (let index = optind options;
                    (r, options1) = optparse (options\<lparr>optind := optind options + 1\<rparr>) optstring;
                    options2 = optparse__permute options1 index
                in (r, options2\<lparr>optind := optind options2 - 1\<rparr>))
             else (- 1, options))
          else optparse_cluster options optstring option)"
  by pat_completeness auto
termination
  by (relation "measure (\<lambda>(options, optstring). length (argv options) - optind options)")
     (auto simp: argv_at_def split: if_splits)

subsection \<open>The positional extractor\<close>

definition optparse_arg :: "optparse_t \<Rightarrow> string option \<times> optparse_t" where
  "optparse_arg options0 =
     (let option = argv_at (argv options0) (optind options0);
          options = options0\<lparr>subopt := 0\<rparr>
      in case option of
           None \<Rightarrow> (None, options)
         | Some tok \<Rightarrow> (Some tok, options\<lparr>optind := optind options + 1\<rparr>))"

definition optparse_init :: "optparse_t \<Rightarrow> string list \<Rightarrow> optparse_t" where
  "optparse_init options av =
     options\<lparr>argv := av, permute := 1,
              optind := (if argv_at av 0 \<noteq> None then 1 else 0),
              subopt := 0, optarg := None, optopt := 0, errmsg := []\<rparr>"

subsection \<open>The long-option matcher\<close>

text \<open>
  A table is the list of the entries of the \<^verbatim>\<open>longopts\<close> array. The scan of the array
  ends at the first entry of the terminator's shape (\<^verbatim>\<open>{0, 0, OPTPARSE_NONE}\<close>: no name
  and short name 0); the end of the list stands for the terminator too, so a table may
  be written without it.
\<close>

definition optparse_longopts_end :: "optparse_long_t list \<Rightarrow> nat \<Rightarrow> bool" where
  "optparse_longopts_end longopts i =
     (length longopts \<le> i \<or>
      (longname (longopts ! i) = None \<and> shortname (longopts ! i) = 0))"

text \<open>
  \<^verbatim>\<open>optparse__from_long\<close>, from entry \<open>i\<close> on: the characters written to the option
  string. The caller's buffer has room for \<^verbatim>\<open>96 * 3\<close> of them and the terminator.
\<close>

function optparse__from_long_loop :: "optparse_long_t list \<Rightarrow> nat \<Rightarrow> string" where
  "optparse__from_long_loop longopts i =
     (if optparse_longopts_end longopts i then []
      else (if 0 < shortname (longopts ! i) \<and> shortname (longopts ! i) < 127
            then char_of (shortname (longopts ! i)) #
                 replicate (argtype_int (argtype (longopts ! i))) CHR '':''
            else []) @ optparse__from_long_loop longopts (i + 1))"
  by pat_completeness auto
termination
  by (relation "measure (\<lambda>(longopts, i). length longopts - i)")
     (auto simp: optparse_longopts_end_def)

definition optparse__from_long :: "optparse_long_t list \<Rightarrow> string" where
  "optparse__from_long longopts = optparse__from_long_loop longopts 0"

text \<open>
  The loop of \<^verbatim>\<open>optparse__longopts_match\<close> on \<open>n\<close> (the name) and \<open>a\<close> (the option), with
  the \<^verbatim>\<open>return\<close> after it.
\<close>

fun optparse__longopts_match_loop :: "string \<Rightarrow> string \<Rightarrow> bool" where
  "optparse__longopts_match_loop (nc # n) (ac # a) =
     (if ac \<noteq> CHR ''=''
      then (if ac \<noteq> nc then False else optparse__longopts_match_loop n a)
      else False)"
| "optparse__longopts_match_loop (nc # n) [] = False"
| "optparse__longopts_match_loop [] a = (a = [] \<or> cstr_head a = CHR ''='')"

definition optparse__longopts_match :: "string option \<Rightarrow> string \<Rightarrow> bool" where
  "optparse__longopts_match longname' option =
     (case longname' of
        None \<Rightarrow> False
      | Some n \<Rightarrow> optparse__longopts_match_loop n option)"

fun optparse__longopts_arg :: "string \<Rightarrow> string option" where
  "optparse__longopts_arg [] = None"
| "optparse__longopts_arg (c # option) =
     (if c \<noteq> CHR ''='' then optparse__longopts_arg option else Some option)"

text \<open>
  The search of \<^verbatim>\<open>optparse__long_fallback\<close> from entry \<open>i\<close> on; \<open>li\<close> is what the slot
  holds (-1 when the search starts) and the result is what it holds after the loop.
\<close>

function optparse__long_fallback_loop :: "optparse_long_t list \<Rightarrow> int \<Rightarrow> nat \<Rightarrow> int \<Rightarrow> int" where
  "optparse__long_fallback_loop longopts opt i li =
     (if optparse_longopts_end longopts i then li
      else if shortname (longopts ! i) = opt then int i
      else optparse__long_fallback_loop longopts opt (i + 1) li)"
  by pat_completeness auto
termination
  by (relation "measure (\<lambda>(longopts, opt, i, li). length longopts - i)")
     (auto simp: optparse_longopts_end_def)

definition optparse__long_fallback ::
  "optparse_t \<Rightarrow> optparse_long_t list \<Rightarrow> int option \<Rightarrow> int \<times> optparse_t \<times> int option" where
  "optparse__long_fallback options0 longopts longindex =
     (let optstring = optparse__from_long longopts;
          (result, options) = optparse options0 optstring
      in case longindex of
           None \<Rightarrow> (result, options, None)
         | Some _ \<Rightarrow>
             (result, options,
              Some (if result \<noteq> - 1
                    then optparse__long_fallback_loop longopts (optopt options) 0 (- 1)
                    else - 1)))"

text \<open>
  Lines 325 to 343 of \<^verbatim>\<open>optparse_long\<close>: the body of the loop over the table once the
  name of entry \<open>i\<close> has matched \<open>option\<close>, the token after its two dashes. (The name is
  not \<^verbatim>\<open>NULL\<close> there: \<^verbatim>\<open>optparse__longopts_match\<close> answers 0 for \<^verbatim>\<open>NULL\<close>.)
\<close>

definition optparse_long_found ::
  "optparse_t \<Rightarrow> optparse_long_t list \<Rightarrow> int option \<Rightarrow> string \<Rightarrow> nat
     \<Rightarrow> int \<times> optparse_t \<times> int option" where
  "optparse_long_found options longopts longindex option i =
     (let name = longname (longopts ! i);
          longindex1 = (case longindex of None \<Rightarrow> None | Some _ \<Rightarrow> Some (int i));
          options1 = options\<lparr>optopt := shortname (longopts ! i)\<rparr>;
          arg = optparse__longopts_arg option
      in if argtype (longopts ! i) = OPTPARSE_NONE \<and> arg \<noteq> None then
           (let (r, options2) = optparse__error options1 OPTPARSE_MSG_TOOMANY (the name)
            in (r, options2, longindex1))
         else if arg \<noteq> None then
           (optopt options1, options1\<lparr>optarg := arg\<rparr>, longindex1)
         else if argtype (longopts ! i) = OPTPARSE_REQUIRED then
           (case argv_at (argv options1) (optind options1) of
              None \<Rightarrow>
                (let (r, options2) =
                       optparse__error (options1\<lparr>optarg := None\<rparr>)
                         OPTPARSE_MSG_MISSING (the name)
                 in (r, options2, longindex1))
            | Some n \<Rightarrow>
                (optopt options1,
                 options1\<lparr>optarg := Some n, optind := optind options1 + 1\<rparr>,
                 longindex1))
         else (optopt options1, options1, longindex1))"

text \<open>
  Lines 321 to 346 of \<^verbatim>\<open>optparse_long\<close>: the scan of the table from entry \<open>i\<close> on for
  \<open>option\<close>, and the \<^verbatim>\<open>return\<close> after the loop.
\<close>

function optparse_long_scan ::
  "optparse_t \<Rightarrow> optparse_long_t list \<Rightarrow> int option \<Rightarrow> string \<Rightarrow> nat
     \<Rightarrow> int \<times> optparse_t \<times> int option" where
  "optparse_long_scan options longopts longindex option i =
     (if optparse_longopts_end longopts i then
        (let (r, options1) = optparse__error options OPTPARSE_MSG_INVALID option
         in (r, options1, longindex))
      else if \<not> optparse__longopts_match (longname (longopts ! i)) option then
        optparse_long_scan options longopts longindex option (i + 1)
      else optparse_long_found options longopts longindex option i)"
  by pat_completeness auto
termination
  by (relation "measure (\<lambda>(options, longopts, longindex, option, i). length longopts - i)")
     (auto simp: optparse_longopts_end_def)

function optparse_long ::
  "optparse_t \<Rightarrow> optparse_long_t list \<Rightarrow> int option \<Rightarrow> int \<times> optparse_t \<times> int option" where
  "optparse_long options longopts longindex =
     (case argv_at (argv options) (optind options) of
        None \<Rightarrow> (- 1, options, longindex)
      | Some option \<Rightarrow>
          if optparse__is_dashdash (Some option) then
            (- 1, options\<lparr>optind := optind options + 1\<rparr>, longindex)
          else if optparse__is_shortopt (Some option) then
            optparse__long_fallback options longopts longindex
          else if \<not> optparse__is_longopt (Some option) then
            (if permute options \<noteq> 0 then
               (let index = optind options;
                    (r, options1, longindex1) =
                       optparse_long (options\<lparr>optind := optind options + 1\<rparr>) longopts longindex;
                    options2 = optparse__permute options1 index
                in (r, options2\<lparr>optind := optind options2 - 1\<rparr>, longindex1))
             else (- 1, options, longindex))
          else
            optparse_long_scan
              (options\<lparr>errmsg := [], optopt := 0, optarg := None, optind := optind options + 1\<rparr>)
              longopts longindex (drop 2 option) 0)"
  by pat_completeness auto
termination
  by (relation "measure (\<lambda>(options, longopts, longindex). length (argv options) - optind options)")
     (auto simp: argv_at_def split: if_splits)

subsection \<open>Draining the positionals\<close>

text \<open>
  The helper \<^verbatim>\<open>unconsumed_args\<close> of \<^verbatim>\<open>test/optparse_test.cpp\<close>: it calls
  \<^verbatim>\<open>optparse_arg\<close> until the answer is \<^verbatim>\<open>NULL\<close> and collects the tokens.
\<close>

function unconsumed_args :: "optparse_t \<Rightarrow> string list" where
  "unconsumed_args o1 =
     (case optparse_arg o1 of
        (None, o2) \<Rightarrow> []
      | (Some a, o2) \<Rightarrow> a # unconsumed_args o2)"
  by pat_completeness auto
termination
  by (relation "measure (\<lambda>o1. length (argv o1) - optind o1)")
     (auto simp: optparse_arg_def argv_at_def Let_def split: if_splits)

subsection \<open>Non-options and sequences of calls\<close>

text \<open>
  The tokens that \<^verbatim>\<open>optparse\<close> treats as non-options (lines 222 and 226: neither \<^verbatim>\<open>--\<close>
  nor a short-option cluster), and those that \<^verbatim>\<open>optparse_long\<close> treats as non-options
  (lines 297, 302 and 303: not long-style either).
\<close>

definition optparse_nonoption :: "string \<Rightarrow> bool" where
  "optparse_nonoption tok =
     (\<not> optparse__is_dashdash (Some tok) \<and> \<not> optparse__is_shortopt (Some tok))"

definition optparse_long_nonoption :: "string \<Rightarrow> bool" where
  "optparse_long_nonoption tok =
     (\<not> optparse__is_dashdash (Some tok) \<and> \<not> optparse__is_shortopt (Some tok) \<and>
      \<not> optparse__is_longopt (Some tok))"

text \<open>
  A caller that makes one call after another on the same state, as the loops of
  \<^verbatim>\<open>test/optparse_test.cpp\<close> do: a sequence of \<^verbatim>\<open>optparse\<close> calls, each with its own
  option string, and a sequence of \<^verbatim>\<open>optparse_long\<close> calls, each with its own table and
  slot. The result is the state after the last call.
\<close>

fun optparse_calls :: "string list \<Rightarrow> optparse_t \<Rightarrow> optparse_t" where
  "optparse_calls [] options = options"
| "optparse_calls (optstring # rest) options =
     optparse_calls rest (snd (optparse options optstring))"

fun optparse_long_calls ::
  "(optparse_long_t list \<times> int option) list \<Rightarrow> optparse_t \<Rightarrow> optparse_t" where
  "optparse_long_calls [] options = options"
| "optparse_long_calls ((longopts, longindex) # rest) options =
     optparse_long_calls rest (fst (snd (optparse_long options longopts longindex)))"

section \<open>Basic facts\<close>

text \<open>
  The recursive equations are unfolded where a proof says so, not by the simplifier on
  its own.
\<close>

declare optparse.simps [simp del] optparse_long.simps [simp del]
  optparse_long_scan.simps [simp del] optparse__permute_shift.simps [simp del]
  optparse__from_long_loop.simps [simp del] optparse__long_fallback_loop.simps [simp del]
  unconsumed_args.simps [simp del]

lemma optparse_init_eq:
  "optparse_init (o0::optparse_t) av =
     \<lparr>argv = av, permute = 1, optind = (if av = [] then 0 else 1), optopt = 0,
      optarg = None, errmsg = [], subopt = 0\<rparr>"
  by (cases o0) (simp add: optparse_init_def argv_at_def)

lemmas short_eval = optparse.simps Let_def argv_at_def optparse_cluster_def
  optparse__argtype_def optparse_arg_def c_int_of_char_def

subsection \<open>Error messages\<close>

lemma optparse__error_copy_eq:
  "optparse__error_copy buf lim src = buf @ take (lim - length buf) src"
  by (induction src arbitrary: buf) (auto simp: take_Cons')

lemma optparse__error_eq:
  assumes "length msg \<le> 57"
  shows "optparse__error options msg data =
    (63, options\<lparr>errmsg := msg @ '' -- '' @ [CHR 0x27] @
                         take (57 - length msg) data @ [CHR 0x27]\<rparr>)"
  using assms
  by (simp add: optparse__error_def optparse__error_copy_eq c_int_of_char_def Let_def)

subsection \<open>Token classes\<close>

lemma is_dashdash_iff: "optparse__is_dashdash a = (a = Some ''--'')"
  by (cases a rule: optparse__is_dashdash.cases) auto

lemma is_shortopt_iff:
  "optparse__is_shortopt a = (\<exists>c cs. a = Some (CHR ''-'' # c # cs) \<and> c \<noteq> CHR ''-'')"
  by (cases a rule: optparse__is_shortopt.cases) auto

lemma is_longopt_iff:
  "optparse__is_longopt a = (\<exists>c cs. a = Some (CHR ''-'' # CHR ''-'' # c # cs))"
  by (cases a rule: optparse__is_longopt.cases) auto

subsection \<open>One call of the short scanner, by the class of the current token\<close>

lemma optparse_absent:
  "argv_at (argv s) (optind s) = None \<Longrightarrow>
   optparse s optstring = (- 1, s\<lparr>errmsg := [], optopt := 0, optarg := None\<rparr>)"
  by (simp add: optparse.simps)

lemma optparse_dashdash:
  "argv_at (argv s) (optind s) = Some ''--'' \<Longrightarrow>
   optparse s optstring =
     (- 1, s\<lparr>errmsg := [], optopt := 0, optarg := None, optind := optind s + 1\<rparr>)"
  by (simp add: optparse.simps)

lemma optparse_shortopt:
  "argv_at (argv s) (optind s) = Some tok \<Longrightarrow> optparse__is_shortopt (Some tok) \<Longrightarrow>
   optparse s optstring =
     optparse_cluster (s\<lparr>errmsg := [], optopt := 0, optarg := None\<rparr>) optstring tok"
  by (auto simp add: optparse.simps is_shortopt_iff)

lemma optparse_nonoption_stop:
  "argv_at (argv s) (optind s) = Some tok \<Longrightarrow> tok \<noteq> ''--'' \<Longrightarrow>
   \<not> optparse__is_shortopt (Some tok) \<Longrightarrow> permute s = 0 \<Longrightarrow>
   optparse s optstring = (- 1, s\<lparr>errmsg := [], optopt := 0, optarg := None\<rparr>)"
  by (simp add: optparse.simps is_dashdash_iff)

lemma optparse_clear_idem:
  "optparse (s\<lparr>errmsg := e, optopt := c, optarg := a\<rparr>) optstring = optparse s optstring"
  by (subst (1 2) optparse.simps) simp

lemma optparse_nonoption_permute:
  assumes "argv_at (argv s) (optind s) = Some tok" "tok \<noteq> ''--''"
    "\<not> optparse__is_shortopt (Some tok)" "permute s \<noteq> 0"
  shows "optparse s optstring =
     (let (r, s1) = optparse (s\<lparr>optind := optind s + 1\<rparr>) optstring;
          s2 = optparse__permute s1 (optind s)
      in (r, s2\<lparr>optind := optind s2 - 1\<rparr>))"
proof -
  have "s\<lparr>errmsg := [], optopt := 0, optarg := None, optind := optind s + 1\<rparr> =
      s\<lparr>optind := optind s + 1, errmsg := [], optopt := 0, optarg := None\<rparr>"
    by (cases s) simp
  then have "optparse (s\<lparr>errmsg := [], optopt := 0, optarg := None,
        optind := optind s + 1\<rparr>) optstring
      = optparse (s\<lparr>optind := optind s + 1\<rparr>) optstring"
    by (simp only: optparse_clear_idem)
  then show ?thesis
    using assms
    by (subst optparse.simps) (simp add: is_dashdash_iff del: One_nat_def add_Suc_right)
qed

text \<open>The flag of a cluster and what follows it in the token.\<close>

lemma cluster_flag:
  assumes "n + 1 < length tok"
  shows "cstr_head (drop (n + 1) tok) = tok ! (n + 1)"
    and "drop 1 (drop (n + 1) tok) = drop (n + 2) tok"
proof -
  from assms have "drop (n + 1) tok = tok ! (n + 1) # drop (n + 2) tok"
    by (simp add: Cons_nth_drop_Suc)
  then show "cstr_head (drop (n + 1) tok) = tok ! (n + 1)"
    by simp
  show "drop 1 (drop (n + 1) tok) = drop (n + 2) tok"
    by simp
qed

subsection \<open>The positional extractor\<close>

lemma optparse_arg_eq:
  "optparse_arg s =
     (argv_at (argv s) (optind s),
      if optind s < length (argv s) then s\<lparr>subopt := 0, optind := optind s + 1\<rparr>
      else s\<lparr>subopt := 0\<rparr>)"
  by (simp add: optparse_arg_def argv_at_def)

lemma unconsumed_args_eq: "unconsumed_args s = drop (optind s) (argv s)"
proof (induction "length (argv s) - optind s" arbitrary: s)
  case 0
  then show ?case
    by (subst unconsumed_args.simps) (simp add: optparse_arg_def argv_at_def)
next
  case (Suc n)
  then have lt: "optind s < length (argv s)"
    by simp
  have "unconsumed_args s =
      argv s ! optind s # unconsumed_args (s\<lparr>subopt := 0, optind := optind s + 1\<rparr>)"
    using lt by (subst unconsumed_args.simps) (simp add: optparse_arg_def argv_at_def)
  also have "unconsumed_args (s\<lparr>subopt := 0, optind := optind s + 1\<rparr>) =
      drop (optind s + 1) (argv s)"
    using Suc.hyps(1) [of "s\<lparr>subopt := 0, optind := optind s + 1\<rparr>"] Suc.hyps(2)
    by simp
  finally show ?case
    using lt by (simp add: Cons_nth_drop_Suc)
qed

subsection \<open>One call of the long matcher, by the class of the current token\<close>

lemma optparse_long_absent:
  "argv_at (argv s) (optind s) = None \<Longrightarrow>
   optparse_long s longopts longindex = (- 1, s, longindex)"
  by (simp add: optparse_long.simps)

lemma optparse_long_dashdash:
  "argv_at (argv s) (optind s) = Some ''--'' \<Longrightarrow>
   optparse_long s longopts longindex = (- 1, s\<lparr>optind := optind s + 1\<rparr>, longindex)"
  by (simp add: optparse_long.simps)

lemma optparse_long_shortopt:
  "argv_at (argv s) (optind s) = Some tok \<Longrightarrow> optparse__is_shortopt (Some tok) \<Longrightarrow>
   optparse_long s longopts longindex = optparse__long_fallback s longopts longindex"
  by (auto simp add: optparse_long.simps is_shortopt_iff)

lemma optparse_long_longopt:
  "argv_at (argv s) (optind s) = Some tok \<Longrightarrow> optparse__is_longopt (Some tok) \<Longrightarrow>
   optparse_long s longopts longindex =
     optparse_long_scan
       (s\<lparr>errmsg := [], optopt := 0, optarg := None, optind := optind s + 1\<rparr>)
       longopts longindex (drop 2 tok) 0"
  by (auto simp add: optparse_long.simps is_longopt_iff)

lemma optparse_long_nonoption_stop:
  "argv_at (argv s) (optind s) = Some tok \<Longrightarrow> tok \<noteq> ''--'' \<Longrightarrow>
   \<not> optparse__is_shortopt (Some tok) \<Longrightarrow> \<not> optparse__is_longopt (Some tok) \<Longrightarrow>
   permute s = 0 \<Longrightarrow>
   optparse_long s longopts longindex = (- 1, s, longindex)"
  by (simp add: optparse_long.simps is_dashdash_iff)

lemma optparse_long_nonoption_permute:
  "argv_at (argv s) (optind s) = Some tok \<Longrightarrow> tok \<noteq> ''--'' \<Longrightarrow>
   \<not> optparse__is_shortopt (Some tok) \<Longrightarrow> \<not> optparse__is_longopt (Some tok) \<Longrightarrow>
   permute s \<noteq> 0 \<Longrightarrow>
   optparse_long s longopts longindex =
     (let (r, s1, longindex1) = optparse_long (s\<lparr>optind := optind s + 1\<rparr>) longopts longindex;
          s2 = optparse__permute s1 (optind s)
      in (r, s2\<lparr>optind := optind s2 - 1\<rparr>, longindex1))"
  by (subst optparse_long.simps) (simp add: is_dashdash_iff del: One_nat_def add_Suc_right)

subsection \<open>Induction over the tokens a call steps over\<close>

lemma optparse_token_induct [case_names absent dashdash cluster stop skip]:
  assumes "\<And>s. argv_at (argv s) (optind s) = None \<Longrightarrow> P s"
    and "\<And>s. argv_at (argv s) (optind s) = Some ''--'' \<Longrightarrow> P s"
    and "\<And>s tok. argv_at (argv s) (optind s) = Some tok \<Longrightarrow>
           optparse__is_shortopt (Some tok) \<Longrightarrow> P s"
    and "\<And>s tok. argv_at (argv s) (optind s) = Some tok \<Longrightarrow> tok \<noteq> ''--'' \<Longrightarrow>
           \<not> optparse__is_shortopt (Some tok) \<Longrightarrow> permute s = 0 \<Longrightarrow> P s"
    and "\<And>s tok. argv_at (argv s) (optind s) = Some tok \<Longrightarrow> tok \<noteq> ''--'' \<Longrightarrow>
           \<not> optparse__is_shortopt (Some tok) \<Longrightarrow> permute s \<noteq> 0 \<Longrightarrow>
           P (s\<lparr>optind := optind s + 1\<rparr>) \<Longrightarrow> P s"
  shows "P (s::optparse_t)"
proof (induction "length (argv s) - optind s" arbitrary: s)
  case 0
  then have "argv_at (argv s) (optind s) = None"
    by (simp add: argv_at_def)
  then show ?case
    by (rule assms(1))
next
  case (Suc n)
  then have "optind s < length (argv s)"
    by simp
  then obtain tok where tok: "argv_at (argv s) (optind s) = Some tok"
    by (simp add: argv_at_def)
  have step: "P (s\<lparr>optind := optind s + 1\<rparr>)"
    using Suc.hyps(1) [of "s\<lparr>optind := optind s + 1\<rparr>"] Suc.hyps(2) by simp
  show ?case
  proof (cases "tok = ''--''")
    case True
    with tok show ?thesis
      by (simp add: assms(2))
  next
    case False
    show ?thesis
    proof (cases "optparse__is_shortopt (Some tok)")
      case True
      with tok show ?thesis
        by (rule assms(3))
    next
      case False
      with tok \<open>tok \<noteq> ''--''\<close> step show ?thesis
        by (cases "permute s = 0") (blast intro: assms(4) assms(5))+
    qed
  qed
qed

lemma optparse_long_token_induct [case_names absent dashdash cluster long stop skip]:
  assumes "\<And>s. argv_at (argv s) (optind s) = None \<Longrightarrow> P s"
    and "\<And>s. argv_at (argv s) (optind s) = Some ''--'' \<Longrightarrow> P s"
    and "\<And>s tok. argv_at (argv s) (optind s) = Some tok \<Longrightarrow>
           optparse__is_shortopt (Some tok) \<Longrightarrow> P s"
    and "\<And>s tok. argv_at (argv s) (optind s) = Some tok \<Longrightarrow>
           optparse__is_longopt (Some tok) \<Longrightarrow> P s"
    and "\<And>s tok. argv_at (argv s) (optind s) = Some tok \<Longrightarrow> tok \<noteq> ''--'' \<Longrightarrow>
           \<not> optparse__is_shortopt (Some tok) \<Longrightarrow> \<not> optparse__is_longopt (Some tok) \<Longrightarrow>
           permute s = 0 \<Longrightarrow> P s"
    and "\<And>s tok. argv_at (argv s) (optind s) = Some tok \<Longrightarrow> tok \<noteq> ''--'' \<Longrightarrow>
           \<not> optparse__is_shortopt (Some tok) \<Longrightarrow> \<not> optparse__is_longopt (Some tok) \<Longrightarrow>
           permute s \<noteq> 0 \<Longrightarrow> P (s\<lparr>optind := optind s + 1\<rparr>) \<Longrightarrow> P s"
  shows "P (s::optparse_t)"
proof (induction "length (argv s) - optind s" arbitrary: s)
  case 0
  then have "argv_at (argv s) (optind s) = None"
    by (simp add: argv_at_def)
  then show ?case
    by (rule assms(1))
next
  case (Suc n)
  then have "optind s < length (argv s)"
    by simp
  then obtain tok where tok: "argv_at (argv s) (optind s) = Some tok"
    by (simp add: argv_at_def)
  have step: "P (s\<lparr>optind := optind s + 1\<rparr>)"
    using Suc.hyps(1) [of "s\<lparr>optind := optind s + 1\<rparr>"] Suc.hyps(2) by simp
  consider "tok = ''--''" | "optparse__is_shortopt (Some tok)" | "optparse__is_longopt (Some tok)"
    | "tok \<noteq> ''--''" "\<not> optparse__is_shortopt (Some tok)" "\<not> optparse__is_longopt (Some tok)"
    by blast
  then show ?case
  proof cases
    case 1
    with tok show ?thesis by (simp add: assms(2))
  next
    case 2
    with tok show ?thesis by (rule assms(3))
  next
    case 3
    with tok show ?thesis by (rule assms(4))
  next
    case 4
    with tok step show ?thesis
      by (cases "permute s = 0") (blast intro: assms(5) assms(6))+
  qed
qed

subsection \<open>The messages a call can store\<close>

lemma optparse__permute_fields [simp]:
  "errmsg (optparse__permute s i) = errmsg s"
  "permute (optparse__permute s i) = permute s"
  "optind (optparse__permute s i) = optind s"
  "optopt (optparse__permute s i) = optopt s"
  "optarg (optparse__permute s i) = optarg s"
  "subopt (optparse__permute s i) = subopt s"
  by (simp_all add: optparse__permute_def Let_def)

lemma optparse_cluster_errmsg:
  assumes "errmsg s = []"
  shows "errmsg (snd (optparse_cluster s optstring tok)) = [] \<or>
    (\<exists>msg \<in> {OPTPARSE_MSG_INVALID, OPTPARSE_MSG_MISSING}. \<exists>data.
       errmsg (snd (optparse_cluster s optstring tok)) =
         msg @ '' -- '' @ [CHR 0x27] @ take (57 - length msg) data @ [CHR 0x27])"
proof -
  have inv: "length OPTPARSE_MSG_INVALID \<le> 57" and mis: "length OPTPARSE_MSG_MISSING \<le> 57"
    by (simp_all add: OPTPARSE_MSG_INVALID_def OPTPARSE_MSG_MISSING_def)
  show ?thesis
    using assms
    by (auto simp add: optparse_cluster_def Let_def optparse__error_eq [OF inv]
        optparse__error_eq [OF mis] split: option.split)
qed

lemma optparse_errmsg_shape:
  "errmsg (snd (optparse s optstring)) = [] \<or>
    (\<exists>msg \<in> {OPTPARSE_MSG_INVALID, OPTPARSE_MSG_MISSING}. \<exists>data.
       errmsg (snd (optparse s optstring)) =
         msg @ '' -- '' @ [CHR 0x27] @ take (57 - length msg) data @ [CHR 0x27])"
proof (induction s rule: optparse_token_induct)
  case (absent s)
  then show ?case by (simp add: optparse_absent)
next
  case (dashdash s)
  then show ?case by (simp add: optparse_dashdash)
next
  case (cluster s tok)
  then show ?case
    using optparse_cluster_errmsg [of "s\<lparr>errmsg := [], optopt := 0, optarg := None\<rparr>" optstring tok]
    by (simp add: optparse_shortopt)
next
  case (stop s tok)
  then show ?case by (simp add: optparse_nonoption_stop)
next
  case (skip s tok)
  then show ?case
    by (simp add: optparse_nonoption_permute Let_def split_beta)
qed

lemma optparse_long_found_errmsg:
  assumes "errmsg s = []"
  shows "errmsg (fst (snd (optparse_long_found s longopts longindex option i))) = [] \<or>
    (\<exists>msg \<in> {OPTPARSE_MSG_MISSING, OPTPARSE_MSG_TOOMANY}. \<exists>data.
       errmsg (fst (snd (optparse_long_found s longopts longindex option i))) =
         msg @ '' -- '' @ [CHR 0x27] @ take (57 - length msg) data @ [CHR 0x27])"
proof -
  have mis: "length OPTPARSE_MSG_MISSING \<le> 57" and too: "length OPTPARSE_MSG_TOOMANY \<le> 57"
    by (simp_all add: OPTPARSE_MSG_MISSING_def OPTPARSE_MSG_TOOMANY_def)
  show ?thesis
    using assms
    by (auto simp: optparse_long_found_def Let_def optparse__error_eq [OF mis]
        optparse__error_eq [OF too] split: option.split)
qed

lemma optparse_long_scan_errmsg:
  "errmsg s = [] \<Longrightarrow>
   errmsg (fst (snd (optparse_long_scan s longopts longindex option i))) = [] \<or>
    (\<exists>msg \<in> {OPTPARSE_MSG_INVALID, OPTPARSE_MSG_MISSING, OPTPARSE_MSG_TOOMANY}. \<exists>data.
       errmsg (fst (snd (optparse_long_scan s longopts longindex option i))) =
         msg @ '' -- '' @ [CHR 0x27] @ take (57 - length msg) data @ [CHR 0x27])"
proof (induction s longopts longindex option i rule: optparse_long_scan.induct)
  case (1 options longopts longindex option i)
  have inv: "length OPTPARSE_MSG_INVALID \<le> 57"
    by (simp add: OPTPARSE_MSG_INVALID_def)
  show ?case
  proof (cases "optparse_longopts_end longopts i")
    case True
    then show ?thesis
      by (subst (1 2) optparse_long_scan.simps) (auto simp: optparse__error_eq [OF inv])
  next
    case False
    show ?thesis
    proof (cases "optparse__longopts_match (longname (longopts ! i)) option")
      case False
      with \<open>\<not> optparse_longopts_end longopts i\<close> "1.IH" "1.prems" show ?thesis
        by (subst (1 2) optparse_long_scan.simps) simp
    next
      case True
      with \<open>\<not> optparse_longopts_end longopts i\<close>
        optparse_long_found_errmsg [OF "1.prems", of longopts longindex option i]
      show ?thesis
        by (subst (1 2) optparse_long_scan.simps) auto
    qed
  qed
qed

lemma optparse__long_fallback_state:
  "fst (snd (optparse__long_fallback s longopts longindex)) =
     snd (optparse s (optparse__from_long longopts))"
  by (simp add: optparse__long_fallback_def Let_def split_beta split: option.split)

lemma optparse_long_errmsg_shape:
  "errmsg (fst (snd (optparse_long s longopts longindex))) = errmsg s \<or>
   errmsg (fst (snd (optparse_long s longopts longindex))) = [] \<or>
    (\<exists>msg \<in> {OPTPARSE_MSG_INVALID, OPTPARSE_MSG_MISSING, OPTPARSE_MSG_TOOMANY}. \<exists>data.
       errmsg (fst (snd (optparse_long s longopts longindex))) =
         msg @ '' -- '' @ [CHR 0x27] @ take (57 - length msg) data @ [CHR 0x27])"
proof (induction s rule: optparse_long_token_induct)
  case (absent s)
  then show ?case by (simp add: optparse_long_absent)
next
  case (dashdash s)
  then show ?case by (simp add: optparse_long_dashdash)
next
  case (cluster s tok)
  then show ?case
    using optparse_errmsg_shape [of s "optparse__from_long longopts"]
    by (auto simp add: optparse_long_shortopt optparse__long_fallback_state)
next
  case (long s tok)
  then show ?case
    using optparse_long_scan_errmsg [of "s\<lparr>errmsg := [], optopt := 0, optarg := None,
      optind := optind s + 1\<rparr>" longopts longindex "drop 2 tok" 0]
    by (simp add: optparse_long_longopt)
next
  case (stop s tok)
  then show ?case by (simp add: optparse_long_nonoption_stop)
next
  case (skip s tok)
  then show ?case
    by (simp add: optparse_long_nonoption_permute Let_def split_beta)
qed

subsection \<open>The scan of the table\<close>

lemma longopts_match_loop_iff:
  "optparse__longopts_match_loop n a \<longleftrightarrow> n = takeWhile (\<lambda>c. c \<noteq> CHR ''='') a"
proof (induction n a rule: optparse__longopts_match_loop.induct)
  case (3 a)
  then show ?case by (cases a) auto
qed auto

lemma longopts_match_iff:
  "optparse__longopts_match nm a \<longleftrightarrow> nm = Some (takeWhile (\<lambda>c. c \<noteq> CHR ''='') a)"
  by (auto simp: optparse__longopts_match_def longopts_match_loop_iff split: option.split)

lemma longopts_arg_eq:
  "optparse__longopts_arg a =
     (if CHR ''='' \<in> set a then Some (drop 1 (dropWhile (\<lambda>c. c \<noteq> CHR ''='') a)) else None)"
  by (induction a) auto

lemma optparse_long_scan_skip:
  assumes "\<And>j. i \<le> j \<Longrightarrow> j < n \<Longrightarrow> \<not> optparse_longopts_end longopts j \<and>
      \<not> optparse__longopts_match (longname (longopts ! j)) option"
    and "i \<le> n"
  shows "optparse_long_scan s longopts longindex option i =
    optparse_long_scan s longopts longindex option n"
  using assms
proof (induction "n - i" arbitrary: i)
  case 0
  then show ?case by simp
next
  case (Suc d)
  then have "i < n" by simp
  with Suc.prems(1) [of i] have "optparse_long_scan s longopts longindex option i =
      optparse_long_scan s longopts longindex option (i + 1)"
    by (subst optparse_long_scan.simps) simp
  also have "\<dots> = optparse_long_scan s longopts longindex option n"
    using Suc.hyps(1) [of "i + 1"] Suc.hyps(2) Suc.prems \<open>i < n\<close> by simp
  finally show ?case .
qed

lemma optparse_long_scan_first:
  assumes "\<forall>j\<le>i. \<not> optparse_longopts_end longopts j"
    and "optparse__longopts_match (longname (longopts ! i)) option"
    and "\<forall>j<i. \<not> optparse__longopts_match (longname (longopts ! j)) option"
  shows "optparse_long_scan s longopts longindex option 0 =
    optparse_long_found s longopts longindex option i"
proof -
  have "optparse_long_scan s longopts longindex option 0 =
      optparse_long_scan s longopts longindex option i"
    using assms by (intro optparse_long_scan_skip) auto
  also have "\<dots> = optparse_long_found s longopts longindex option i"
    using assms by (subst optparse_long_scan.simps) simp
  finally show ?thesis .
qed

lemma optparse_long_scan_none:
  assumes "\<forall>j. (\<forall>k\<le>j. \<not> optparse_longopts_end longopts k) \<longrightarrow>
      \<not> optparse__longopts_match (longname (longopts ! j)) option"
  shows "optparse_long_scan s longopts longindex option 0 =
    (let (r, s1) = optparse__error s OPTPARSE_MSG_INVALID option in (r, s1, longindex))"
proof -
  have ex: "\<exists>n. optparse_longopts_end longopts n"
    by (rule exI [of _ "length longopts"]) (simp add: optparse_longopts_end_def)
  define n where "n = (LEAST n. optparse_longopts_end longopts n)"
  have e: "optparse_longopts_end longopts n"
    unfolding n_def using ex by (rule LeastI_ex)
  have l: "\<not> optparse_longopts_end longopts j" if "j < n" for j
    using that unfolding n_def by (rule not_less_Least)
  have "optparse_long_scan s longopts longindex option 0 =
      optparse_long_scan s longopts longindex option n"
  proof (rule optparse_long_scan_skip)
    fix j assume "0 \<le> j" "j < n"
    then have "\<forall>k\<le>j. \<not> optparse_longopts_end longopts k"
      using l by auto
    with assms l \<open>j < n\<close> show "\<not> optparse_longopts_end longopts j \<and>
        \<not> optparse__longopts_match (longname (longopts ! j)) option"
      by blast
  qed simp
  also have "\<dots> = (let (r, s1) = optparse__error s OPTPARSE_MSG_INVALID option
      in (r, s1, longindex))"
    using e by (subst optparse_long_scan.simps) simp
  finally show ?thesis .
qed

lemma optparse_long_found_slot:
  "snd (snd (optparse_long_found s longopts longindex option i)) =
     map_option (\<lambda>_. int i) longindex"
  "optopt (fst (snd (optparse_long_found s longopts longindex option i))) =
     shortname (longopts ! i)"
  by (auto simp: optparse_long_found_def Let_def optparse__error_def split_beta
      split: option.split)

subsection \<open>When the index slot is written\<close>

lemma optparse_long_scan_slot:
  "snd (snd (optparse_long_scan s longopts longindex option i)) \<noteq> longindex \<Longrightarrow>
   \<exists>n\<ge>i. (\<forall>k. i \<le> k \<and> k \<le> n \<longrightarrow> \<not> optparse_longopts_end longopts k) \<and>
     optparse__longopts_match (longname (longopts ! n)) option"
proof (induction s longopts longindex option i rule: optparse_long_scan.induct)
  case (1 options longopts longindex option i)
  show ?case
  proof (cases "optparse_longopts_end longopts i")
    case True
    with "1.prems" show ?thesis
      by (subst (asm) optparse_long_scan.simps) (simp add: split_beta)
  next
    case False
    show ?thesis
    proof (cases "optparse__longopts_match (longname (longopts ! i)) option")
      case True
      with False show ?thesis
        by (intro exI [of _ i]) auto
    next
      case nomatch: False
      with False "1.prems" have "snd (snd (optparse_long_scan options longopts longindex
          option (i + 1))) \<noteq> longindex"
        by (subst (asm) optparse_long_scan.simps) simp
      from "1.IH" [OF False nomatch this] obtain n where n: "i + 1 \<le> n"
        "\<forall>k. i + 1 \<le> k \<and> k \<le> n \<longrightarrow> \<not> optparse_longopts_end longopts k"
        "optparse__longopts_match (longname (longopts ! n)) option"
        by blast
      have "\<forall>k. i \<le> k \<and> k \<le> n \<longrightarrow> \<not> optparse_longopts_end longopts k"
      proof (intro allI impI)
        fix k assume "i \<le> k \<and> k \<le> n"
        then consider "k = i" | "i + 1 \<le> k \<and> k \<le> n" by linarith
        then show "\<not> optparse_longopts_end longopts k"
          using False n(2) by cases auto
      qed
      with n(1) n(3) show ?thesis
        by (intro exI [of _ n]) simp
    qed
  qed
qed

lemma optparse_long_slot_written:
  "snd (snd (optparse_long s longopts (Some v))) \<noteq> Some v \<Longrightarrow>
   \<exists>i\<ge>optind s. i < length (argv s) \<and>
     (\<forall>j. optind s \<le> j \<and> j < i \<longrightarrow>
        argv s ! j \<noteq> ''--'' \<and> \<not> optparse__is_shortopt (Some (argv s ! j)) \<and>
        \<not> optparse__is_longopt (Some (argv s ! j))) \<and>
     (i = optind s \<or> permute s \<noteq> 0) \<and>
     (optparse__is_shortopt (Some (argv s ! i)) \<or>
      optparse__is_longopt (Some (argv s ! i)) \<and>
      (\<exists>n. (\<forall>k\<le>n. \<not> optparse_longopts_end longopts k) \<and>
         optparse__longopts_match (longname (longopts ! n)) (drop 2 (argv s ! i))))"
proof (induction s rule: optparse_long_token_induct)
  case (absent s)
  then show ?case by (simp add: optparse_long_absent)
next
  case (dashdash s)
  then show ?case by (simp add: optparse_long_dashdash)
next
  case (cluster s tok)
  then have "optind s < length (argv s)" "argv s ! optind s = tok"
    by (auto simp: argv_at_def split: if_splits)
  with cluster show ?case
    by (intro exI [of _ "optind s"]) auto
next
  case (long s tok)
  then have t: "optind s < length (argv s)" "argv s ! optind s = tok"
    by (auto simp: argv_at_def split: if_splits)
  from long have "snd (snd (optparse_long_scan
      (s\<lparr>errmsg := [], optopt := 0, optarg := None, optind := optind s + 1\<rparr>)
      longopts (Some v) (drop 2 tok) 0)) \<noteq> Some v"
    by (simp add: optparse_long_longopt)
  from optparse_long_scan_slot [OF this] obtain n where
    "\<forall>k\<le>n. \<not> optparse_longopts_end longopts k"
    "optparse__longopts_match (longname (longopts ! n)) (drop 2 tok)"
    by auto
  with long t show ?case
    by (intro exI [of _ "optind s"]) auto
next
  case (stop s tok)
  then show ?case by (simp add: optparse_long_nonoption_stop)
next
  case (skip s tok)
  then have t: "optind s < length (argv s)" "argv s ! optind s = tok"
    by (auto simp: argv_at_def split: if_splits)
  from skip.prems skip.hyps have "snd (snd (optparse_long (s\<lparr>optind := optind s + 1\<rparr>)
      longopts (Some v))) \<noteq> Some v"
    by (simp add: optparse_long_nonoption_permute Let_def split_beta)
  from skip.IH [OF this] obtain i where i: "optind s + 1 \<le> i" "i < length (argv s)"
    "\<forall>j. optind s + 1 \<le> j \<and> j < i \<longrightarrow>
        argv s ! j \<noteq> ''--'' \<and> \<not> optparse__is_shortopt (Some (argv s ! j)) \<and>
        \<not> optparse__is_longopt (Some (argv s ! j))"
    "optparse__is_shortopt (Some (argv s ! i)) \<or>
      optparse__is_longopt (Some (argv s ! i)) \<and>
      (\<exists>n. (\<forall>k\<le>n. \<not> optparse_longopts_end longopts k) \<and>
         optparse__longopts_match (longname (longopts ! n)) (drop 2 (argv s ! i)))"
    by auto
  have "\<forall>j. optind s \<le> j \<and> j < i \<longrightarrow>
        argv s ! j \<noteq> ''--'' \<and> \<not> optparse__is_shortopt (Some (argv s ! j)) \<and>
        \<not> optparse__is_longopt (Some (argv s ! j))"
  proof (intro allI impI)
    fix j assume "optind s \<le> j \<and> j < i"
    then consider "j = optind s" | "optind s + 1 \<le> j \<and> j < i" by linarith
    then show "argv s ! j \<noteq> ''--'' \<and> \<not> optparse__is_shortopt (Some (argv s ! j)) \<and>
        \<not> optparse__is_longopt (Some (argv s ! j))"
      using skip.hyps t i(3) by cases auto
  qed
  with i skip.hyps show ?case
    by (intro exI [of _ i]) auto
qed

subsection \<open>The fallback to the short scanner\<close>

lemma optparse__long_fallback_loop_skip:
  assumes "\<And>j. i \<le> j \<Longrightarrow> j < n \<Longrightarrow> \<not> optparse_longopts_end longopts j \<and>
      shortname (longopts ! j) \<noteq> opt"
    and "i \<le> n"
  shows "optparse__long_fallback_loop longopts opt i li =
    optparse__long_fallback_loop longopts opt n li"
  using assms
proof (induction "n - i" arbitrary: i)
  case 0
  then show ?case by simp
next
  case (Suc d)
  then have "i < n" by simp
  with Suc.prems(1) [of i] have "optparse__long_fallback_loop longopts opt i li =
      optparse__long_fallback_loop longopts opt (i + 1) li"
    by (subst optparse__long_fallback_loop.simps) simp
  also have "\<dots> = optparse__long_fallback_loop longopts opt n li"
    using Suc.hyps(1) [of "i + 1"] Suc.hyps(2) Suc.prems \<open>i < n\<close> by simp
  finally show ?case .
qed

lemma optparse__long_fallback_loop_first:
  assumes "\<forall>j\<le>i. \<not> optparse_longopts_end longopts j"
    and "shortname (longopts ! i) = opt"
    and "\<forall>j<i. shortname (longopts ! j) \<noteq> opt"
  shows "optparse__long_fallback_loop longopts opt 0 li = int i"
proof -
  have "optparse__long_fallback_loop longopts opt 0 li =
      optparse__long_fallback_loop longopts opt i li"
    using assms by (intro optparse__long_fallback_loop_skip) auto
  also have "\<dots> = int i"
    using assms by (subst optparse__long_fallback_loop.simps) simp
  finally show ?thesis .
qed

lemma optparse__long_fallback_loop_none:
  assumes "\<forall>j. (\<forall>k\<le>j. \<not> optparse_longopts_end longopts k) \<longrightarrow> shortname (longopts ! j) \<noteq> opt"
  shows "optparse__long_fallback_loop longopts opt 0 li = li"
proof -
  have ex: "\<exists>n. optparse_longopts_end longopts n"
    by (rule exI [of _ "length longopts"]) (simp add: optparse_longopts_end_def)
  define n where "n = (LEAST n. optparse_longopts_end longopts n)"
  have e: "optparse_longopts_end longopts n"
    unfolding n_def using ex by (rule LeastI_ex)
  have l: "\<not> optparse_longopts_end longopts j" if "j < n" for j
    using that unfolding n_def by (rule not_less_Least)
  have "optparse__long_fallback_loop longopts opt 0 li =
      optparse__long_fallback_loop longopts opt n li"
  proof (rule optparse__long_fallback_loop_skip)
    fix j assume "0 \<le> j" "j < n"
    then have "\<forall>k\<le>j. \<not> optparse_longopts_end longopts k"
      using l by auto
    with assms l \<open>j < n\<close> show "\<not> optparse_longopts_end longopts j \<and>
        shortname (longopts ! j) \<noteq> opt"
      by blast
  qed simp
  also have "\<dots> = li"
    using e by (subst optparse__long_fallback_loop.simps) simp
  finally show ?thesis .
qed

text \<open>The characters of a synthesised option string are below 127.\<close>

lemma optparse__from_long_loop_chars:
  "c \<in> set (optparse__from_long_loop longopts i) \<Longrightarrow> (of_char c :: int) < 127"
proof (induction longopts i rule: optparse__from_long_loop.induct)
  case (1 longopts i)
  show ?case
  proof (cases "optparse_longopts_end longopts i")
    case True
    with "1.prems" show ?thesis
      by (subst (asm) optparse__from_long_loop.simps) simp
  next
    case False
    from "1.prems" False have "c \<in> set (if 0 < shortname (longopts ! i) \<and>
          shortname (longopts ! i) < 127
        then char_of (shortname (longopts ! i)) #
          replicate (argtype_int (argtype (longopts ! i))) CHR '':''
        else []) \<or> c \<in> set (optparse__from_long_loop longopts (i + 1))"
      by (subst (asm) optparse__from_long_loop.simps) simp
    then show ?thesis
    proof
      assume "c \<in> set (optparse__from_long_loop longopts (i + 1))"
      with "1.IH" False show ?thesis by simp
    next
      assume a: "c \<in> set (if 0 < shortname (longopts ! i) \<and> shortname (longopts ! i) < 127
        then char_of (shortname (longopts ! i)) #
          replicate (argtype_int (argtype (longopts ! i))) CHR '':''
        else [])"
      then have r: "0 < shortname (longopts ! i)" "shortname (longopts ! i) < 127"
        by (auto split: if_splits)
      from a r have "c = char_of (shortname (longopts ! i)) \<or> c = CHR '':''"
        by (auto split: if_splits)
      then show ?thesis
      proof
        assume "c = CHR '':''" then show ?thesis by simp
      next
        assume "c = char_of (shortname (longopts ! i))"
        then have "(of_char c :: int) = shortname (longopts ! i) mod 256"
          by (simp add: of_char_of)
        with r show ?thesis by simp
      qed
    qed
  qed
qed

lemma optparse__argtype_scan_mem:
  "optparse__argtype_scan optstring c \<noteq> - 1 \<Longrightarrow> c \<in> set optstring"
  by (induction optstring) (auto split: if_splits)

lemma of_char_int_nonneg: "0 \<le> (of_char c :: int)"
proof -
  have "(of_char c :: int) = int (of_char c)"
    by (simp only: of_nat_of_char)
  then show ?thesis by simp
qed

lemma optparse__argtype_range:
  "optparse__argtype optstring c \<in> {- 1, 0, 1, 2}"
proof -
  have "optparse__argtype_scan optstring c \<in> {- 1, 0, 1, 2}"
    by (induction optstring) auto
  then show ?thesis
    by (simp add: optparse__argtype_def)
qed

lemma optparse_cluster_result:
  "fst (optparse_cluster s optstring tok) = optopt (snd (optparse_cluster s optstring tok)) \<or>
   fst (optparse_cluster s optstring tok) = c_int_of_char CHR ''?''"
  using optparse__argtype_range [of optstring "cstr_head (drop (subopt s + 1) tok)"]
  by (auto simp: optparse_cluster_def Let_def optparse__error_def split: option.split)

lemma optparse_cluster_not_done:
  assumes "\<forall>c\<in>set optstring. (of_char c :: int) < 127"
  shows "fst (optparse_cluster s optstring tok) \<noteq> - 1"
proof -
  let ?c = "cstr_head (drop (subopt s + 1) tok)"
  have "c_int_of_char ?c \<noteq> - 1" if "optparse__argtype optstring ?c \<noteq> - 1"
  proof -
    from that have "?c \<in> set optstring"
      by (auto simp: optparse__argtype_def dest: optparse__argtype_scan_mem split: if_splits)
    with assms have "(of_char ?c :: int) < 127" by blast
    then show ?thesis
      using of_char_int_nonneg [of ?c] by (simp add: c_int_of_char_def)
  qed
  then show ?thesis
    by (auto simp: optparse_cluster_def Let_def optparse__error_def c_int_of_char_def
        split: option.split)
qed

lemma optparse__long_fallback_shortopt:
  assumes tok: "argv_at (argv s) (optind s) = Some tok"
    and short: "optparse__is_shortopt (Some tok)"
  shows "optparse__long_fallback s longopts (Some v) =
    (fst (optparse s (optparse__from_long longopts)),
     snd (optparse s (optparse__from_long longopts)),
     Some (optparse__long_fallback_loop longopts
       (optopt (snd (optparse s (optparse__from_long longopts)))) 0 (- 1)))"
proof -
  have "\<forall>c\<in>set (optparse__from_long longopts). (of_char c :: int) < 127"
    by (auto simp: optparse__from_long_def dest: optparse__from_long_loop_chars)
  then have "fst (optparse s (optparse__from_long longopts)) \<noteq> - 1"
    unfolding optparse_shortopt [OF tok short] by (rule optparse_cluster_not_done)
  then show ?thesis
    by (simp add: optparse__long_fallback_def Let_def split_beta)
qed

subsection \<open>When the message is empty\<close>

lemma optparse__error_fst [simp]:
  "fst (optparse__error s msg data) = c_int_of_char CHR ''?''"
  by (simp add: optparse__error_def Let_def)

lemma optparse_cluster_errmsg_empty:
  "errmsg s = [] \<Longrightarrow> fst (optparse_cluster s optstring tok) \<noteq> c_int_of_char CHR ''?'' \<Longrightarrow>
   errmsg (snd (optparse_cluster s optstring tok)) = []"
  by (auto simp: optparse_cluster_def Let_def split: option.splits if_splits)

lemma optparse_errmsg_empty:
  "fst (optparse s optstring) \<noteq> c_int_of_char CHR ''?'' \<Longrightarrow>
   errmsg (snd (optparse s optstring)) = []"
proof (induction s rule: optparse_token_induct)
  case (absent s)
  then show ?case by (simp add: optparse_absent)
next
  case (dashdash s)
  then show ?case by (simp add: optparse_dashdash)
next
  case (cluster s tok)
  then show ?case
    by (simp add: optparse_shortopt optparse_cluster_errmsg_empty)
next
  case (stop s tok)
  then show ?case by (simp add: optparse_nonoption_stop)
next
  case (skip s tok)
  then show ?case
    by (simp add: optparse_nonoption_permute Let_def split_beta)
qed

lemma optparse_long_found_errmsg_empty:
  "errmsg s = [] \<Longrightarrow>
   fst (optparse_long_found s longopts longindex option i) \<noteq> c_int_of_char CHR ''?'' \<Longrightarrow>
   errmsg (fst (snd (optparse_long_found s longopts longindex option i))) = []"
  by (auto simp: optparse_long_found_def Let_def split_beta
      split: option.splits if_splits)

lemma optparse_long_scan_errmsg_empty:
  "errmsg s = [] \<Longrightarrow>
   fst (optparse_long_scan s longopts longindex option i) \<noteq> c_int_of_char CHR ''?'' \<Longrightarrow>
   errmsg (fst (snd (optparse_long_scan s longopts longindex option i))) = []"
proof (induction s longopts longindex option i rule: optparse_long_scan.induct)
  case (1 options longopts longindex option i)
  show ?case
  proof (cases "optparse_longopts_end longopts i")
    case True
    with "1.prems" show ?thesis
      by (subst (asm) optparse_long_scan.simps) (simp add: split_beta)
  next
    case False
    show ?thesis
    proof (cases "optparse__longopts_match (longname (longopts ! i)) option")
      case True
      with False "1.prems" show ?thesis
        by (subst optparse_long_scan.simps, subst (asm) optparse_long_scan.simps)
          (simp add: optparse_long_found_errmsg_empty)
    next
      case nomatch: False
      with False "1.prems" "1.IH" show ?thesis
        by (subst optparse_long_scan.simps, subst (asm) optparse_long_scan.simps) simp
    qed
  qed
qed

text \<open>
  What holds of the long matcher: the message is empty after a call that returns
  neither \<^verbatim>\<open>'?'\<close> nor -1.
\<close>

lemma optparse_long_errmsg_empty:
  "fst (optparse_long s longopts longindex) \<noteq> c_int_of_char CHR ''?'' \<Longrightarrow>
   fst (optparse_long s longopts longindex) \<noteq> - 1 \<Longrightarrow>
   errmsg (fst (snd (optparse_long s longopts longindex))) = []"
proof (induction s rule: optparse_long_token_induct)
  case (absent s)
  then show ?case by (simp add: optparse_long_absent)
next
  case (dashdash s)
  then show ?case by (simp add: optparse_long_dashdash)
next
  case (cluster s tok)
  then show ?case
    using optparse_errmsg_empty [of s "optparse__from_long longopts"]
    by (simp add: optparse_long_shortopt optparse__long_fallback_def Let_def split_beta
        split: option.splits)
next
  case (long s tok)
  then show ?case
    by (simp add: optparse_long_longopt optparse_long_scan_errmsg_empty)
next
  case (stop s tok)
  then show ?case by (simp add: optparse_long_nonoption_stop)
next
  case (skip s tok)
  then show ?case
    by (simp add: optparse_long_nonoption_permute Let_def split_beta)
qed

subsection \<open>Permutation\<close>

lemma shuffles_append_left:
  "zs \<in> shuffles xs ys \<Longrightarrow> zs @ a \<in> shuffles (xs @ a) ys"
proof (induction zs arbitrary: xs ys)
  case Nil
  then show ?case by simp
next
  case (Cons z zs)
  from Cons.prems consider
    "xs \<noteq> []" "hd xs = z" "zs \<in> shuffles (tl xs) ys"
    | "ys \<noteq> []" "hd ys = z" "zs \<in> shuffles xs (tl ys)"
    by (auto simp: Cons_in_shuffles_iff)
  then show ?case
  proof cases
    case 1
    from Cons.IH [OF 1(3)] have "z # zs @ a \<in> shuffles (z # tl xs @ a) ys"
      by (rule Cons_in_shuffles_leftI)
    with 1 show ?thesis by (cases xs) simp_all
  next
    case 2
    from Cons.IH [OF 2(3)] have "z # zs @ a \<in> shuffles (xs @ a) (z # tl ys)"
      by (rule Cons_in_shuffles_rightI)
    with 2 show ?thesis by (cases ys) simp_all
  qed
qed

lemma shuffles_append_right:
  "zs \<in> shuffles xs ys \<Longrightarrow> zs @ a \<in> shuffles xs (ys @ a)"
  using shuffles_append_left [of zs ys xs a] by (simp add: shuffles_commutes)

lemma optparse__permute_shift_append:
  "optparse__permute_shift (pre @ x # mid @ rest) (length pre) (length pre + length mid) =
     pre @ mid @ last (x # mid) # rest"
proof (induction mid arbitrary: pre x)
  case Nil
  then show ?case
    by (subst optparse__permute_shift.simps) simp
next
  case (Cons m mid)
  have "optparse__permute_shift (pre @ x # (m # mid) @ rest) (length pre)
      (length pre + length (m # mid)) =
      optparse__permute_shift ((pre @ [m]) @ m # mid @ rest) (length (pre @ [m]))
        (length (pre @ [m]) + length mid)"
    by (subst optparse__permute_shift.simps) (simp add: nth_append)
  also have "\<dots> = (pre @ [m]) @ mid @ last (m # mid) # rest"
    by (rule Cons.IH)
  finally show ?case by simp
qed

lemma optparse__permute_append:
  assumes "argv s = pre @ x # mid @ rest" and "index = length pre"
    and "optind s = length pre + length mid + 1"
  shows "optparse__permute s index = s\<lparr>argv := pre @ mid @ x # rest\<rparr>"
proof -
  have "optparse__permute_shift (argv s) index (optind s - 1) =
      pre @ mid @ last (x # mid) # rest"
    using assms optparse__permute_shift_append [of pre x mid rest] by simp
  moreover have "argv s ! index = x"
    using assms by (simp add: nth_append)
  moreover have "(pre @ mid @ last (x # mid) # rest)[optind s - 1 := x] = pre @ mid @ x # rest"
    using assms by (simp add: list_update_append)
  ultimately show ?thesis
    by (simp add: optparse__permute_def Let_def)
qed

lemma optparse_cluster_advance:
  assumes "argv_at (argv s) (optind s) = Some tok"
  shows "argv (snd (optparse_cluster s optstring tok)) = argv s"
    and "permute (snd (optparse_cluster s optstring tok)) = permute s"
    and "optind s \<le> optind (snd (optparse_cluster s optstring tok))"
    and "optind (snd (optparse_cluster s optstring tok)) \<le> length (argv s)"
  using assms
  by (auto simp: optparse_cluster_def Let_def optparse__error_def argv_at_def
      split: option.splits if_splits)

lemma argv_at_Some:
  assumes "argv_at av i = Some tok"
  shows "i < length av" and "av ! i = tok" and "drop i av = tok # drop (Suc i) av"
    and "take (Suc i) av = take i av @ [tok]"
proof -
  from assms show lt: "i < length av" and nth: "av ! i = tok"
    by (auto simp: argv_at_def split: if_splits)
  from lt nth show "drop i av = tok # drop (Suc i) av"
    using Cons_nth_drop_Suc [of i av] by simp
  from lt nth show "take (Suc i) av = take i av @ [tok]"
    by (simp add: take_Suc_conv_app_nth)
qed

text \<open>The tokens from the cursor on split at a position at or after the cursor.\<close>

lemma drop_split:
  assumes "p \<le> q" "q \<le> length av"
  shows "drop p av = take (q - p) (drop p av) @ drop q av"
    and "length (take (q - p) (drop p av)) = q - p"
proof -
  have "drop q av = drop (q - p) (drop p av)"
    using assms by simp
  then show "drop p av = take (q - p) (drop p av) @ drop q av"
    by (metis append_take_drop_id)
  show "length (take (q - p) (drop p av)) = q - p"
    using assms by simp
qed

text \<open>
  One call of \<^verbatim>\<open>optparse\<close>: the non-options \<open>sk\<close> it steps over and the tokens \<open>c\<close> it
  consumes change places; the tokens before the cursor and after \<open>c\<close> stay.
\<close>

lemma optparse_rotate:
  "\<exists>c rest.
     drop (optind s) (argv s) =
       (if permute s \<noteq> 0 then takeWhile optparse_nonoption (drop (optind s) (argv s)) else [])
       @ c @ rest \<and>
     argv (snd (optparse s optstring)) =
       take (optind s) (argv s) @ c @
       (if permute s \<noteq> 0 then takeWhile optparse_nonoption (drop (optind s) (argv s)) else [])
       @ rest \<and>
     optind (snd (optparse s optstring)) = optind s + length c \<and>
     permute (snd (optparse s optstring)) = permute s"
proof (induction s rule: optparse_token_induct)
  case (absent s)
  then have "drop (optind s) (argv s) = []"
    by (simp add: argv_at_def split: if_splits)
  with absent show ?case
    by (simp add: optparse_absent)
next
  case (dashdash s)
  then have d: "drop (optind s) (argv s) = ''--'' # drop (optind s + 1) (argv s)"
    using argv_at_Some(3) by simp
  have "argv s = take (optind s) (argv s) @ [''--''] @ [] @ drop (optind s + 1) (argv s)"
    using d by (metis append_Cons append_Nil append_take_drop_id)
  with dashdash d show ?case
    by (intro exI [of _ "[''--'']"] exI [of _ "drop (optind s + 1) (argv s)"])
      (simp add: optparse_dashdash optparse_nonoption_def)
next
  case (cluster s tok)
  let ?s0 = "s\<lparr>errmsg := [], optopt := 0, optarg := None\<rparr>"
  let ?s' = "snd (optparse_cluster ?s0 optstring tok)"
  have tok0: "argv_at (argv ?s0) (optind ?s0) = Some tok"
    using cluster by simp
  note adv = optparse_cluster_advance [OF tok0, of optstring]
  have d: "drop (optind s) (argv s) = tok # drop (optind s + 1) (argv s)"
    using argv_at_Some(3) [OF cluster(1)] by simp
  have sk: "(if permute s \<noteq> 0 then takeWhile optparse_nonoption (drop (optind s) (argv s))
      else []) = []"
    using cluster d by (simp add: optparse_nonoption_def)
  let ?c = "take (optind ?s' - optind s) (drop (optind s) (argv s))"
  have sp: "drop (optind s) (argv s) = ?c @ drop (optind ?s') (argv s)"
    "length ?c = optind ?s' - optind s"
    using drop_split [of "optind s" "optind ?s'" "argv s"] adv by simp_all
  have "argv s = take (optind s) (argv s) @ ?c @ drop (optind ?s') (argv s)"
    using sp(1) by (metis append_take_drop_id)
  with sp adv cluster show ?case
    unfolding sk optparse_shortopt [OF cluster(1) cluster(2)]
    by (intro exI [of _ ?c] exI [of _ "drop (optind ?s') (argv s)"]) simp
next
  case (stop s tok)
  then show ?case
    by (simp add: optparse_nonoption_stop)
next
  case (skip s tok)
  let ?s1 = "snd (optparse (s\<lparr>optind := optind s + 1\<rparr>) optstring)"
  let ?sk1 = "takeWhile optparse_nonoption (drop (optind s + 1) (argv s))"
  note lt = argv_at_Some(1) [OF skip.hyps(1)] and d = argv_at_Some(3) [OF skip.hyps(1)]
  have non: "optparse_nonoption tok"
    using skip.hyps by (simp add: optparse_nonoption_def is_dashdash_iff)
  from skip.IH skip.hyps obtain c rest where
    ih: "drop (optind s + 1) (argv s) = ?sk1 @ c @ rest"
      "argv ?s1 = take (optind s + 1) (argv s) @ c @ ?sk1 @ rest"
      "optind ?s1 = optind s + 1 + length c"
      "permute ?s1 = permute s"
    by auto
  note tk1 = argv_at_Some(4) [OF skip.hyps(1)]
  have "optparse__permute ?s1 (optind s) =
      ?s1\<lparr>argv := take (optind s) (argv s) @ c @ tok # ?sk1 @ rest\<rparr>"
    using ih lt by (intro optparse__permute_append) (simp_all add: tk1)
  then have res: "snd (optparse s optstring) =
      ?s1\<lparr>argv := take (optind s) (argv s) @ c @ tok # ?sk1 @ rest,
        optind := optind s + length c\<rparr>"
    using ih(3) by (simp add: optparse_nonoption_permute [OF skip.hyps] Let_def split_beta)
  show ?case
    unfolding res using skip.hyps ih d non
    by (intro exI [of _ c] exI [of _ rest]) simp
qed

lemma optparse__error_frame [simp]:
  "argv (snd (optparse__error s msg data)) = argv s"
  "permute (snd (optparse__error s msg data)) = permute s"
  "optind (snd (optparse__error s msg data)) = optind s"
  by (simp_all add: optparse__error_def Let_def)

lemma optparse_long_found_advance:
  "argv (fst (snd (optparse_long_found s longopts longindex option i))) = argv s"
  "permute (fst (snd (optparse_long_found s longopts longindex option i))) = permute s"
  "optind s \<le> optind (fst (snd (optparse_long_found s longopts longindex option i)))"
  "optind s \<le> length (argv s) \<Longrightarrow>
   optind (fst (snd (optparse_long_found s longopts longindex option i))) \<le> length (argv s)"
  by (auto simp: optparse_long_found_def Let_def split_beta argv_at_def
      split: option.splits if_splits)

lemma optparse_long_scan_advance:
  "argv (fst (snd (optparse_long_scan s longopts longindex option i))) = argv s \<and>
   permute (fst (snd (optparse_long_scan s longopts longindex option i))) = permute s \<and>
   optind s \<le> optind (fst (snd (optparse_long_scan s longopts longindex option i))) \<and>
   (optind s \<le> length (argv s) \<longrightarrow>
    optind (fst (snd (optparse_long_scan s longopts longindex option i))) \<le> length (argv s))"
proof (induction s longopts longindex option i rule: optparse_long_scan.induct)
  case (1 options longopts longindex option i)
  show ?case
  proof (cases "optparse_longopts_end longopts i")
    case True
    then show ?thesis
      by (subst (1 2 3 4) optparse_long_scan.simps) (simp add: split_beta)
  next
    case False
    show ?thesis
    proof (cases "optparse__longopts_match (longname (longopts ! i)) option")
      case True
      with False show ?thesis
        by (subst (1 2 3 4) optparse_long_scan.simps) (simp add: optparse_long_found_advance)
    next
      case nomatch: False
      with False "1.IH" show ?thesis
        by (subst (1 2 3 4) optparse_long_scan.simps) simp
    qed
  qed
qed

lemma optparse_long_rotate:
  "\<exists>c rest.
     drop (optind s) (argv s) =
       (if permute s \<noteq> 0 then takeWhile optparse_long_nonoption (drop (optind s) (argv s))
        else [])
       @ c @ rest \<and>
     argv (fst (snd (optparse_long s longopts longindex))) =
       take (optind s) (argv s) @ c @
       (if permute s \<noteq> 0 then takeWhile optparse_long_nonoption (drop (optind s) (argv s))
        else [])
       @ rest \<and>
     optind (fst (snd (optparse_long s longopts longindex))) = optind s + length c \<and>
     permute (fst (snd (optparse_long s longopts longindex))) = permute s"
proof (induction s rule: optparse_long_token_induct)
  case (absent s)
  then have "drop (optind s) (argv s) = []"
    by (simp add: argv_at_def split: if_splits)
  with absent show ?case
    by (simp add: optparse_long_absent)
next
  case (dashdash s)
  then have d: "drop (optind s) (argv s) = ''--'' # drop (optind s + 1) (argv s)"
    using argv_at_Some(3) by simp
  have "argv s = take (optind s) (argv s) @ [''--''] @ [] @ drop (optind s + 1) (argv s)"
    using d by (metis append_Cons append_Nil append_take_drop_id)
  with dashdash d show ?case
    by (intro exI [of _ "[''--'']"] exI [of _ "drop (optind s + 1) (argv s)"])
      (simp add: optparse_long_dashdash optparse_long_nonoption_def)
next
  case (cluster s tok)
  let ?s0 = "s\<lparr>errmsg := [], optopt := 0, optarg := None\<rparr>"
  let ?s' = "snd (optparse_cluster ?s0 (optparse__from_long longopts) tok)"
  have st: "fst (snd (optparse_long s longopts longindex)) = ?s'"
    using optparse_long_shortopt [OF cluster] optparse_shortopt [OF cluster]
    by (simp add: optparse__long_fallback_def Let_def split_beta split: option.split)
  have tok0: "argv_at (argv ?s0) (optind ?s0) = Some tok"
    using cluster by simp
  note adv = optparse_cluster_advance [OF tok0, of "optparse__from_long longopts"]
  have d: "drop (optind s) (argv s) = tok # drop (optind s + 1) (argv s)"
    using argv_at_Some(3) [OF cluster(1)] by simp
  have sk: "(if permute s \<noteq> 0
      then takeWhile optparse_long_nonoption (drop (optind s) (argv s)) else []) = []"
    using cluster d by (simp add: optparse_long_nonoption_def)
  let ?c = "take (optind ?s' - optind s) (drop (optind s) (argv s))"
  have sp: "drop (optind s) (argv s) = ?c @ drop (optind ?s') (argv s)"
    "length ?c = optind ?s' - optind s"
    using drop_split [of "optind s" "optind ?s'" "argv s"] adv by simp_all
  have "argv s = take (optind s) (argv s) @ ?c @ drop (optind ?s') (argv s)"
    using sp(1) by (metis append_take_drop_id)
  with sp adv cluster show ?case
    unfolding sk st
    by (intro exI [of _ ?c] exI [of _ "drop (optind ?s') (argv s)"]) simp
next
  case (long s tok)
  let ?s0 = "s\<lparr>errmsg := [], optopt := 0, optarg := None, optind := optind s + 1\<rparr>"
  let ?s' = "fst (snd (optparse_long_scan ?s0 longopts longindex (drop 2 tok) 0))"
  have st: "fst (snd (optparse_long s longopts longindex)) = ?s'"
    using optparse_long_longopt [OF long] by simp
  note lt = argv_at_Some(1) [OF long(1)]
  have adv: "argv ?s' = argv s" "permute ?s' = permute s" "optind s + 1 \<le> optind ?s'"
    "optind ?s' \<le> length (argv s)"
    using optparse_long_scan_advance [of ?s0 longopts longindex "drop 2 tok" 0] lt by simp_all
  have d: "drop (optind s) (argv s) = tok # drop (optind s + 1) (argv s)"
    using argv_at_Some(3) [OF long(1)] by simp
  have sk: "(if permute s \<noteq> 0
      then takeWhile optparse_long_nonoption (drop (optind s) (argv s)) else []) = []"
    using long d by (simp add: optparse_long_nonoption_def)
  let ?c = "take (optind ?s' - optind s) (drop (optind s) (argv s))"
  have sp: "drop (optind s) (argv s) = ?c @ drop (optind ?s') (argv s)"
    "length ?c = optind ?s' - optind s"
    using drop_split [of "optind s" "optind ?s'" "argv s"] adv by simp_all
  have "argv s = take (optind s) (argv s) @ ?c @ drop (optind ?s') (argv s)"
    using sp(1) by (metis append_take_drop_id)
  with sp adv long show ?case
    unfolding sk st
    by (intro exI [of _ ?c] exI [of _ "drop (optind ?s') (argv s)"]) simp
next
  case (stop s tok)
  then show ?case
    by (simp add: optparse_long_nonoption_stop)
next
  case (skip s tok)
  let ?s1 = "fst (snd (optparse_long (s\<lparr>optind := optind s + 1\<rparr>) longopts longindex))"
  let ?sk1 = "takeWhile optparse_long_nonoption (drop (optind s + 1) (argv s))"
  note lt = argv_at_Some(1) [OF skip.hyps(1)] and d = argv_at_Some(3) [OF skip.hyps(1)]
  have non: "optparse_long_nonoption tok"
    using skip.hyps by (simp add: optparse_long_nonoption_def is_dashdash_iff)
  from skip.IH skip.hyps obtain c rest where
    ih: "drop (optind s + 1) (argv s) = ?sk1 @ c @ rest"
      "argv ?s1 = take (optind s + 1) (argv s) @ c @ ?sk1 @ rest"
      "optind ?s1 = optind s + 1 + length c"
      "permute ?s1 = permute s"
    by auto
  note tk1 = argv_at_Some(4) [OF skip.hyps(1)]
  have "optparse__permute ?s1 (optind s) =
      ?s1\<lparr>argv := take (optind s) (argv s) @ c @ tok # ?sk1 @ rest\<rparr>"
    using ih lt by (intro optparse__permute_append) (simp_all add: tk1)
  then have res: "fst (snd (optparse_long s longopts longindex)) =
      ?s1\<lparr>argv := take (optind s) (argv s) @ c @ tok # ?sk1 @ rest,
        optind := optind s + length c\<rparr>"
    using ih(3)
    by (simp add: optparse_long_nonoption_permute [OF skip.hyps] Let_def split_beta)
  show ?case
    unfolding res using skip.hyps ih d non
    by (intro exI [of _ c] exI [of _ rest]) simp
qed

subsection \<open>A call that lands on a cluster\<close>

lemma drop_eq_ConsD:
  assumes "drop p av = t # ts"
  shows "p < length av" and "argv_at av p = Some t" and "drop (Suc p) av = ts"
proof -
  show lt: "p < length av"
  proof (rule ccontr)
    assume "\<not> p < length av"
    then have "drop p av = []" by simp
    with assms show False by simp
  qed
  from Cons_nth_drop_Suc [OF lt] assms have "av ! p = t" "drop (Suc p) av = ts"
    by simp_all
  with lt show "argv_at av p = Some t" "drop (Suc p) av = ts"
    by (simp_all add: argv_at_def)
qed

lemma drop_eq_appendD:
  assumes "drop p av = xs @ ys"
  shows "drop (p + length xs) av = ys"
proof -
  have "drop (p + length xs) av = drop (length xs) (drop p av)"
    by (simp add: add.commute)
  then show ?thesis
    using assms by simp
qed

lemma argv_at_drop:
  "argv_at av i = (case drop i av of [] \<Rightarrow> None | tok # _ \<Rightarrow> Some tok)"
proof (cases "i < length av")
  case True
  then show ?thesis
    using Cons_nth_drop_Suc [OF True, symmetric] by (simp add: argv_at_def)
next
  case False
  then show ?thesis
    by (simp add: argv_at_def)
qed

text \<open>
  A call of \<^verbatim>\<open>optparse\<close> that steps over the non-options \<open>sk\<close> and lands on the cluster
  \<open>tok\<close>: the cluster is scanned with the cursor on it, and the \<open>k\<close> tokens it consumes
  are then moved in front of \<open>sk\<close>.
\<close>

lemma optparse_skip_to_cluster:
  assumes "\<forall>t\<in>set sk. optparse_nonoption t" and "sk = [] \<or> permute s \<noteq> 0"
    and "drop (optind s) (argv s) = sk @ tok # rest"
    and "optparse__is_shortopt (Some tok)"
  shows "optparse s optstring =
    (let (r, s1) = optparse_cluster
           (s\<lparr>errmsg := [], optopt := 0, optarg := None, optind := optind s + length sk\<rparr>)
           optstring tok;
         k = optind s1 - (optind s + length sk)
     in (r, s1\<lparr>argv := take (optind s) (argv s) @ take k (tok # rest) @ sk @
                          drop k (tok # rest),
                optind := optind s + k\<rparr>))"
  using assms
proof (induction sk arbitrary: s)
  case Nil
  let ?s0 = "s\<lparr>errmsg := [], optopt := 0, optarg := None\<rparr>"
  let ?s1 = "snd (optparse_cluster ?s0 optstring tok)"
  from Nil.prems(3) have d: "drop (optind s) (argv s) = tok # rest"
    by simp
  note tok = drop_eq_ConsD(2) [OF d]
  have tok0: "argv_at (argv ?s0) (optind ?s0) = Some tok"
    using tok by simp
  note adv = optparse_cluster_advance [OF tok0, of optstring]
  have "take (optind s) (argv s) @ drop (optind s) (argv s) = argv s"
    by simp
  then have "argv s = take (optind s) (argv s) @ take (optind ?s1 - optind s) (tok # rest) @
      drop (optind ?s1 - optind s) (tok # rest)"
    unfolding d by simp
  with adv have "?s1\<lparr>argv := take (optind s) (argv s) @
      take (optind ?s1 - optind s) (tok # rest) @ [] @
      drop (optind ?s1 - optind s) (tok # rest),
      optind := optind s + (optind ?s1 - optind s)\<rparr> = ?s1"
    by simp
  moreover have "s\<lparr>errmsg := [], optopt := 0, optarg := None, optind := optind s + length []\<rparr>
      = ?s0"
    by (cases s) simp
  ultimately show ?case
    unfolding optparse_shortopt [OF tok Nil.prems(4)]
    by (simp add: split_beta Let_def)
next
  case (Cons t sk)
  let ?p = "optind s"
  let ?s' = "s\<lparr>optind := optind s + 1\<rparr>"
  let ?s0 = "s\<lparr>errmsg := [], optopt := 0, optarg := None,
    optind := optind s + length (t # sk)\<rparr>"
  let ?r1 = "optparse_cluster ?s0 optstring tok"
  let ?k = "optind (snd ?r1) - (optind s + length (t # sk))"
  from Cons.prems(3) have d: "drop ?p (argv s) = t # (sk @ tok # rest)"
    by simp
  note lt = drop_eq_ConsD(1) [OF d] and t = drop_eq_ConsD(2) [OF d]
  have non: "t \<noteq> ''--''" "\<not> optparse__is_shortopt (Some t)"
    using Cons.prems(1) by (simp_all add: optparse_nonoption_def is_dashdash_iff)
  have perm: "permute s \<noteq> 0"
    using Cons.prems(2) by simp
  have d': "drop (optind ?s') (argv ?s') = sk @ tok # rest"
    using drop_eq_ConsD(3) [OF d] by simp
  have s0: "?s'\<lparr>errmsg := [], optopt := 0, optarg := None,
      optind := optind ?s' + length sk\<rparr> = ?s0"
    by (cases s) simp
  have ih: "optparse ?s' optstring =
      (let (r, s1) = optparse_cluster ?s0 optstring tok;
           k = optind s1 - (optind ?s' + length sk)
       in (r, s1\<lparr>argv := take (optind ?s') (argv ?s') @ take k (tok # rest) @ sk @
                          drop k (tok # rest),
                optind := optind ?s' + k\<rparr>))"
    using Cons.IH [of ?s', OF _ _ d' Cons.prems(4)] Cons.prems(1) perm
    unfolding s0 by simp
  have tk: "take (Suc ?p) (argv s) = take ?p (argv s) @ [t]"
    using argv_at_Some(4) [OF t] .
  have tok0: "argv_at (argv ?s0) (optind ?s0) = Some tok"
    using drop_eq_ConsD(2) [OF drop_eq_appendD [OF Cons.prems(3)]] by simp
  have klen: "length (take ?k (tok # rest)) = ?k"
  proof -
    from optparse_cluster_advance(4) [OF tok0, of optstring]
    have "optind (snd ?r1) \<le> length (argv s)" by simp
    moreover have "length (drop ?p (argv s)) = length (t # sk @ tok # rest)"
      using d by simp
    then have "length (argv s) = ?p + length (t # sk @ tok # rest)"
      using lt by simp
    ultimately show ?thesis by simp
  qed
  let ?s1' = "(snd ?r1)\<lparr>argv := take (Suc ?p) (argv s) @ take ?k (tok # rest) @ sk @
          drop ?k (tok # rest), optind := Suc (?p + ?k)\<rparr>"
  have pm: "optparse__permute ?s1' ?p =
      ?s1'\<lparr>argv := take ?p (argv s) @ take ?k (tok # rest) @ t # sk @ drop ?k (tok # rest)\<rparr>"
    using lt klen
    by (intro optparse__permute_append) (simp_all add: tk)
  have ih': "optparse ?s' optstring = (fst ?r1, ?s1')"
    unfolding ih by (simp add: split_beta Let_def)
  show ?case
    unfolding optparse_nonoption_permute [OF t non perm] ih'
    using pm by (simp add: split_beta Let_def)
qed

text \<open>
  How an option string declares a flag: by the colons after its first occurrence.
\<close>

lemma optparse__argtype_declared:
  assumes "c \<noteq> CHR '':''" and "c \<notin> set pre"
  shows "optparse__argtype (pre @ c # post) c =
    (if cstr_head post = CHR '':''
     then (if cstr_head (drop 1 post) = CHR '':'' then 2 else 1) else 0)"
proof -
  from assms(2) have "optparse__argtype_scan (pre @ c # post) c =
    (if cstr_head post = CHR '':''
     then (if cstr_head (drop 1 post) = CHR '':'' then 2 else 1) else 0)"
    by (induction pre) auto
  with assms(1) show ?thesis
    by (simp add: optparse__argtype_def)
qed

subsection \<open>A call that lands on a long-style token\<close>

text \<open>
  The result of \<^verbatim>\<open>optparse_long\<close> for a long-style token at the cursor: by the kind
  of the first entry that has its name, or the invalid-option error when none has.
\<close>

lemma optparse_long_found_eq:
  assumes nm: "longname (longopts ! i) = Some name" and e: "errmsg s = []"
  shows "optparse_long_found s longopts longindex option i =
     (if CHR ''='' \<in> set option then
        if argtype (longopts ! i) = OPTPARSE_NONE then
          (c_int_of_char CHR ''?'',
           s\<lparr>errmsg := ''option takes no arguments -- '' @ [CHR 0x27] @ take 32 name @
                        [CHR 0x27],
             optopt := shortname (longopts ! i)\<rparr>,
           map_option (\<lambda>_. int i) longindex)
        else
          (shortname (longopts ! i),
           s\<lparr>optopt := shortname (longopts ! i),
             optarg := Some (drop 1 (dropWhile (\<lambda>c. c \<noteq> CHR ''='') option))\<rparr>,
           map_option (\<lambda>_. int i) longindex)
      else if argtype (longopts ! i) = OPTPARSE_REQUIRED then
        (case argv_at (argv s) (optind s) of
           None \<Rightarrow>
             (c_int_of_char CHR ''?'',
              s\<lparr>errmsg := ''option requires an argument -- '' @ [CHR 0x27] @ take 30 name @
                           [CHR 0x27],
                optopt := shortname (longopts ! i), optarg := None\<rparr>,
              map_option (\<lambda>_. int i) longindex)
         | Some a \<Rightarrow>
             (shortname (longopts ! i),
              s\<lparr>optopt := shortname (longopts ! i), optarg := Some a,
                optind := optind s + 1\<rparr>,
              map_option (\<lambda>_. int i) longindex))
      else
        (shortname (longopts ! i), s\<lparr>optopt := shortname (longopts ! i)\<rparr>,
         map_option (\<lambda>_. int i) longindex))"
proof -
  have slot: "(case longindex of None \<Rightarrow> None | Some _ \<Rightarrow> Some (int i)) =
      map_option (\<lambda>_. int i) longindex"
    by (cases longindex) simp_all
  have too: "optparse__error o1 OPTPARSE_MSG_TOOMANY d =
      (63, o1\<lparr>errmsg := ''option takes no arguments -- '' @ [CHR 0x27] @ take 32 d @
                           [CHR 0x27]\<rparr>)" for o1 d
    by (simp add: optparse__error_eq OPTPARSE_MSG_TOOMANY_def)
  have mis: "optparse__error o1 OPTPARSE_MSG_MISSING d =
      (63, o1\<lparr>errmsg := ''option requires an argument -- '' @ [CHR 0x27] @ take 30 d @
                           [CHR 0x27]\<rparr>)" for o1 d
    by (simp add: optparse__error_eq OPTPARSE_MSG_MISSING_def)
  show ?thesis
    using e
    by (cases s)
      (simp add: optparse_long_found_def Let_def slot nm longopts_arg_eq too mis
        c_int_of_char_def split: option.split)
qed

lemma optparse_long_first:
  assumes tok: "argv_at (argv s) (optind s) = Some (CHR ''-'' # CHR ''-'' # option)"
    and ne: "option \<noteq> []"
    and live: "\<forall>j\<le>i. \<not> optparse_longopts_end longopts j"
    and nm: "longname (longopts ! i) = Some (takeWhile (\<lambda>c. c \<noteq> CHR ''='') option)"
    and first: "\<forall>j<i. longname (longopts ! j) \<noteq> Some (takeWhile (\<lambda>c. c \<noteq> CHR ''='') option)"
  shows "optparse_long s longopts longindex =
     optparse_long_found
       (s\<lparr>errmsg := [], optopt := 0, optarg := None, optind := optind s + 1\<rparr>)
       longopts longindex option i"
proof -
  from ne have long: "optparse__is_longopt (Some (CHR ''-'' # CHR ''-'' # option))"
    by (cases option) simp_all
  have "optparse_long s longopts longindex =
      optparse_long_scan
        (s\<lparr>errmsg := [], optopt := 0, optarg := None, optind := optind s + 1\<rparr>)
        longopts longindex option 0"
    using optparse_long_longopt [OF tok long] by simp
  also have "\<dots> = optparse_long_found
       (s\<lparr>errmsg := [], optopt := 0, optarg := None, optind := optind s + 1\<rparr>)
       longopts longindex option i"
    using live nm first
    by (intro optparse_long_scan_first) (simp_all add: longopts_match_iff)
  finally show ?thesis .
qed

lemma optparse_long_nomatch:
  assumes tok: "argv_at (argv s) (optind s) = Some (CHR ''-'' # CHR ''-'' # option)"
    and ne: "option \<noteq> []"
    and none: "\<forall>j. (\<forall>k\<le>j. \<not> optparse_longopts_end longopts k) \<longrightarrow>
      longname (longopts ! j) \<noteq> Some (takeWhile (\<lambda>c. c \<noteq> CHR ''='') option)"
  shows "optparse_long s longopts longindex =
     (c_int_of_char CHR ''?'',
      s\<lparr>errmsg := ''invalid option -- '' @ [CHR 0x27] @ take 43 option @ [CHR 0x27],
        optopt := 0, optarg := None, optind := optind s + 1\<rparr>,
      longindex)"
proof -
  let ?s1 = "s\<lparr>errmsg := [], optopt := 0, optarg := None, optind := optind s + 1\<rparr>"
  from ne have long: "optparse__is_longopt (Some (CHR ''-'' # CHR ''-'' # option))"
    by (cases option) simp_all
  have scan: "optparse_long s longopts longindex =
      optparse_long_scan ?s1 longopts longindex option 0"
    using optparse_long_longopt [OF tok long] by simp
  have "optparse_long_scan ?s1 longopts longindex option 0 =
      (let (r, s2) = optparse__error ?s1 OPTPARSE_MSG_INVALID option in (r, s2, longindex))"
    using none by (intro optparse_long_scan_none) (simp add: longopts_match_iff)
  then show ?thesis
    unfolding scan
    by (cases s)
      (simp add: optparse__error_eq OPTPARSE_MSG_INVALID_def c_int_of_char_def)
qed

lemma optparse_long_match_result:
  assumes tok: "argv_at (argv s) (optind s) = Some (CHR ''-'' # CHR ''-'' # option)"
    and ne: "option \<noteq> []"
    and live: "\<forall>j\<le>i. \<not> optparse_longopts_end longopts j"
    and nm: "longname (longopts ! i) = Some (takeWhile (\<lambda>c. c \<noteq> CHR ''='') option)"
    and first: "\<forall>j<i. longname (longopts ! j) \<noteq> Some (takeWhile (\<lambda>c. c \<noteq> CHR ''='') option)"
  shows "optparse_long s longopts longindex =
     (if CHR ''='' \<in> set option then
        if argtype (longopts ! i) = OPTPARSE_NONE then
          (c_int_of_char CHR ''?'',
           s\<lparr>errmsg := ''option takes no arguments -- '' @ [CHR 0x27] @
                take 32 (takeWhile (\<lambda>c. c \<noteq> CHR ''='') option) @ [CHR 0x27],
             optopt := shortname (longopts ! i), optarg := None,
             optind := optind s + 1\<rparr>,
           map_option (\<lambda>_. int i) longindex)
        else
          (shortname (longopts ! i),
           s\<lparr>errmsg := [], optopt := shortname (longopts ! i),
             optarg := Some (drop 1 (dropWhile (\<lambda>c. c \<noteq> CHR ''='') option)),
             optind := optind s + 1\<rparr>,
           map_option (\<lambda>_. int i) longindex)
      else if argtype (longopts ! i) = OPTPARSE_REQUIRED then
        (case argv_at (argv s) (optind s + 1) of
           None \<Rightarrow>
             (c_int_of_char CHR ''?'',
              s\<lparr>errmsg := ''option requires an argument -- '' @ [CHR 0x27] @
                   take 30 option @ [CHR 0x27],
                optopt := shortname (longopts ! i), optarg := None,
                optind := optind s + 1\<rparr>,
              map_option (\<lambda>_. int i) longindex)
         | Some following \<Rightarrow>
             (shortname (longopts ! i),
              s\<lparr>errmsg := [], optopt := shortname (longopts ! i),
                optarg := Some following, optind := optind s + 2\<rparr>,
              map_option (\<lambda>_. int i) longindex))
      else
        (shortname (longopts ! i),
         s\<lparr>errmsg := [], optopt := shortname (longopts ! i), optarg := None,
           optind := optind s + 1\<rparr>,
         map_option (\<lambda>_. int i) longindex))"
proof -
  let ?s1 = "s\<lparr>errmsg := [], optopt := 0, optarg := None, optind := optind s + 1\<rparr>"
  have e: "errmsg ?s1 = []"
    by simp
  have noeq: "takeWhile (\<lambda>c. c \<noteq> CHR ''='') option = option" if "CHR ''='' \<notin> set option"
    using that by (auto simp: takeWhile_eq_all_conv)
  show ?thesis
    unfolding optparse_long_first [OF tok ne live nm first] optparse_long_found_eq [OF nm e]
    by (cases s) (simp add: noeq split: option.split)
qed

subsection \<open>The message a call stores, by the token it lands on\<close>

lemma optparse_cluster_message:
  assumes flag: "subopt s + 1 < length tok" and nul: "tok ! (subopt s + 1) \<noteq> CHR 0x00"
    and e: "errmsg s = []"
  shows "errmsg (snd (optparse_cluster s optstring tok)) =
     (if optparse__argtype optstring (tok ! (subopt s + 1)) = - 1 then
        ''invalid option -- '' @ [CHR 0x27, tok ! (subopt s + 1), CHR 0x27]
      else if optparse__argtype optstring (tok ! (subopt s + 1)) = 1 \<and>
              subopt s + 2 = length tok \<and> argv_at (argv s) (optind s + 1) = None then
        ''option requires an argument -- '' @ [CHR 0x27, tok ! (subopt s + 1), CHR 0x27]
      else [])"
proof -
  have inv: "optparse__error o1 OPTPARSE_MSG_INVALID d =
      (63, o1\<lparr>errmsg := ''invalid option -- '' @ [CHR 0x27] @ take 43 d @ [CHR 0x27]\<rparr>)"
    for o1 d
    by (simp add: optparse__error_eq OPTPARSE_MSG_INVALID_def)
  have mis: "optparse__error o1 OPTPARSE_MSG_MISSING d =
      (63, o1\<lparr>errmsg := ''option requires an argument -- '' @ [CHR 0x27] @ take 30 d @
                           [CHR 0x27]\<rparr>)" for o1 d
    by (simp add: optparse__error_eq OPTPARSE_MSG_MISSING_def)
  have more: "drop (subopt s + 2) tok \<noteq> [] \<longleftrightarrow> subopt s + 2 \<noteq> length tok"
    using flag by auto
  from optparse__argtype_range [of optstring "tok ! (subopt s + 1)"]
  consider "optparse__argtype optstring (tok ! (subopt s + 1)) = - 1"
    | "optparse__argtype optstring (tok ! (subopt s + 1)) = 0"
    | "optparse__argtype optstring (tok ! (subopt s + 1)) = 1"
    | "optparse__argtype optstring (tok ! (subopt s + 1)) = 2"
    by auto
  then show ?thesis
    unfolding optparse_cluster_def Let_def cluster_flag [OF flag] more
    using nul e
    by cases (simp_all add: inv mis char_str_def split: option.split)
qed

lemma optparse_landing_errmsg:
  assumes sk: "\<forall>t\<in>set sk. optparse_nonoption t" and perm: "sk = [] \<or> permute s \<noteq> 0"
    and d: "drop (optind s) (argv s) = sk @ tok # rest"
    and short: "optparse__is_shortopt (Some tok)"
    and flag: "subopt s + 1 < length tok" and nul: "tok ! (subopt s + 1) \<noteq> CHR 0x00"
  shows "errmsg (snd (optparse s optstring)) =
     (if optparse__argtype optstring (tok ! (subopt s + 1)) = - 1 then
        ''invalid option -- '' @ [CHR 0x27, tok ! (subopt s + 1), CHR 0x27]
      else if optparse__argtype optstring (tok ! (subopt s + 1)) = 1 \<and>
              subopt s + 2 = length tok \<and> rest = [] then
        ''option requires an argument -- '' @ [CHR 0x27, tok ! (subopt s + 1), CHR 0x27]
      else [])"
proof -
  let ?s0 = "s\<lparr>errmsg := [], optopt := 0, optarg := None, optind := optind s + length sk\<rparr>"
  have "drop (optind s + length sk) (argv s) = tok # rest"
    using drop_eq_appendD [OF d] .
  then have "drop (optind s + length sk + 1) (argv s) = rest"
    using drop_eq_ConsD(3) by fastforce
  then have nx: "argv_at (argv ?s0) (optind ?s0 + 1) = None \<longleftrightarrow> rest = []"
    by (simp add: argv_at_drop split: list.split)
  have "errmsg (snd (optparse s optstring)) =
      errmsg (snd (optparse_cluster ?s0 optstring tok))"
    unfolding optparse_skip_to_cluster [OF sk perm d short]
    by (simp add: split_beta Let_def)
  also have "\<dots> = (if optparse__argtype optstring (tok ! (subopt s + 1)) = - 1 then
        ''invalid option -- '' @ [CHR 0x27, tok ! (subopt s + 1), CHR 0x27]
      else if optparse__argtype optstring (tok ! (subopt s + 1)) = 1 \<and>
              subopt s + 2 = length tok \<and> rest = [] then
        ''option requires an argument -- '' @ [CHR 0x27, tok ! (subopt s + 1), CHR 0x27]
      else [])"
    using optparse_cluster_message [of ?s0 tok optstring] flag nul nx by simp
  finally show ?thesis .
qed

lemma optparse_long_skip_errmsg:
  assumes "\<forall>t\<in>set sk. optparse_long_nonoption t" and "sk = [] \<or> permute s \<noteq> 0"
    and "drop (optind s) (argv s) = sk @ rest"
  shows "errmsg (fst (snd (optparse_long s longopts longindex))) =
     errmsg (fst (snd (optparse_long (s\<lparr>optind := optind s + length sk\<rparr>) longopts longindex)))"
  using assms
proof (induction sk arbitrary: s)
  case Nil
  then show ?case by simp
next
  case (Cons t sk)
  from Cons.prems(2) have p: "permute s \<noteq> 0"
    by simp
  from Cons.prems(3) have d: "drop (optind s) (argv s) = t # (sk @ rest)"
    by simp
  note tok = drop_eq_ConsD(2) [OF d]
  from Cons.prems(1) have t: "t \<noteq> ''--''" "\<not> optparse__is_shortopt (Some t)"
      "\<not> optparse__is_longopt (Some t)"
    by (auto simp: optparse_long_nonoption_def is_dashdash_iff)
  let ?s1 = "s\<lparr>optind := optind s + 1\<rparr>"
  have "errmsg (fst (snd (optparse_long s longopts longindex))) =
      errmsg (fst (snd (optparse_long ?s1 longopts longindex)))"
    unfolding optparse_long_nonoption_permute [OF tok t p, of longopts longindex]
    by (simp add: split_beta Let_def)
  also have "\<dots> = errmsg (fst (snd (optparse_long (?s1\<lparr>optind := optind ?s1 + length sk\<rparr>)
      longopts longindex)))"
  proof (rule Cons.IH)
    show "\<forall>t\<in>set sk. optparse_long_nonoption t"
      using Cons.prems(1) by simp
    show "sk = [] \<or> permute ?s1 \<noteq> 0"
      using p by simp
    show "drop (optind ?s1) (argv ?s1) = sk @ rest"
      using drop_eq_ConsD(3) [OF d] by simp
  qed
  finally show ?case
    by simp
qed

lemma optparse_long_landing_cluster_errmsg:
  assumes sk: "\<forall>t\<in>set sk. optparse_long_nonoption t" and perm: "sk = [] \<or> permute s \<noteq> 0"
    and d: "drop (optind s) (argv s) = sk @ tok # rest"
    and short: "optparse__is_shortopt (Some tok)"
    and flag: "subopt s + 1 < length tok" and nul: "tok ! (subopt s + 1) \<noteq> CHR 0x00"
  shows "errmsg (fst (snd (optparse_long s longopts longindex))) =
     (if optparse__argtype (optparse__from_long longopts) (tok ! (subopt s + 1)) = - 1 then
        ''invalid option -- '' @ [CHR 0x27, tok ! (subopt s + 1), CHR 0x27]
      else if optparse__argtype (optparse__from_long longopts) (tok ! (subopt s + 1)) = 1 \<and>
              subopt s + 2 = length tok \<and> rest = [] then
        ''option requires an argument -- '' @ [CHR 0x27, tok ! (subopt s + 1), CHR 0x27]
      else [])"
proof -
  let ?s1 = "s\<lparr>optind := optind s + length sk\<rparr>"
  have d1: "drop (optind ?s1) (argv ?s1) = [] @ tok # rest"
    using drop_eq_appendD [OF d] by simp
  then have tok: "argv_at (argv ?s1) (optind ?s1) = Some tok"
    using drop_eq_ConsD(2) by fastforce
  have "errmsg (fst (snd (optparse_long s longopts longindex))) =
      errmsg (fst (snd (optparse_long ?s1 longopts longindex)))"
    using sk perm d by (rule optparse_long_skip_errmsg)
  also have "\<dots> = errmsg (snd (optparse ?s1 (optparse__from_long longopts)))"
    unfolding optparse_long_shortopt [OF tok short]
    by (simp add: optparse__long_fallback_def Let_def split_beta split: option.split)
  also have "\<dots> =
     (if optparse__argtype (optparse__from_long longopts) (tok ! (subopt s + 1)) = - 1 then
        ''invalid option -- '' @ [CHR 0x27, tok ! (subopt s + 1), CHR 0x27]
      else if optparse__argtype (optparse__from_long longopts) (tok ! (subopt s + 1)) = 1 \<and>
              subopt s + 2 = length tok \<and> rest = [] then
        ''option requires an argument -- '' @ [CHR 0x27, tok ! (subopt s + 1), CHR 0x27]
      else [])"
    using optparse_landing_errmsg [of "[]" ?s1 tok rest "optparse__from_long longopts"]
      d1 short flag nul
    by simp
  finally show ?thesis .
qed

lemma optparse_long_landing_errmsg:
  assumes sk: "\<forall>t\<in>set sk. optparse_long_nonoption t" and perm: "sk = [] \<or> permute s \<noteq> 0"
    and d: "drop (optind s) (argv s) = sk @ (CHR ''-'' # CHR ''-'' # option) # rest"
    and ne: "option \<noteq> []"
  shows "(\<forall>j. (\<forall>k\<le>j. \<not> optparse_longopts_end longopts k) \<longrightarrow>
            longname (longopts ! j) \<noteq> Some (takeWhile (\<lambda>c. c \<noteq> CHR ''='') option)) \<Longrightarrow>
         errmsg (fst (snd (optparse_long s longopts longindex))) =
           ''invalid option -- '' @ [CHR 0x27] @ take 43 option @ [CHR 0x27]"
    and "(\<forall>j\<le>i. \<not> optparse_longopts_end longopts j) \<and>
         longname (longopts ! i) = Some (takeWhile (\<lambda>c. c \<noteq> CHR ''='') option) \<and>
         (\<forall>j<i. longname (longopts ! j) \<noteq> Some (takeWhile (\<lambda>c. c \<noteq> CHR ''='') option)) \<Longrightarrow>
         errmsg (fst (snd (optparse_long s longopts longindex))) =
           (if CHR ''='' \<in> set option \<and> argtype (longopts ! i) = OPTPARSE_NONE then
              ''option takes no arguments -- '' @ [CHR 0x27] @
                take 32 (takeWhile (\<lambda>c. c \<noteq> CHR ''='') option) @ [CHR 0x27]
            else if CHR ''='' \<notin> set option \<and> argtype (longopts ! i) = OPTPARSE_REQUIRED \<and>
                    rest = [] then
              ''option requires an argument -- '' @ [CHR 0x27] @
                take 30 (takeWhile (\<lambda>c. c \<noteq> CHR ''='') option) @ [CHR 0x27]
            else [])"
proof -
  let ?s1 = "s\<lparr>optind := optind s + length sk\<rparr>"
  have d1: "drop (optind ?s1) (argv ?s1) = (CHR ''-'' # CHR ''-'' # option) # rest"
    using drop_eq_appendD [OF d] by simp
  note tok = drop_eq_ConsD(2) [OF d1]
  have "drop (optind ?s1 + 1) (argv ?s1) = rest"
    using drop_eq_ConsD(3) [OF d1] by simp
  then have nx: "argv_at (argv ?s1) (optind ?s1 + 1) = None \<longleftrightarrow> rest = []"
    by (simp add: argv_at_drop split: list.split)
  have skip: "errmsg (fst (snd (optparse_long s longopts longindex))) =
      errmsg (fst (snd (optparse_long ?s1 longopts longindex)))"
    using sk perm d by (rule optparse_long_skip_errmsg)
  have noeq: "takeWhile (\<lambda>c. c \<noteq> CHR ''='') option = option" if "CHR ''='' \<notin> set option"
    using that by (auto simp: takeWhile_eq_all_conv)
  show "errmsg (fst (snd (optparse_long s longopts longindex))) =
      ''invalid option -- '' @ [CHR 0x27] @ take 43 option @ [CHR 0x27]"
    if "\<forall>j. (\<forall>k\<le>j. \<not> optparse_longopts_end longopts k) \<longrightarrow>
            longname (longopts ! j) \<noteq> Some (takeWhile (\<lambda>c. c \<noteq> CHR ''='') option)"
    unfolding skip optparse_long_nomatch [OF tok ne that] by simp
  show "errmsg (fst (snd (optparse_long s longopts longindex))) =
           (if CHR ''='' \<in> set option \<and> argtype (longopts ! i) = OPTPARSE_NONE then
              ''option takes no arguments -- '' @ [CHR 0x27] @
                take 32 (takeWhile (\<lambda>c. c \<noteq> CHR ''='') option) @ [CHR 0x27]
            else if CHR ''='' \<notin> set option \<and> argtype (longopts ! i) = OPTPARSE_REQUIRED \<and>
                    rest = [] then
              ''option requires an argument -- '' @ [CHR 0x27] @
                take 30 (takeWhile (\<lambda>c. c \<noteq> CHR ''='') option) @ [CHR 0x27]
            else [])"
    if p: "(\<forall>j\<le>i. \<not> optparse_longopts_end longopts j) \<and>
         longname (longopts ! i) = Some (takeWhile (\<lambda>c. c \<noteq> CHR ''='') option) \<and>
         (\<forall>j<i. longname (longopts ! j) \<noteq> Some (takeWhile (\<lambda>c. c \<noteq> CHR ''='') option))"
  proof -
    from p have p1: "\<forall>j\<le>i. \<not> optparse_longopts_end longopts j"
      and p2: "longname (longopts ! i) = Some (takeWhile (\<lambda>c. c \<noteq> CHR ''='') option)"
      and p3: "\<forall>j<i. longname (longopts ! j) \<noteq> Some (takeWhile (\<lambda>c. c \<noteq> CHR ''='') option)"
      by blast+
    show ?thesis
      unfolding skip optparse_long_match_result [OF tok ne p1 p2 p3]
      using nx by (auto simp: noeq split: option.split)
  qed
qed

subsection \<open>Sequences of calls\<close>

lemma optparse_calls_snoc:
  "optparse_calls (specs @ [optstring]) s = snd (optparse (optparse_calls specs s) optstring)"
  by (induction specs arbitrary: s) simp_all

lemma optparse_long_calls_snoc:
  "optparse_long_calls (calls @ [(longopts, longindex)]) s =
     fst (snd (optparse_long (optparse_long_calls calls s) longopts longindex))"
  by (induction calls arbitrary: s) auto

text \<open>
  The step of the invariant, on lists alone: \<open>C\<close> is what has been consumed, \<open>S\<close> what has
  been stepped over, and a call exchanges the non-options in front of the cursor with
  the tokens \<open>c\<close> it consumes.
\<close>

lemma rotate_invariant_step:
  fixes N :: "string \<Rightarrow> bool"
  assumes D: "D = M @ rest" and M: "M \<in> shuffles C S" and av: "av = pre @ C @ S @ rest"
    and p: "p = length pre + length C" and S: "\<forall>t\<in>set S. N t"
    and strict: "perm = 0 \<longrightarrow> S = []"
    and split: "drop p av = (if perm \<noteq> 0 then takeWhile N (drop p av) else []) @ c @ rest'"
    and av': "av' = take p av @ c @ (if perm \<noteq> 0 then takeWhile N (drop p av) else []) @ rest'"
  shows "\<exists>C' S' M' rest''. D = M' @ rest'' \<and> M' \<in> shuffles C' S' \<and>
    av' = pre @ C' @ S' @ rest'' \<and> p + length c = length pre + length C' \<and>
    (\<forall>t\<in>set S'. N t) \<and> (perm = 0 \<longrightarrow> S' = [])"
proof -
  define sk' where "sk' = (if perm \<noteq> 0 then takeWhile N rest else [])"
  have dr: "drop p av = S @ rest" and tk: "take p av = pre @ C"
    using av p by simp_all
  have sk: "(if perm \<noteq> 0 then takeWhile N (drop p av) else []) = S @ sk'"
    using S strict by (simp add: dr sk'_def takeWhile_append2)
  have "drop p av = (S @ sk') @ c @ rest'"
    using split unfolding sk .
  then have rest: "rest = sk' @ c @ rest'"
    unfolding dr by simp
  have N: "\<forall>t\<in>set (S @ sk'). N t"
    using S by (auto simp: sk'_def dest: set_takeWhileD)
  have "M @ sk' \<in> shuffles C (S @ sk')"
    using M by (rule shuffles_append_right)
  then have "(M @ sk') @ c \<in> shuffles (C @ c) (S @ sk')"
    by (rule shuffles_append_left)
  moreover have "D = ((M @ sk') @ c) @ rest'"
    using D rest by simp
  moreover have "av' = pre @ (C @ c) @ (S @ sk') @ rest'"
    using av' unfolding sk tk by simp
  moreover have "p + length c = length pre + length (C @ c)"
    using p by simp
  moreover have "perm = 0 \<longrightarrow> S @ sk' = []"
    using strict by (simp add: sk'_def)
  ultimately show ?thesis
    using N by blast
qed

lemma optparse_calls_invariant:
  assumes "optind s \<le> length (argv s)"
  shows "\<exists>C S M rest. drop (optind s) (argv s) = M @ rest \<and> M \<in> shuffles C S \<and>
    argv (optparse_calls specs s) = take (optind s) (argv s) @ C @ S @ rest \<and>
    optind (optparse_calls specs s) = length (take (optind s) (argv s)) + length C \<and>
    (\<forall>t\<in>set S. optparse_nonoption t) \<and>
    (permute (optparse_calls specs s) = 0 \<longrightarrow> S = [])"
proof (induction specs rule: rev_induct)
  case Nil
  have "drop (optind s) (argv s) = [] @ drop (optind s) (argv s)" "[] \<in> shuffles [] []"
    "argv s = take (optind s) (argv s) @ [] @ [] @ drop (optind s) (argv s)"
    by simp_all
  with assms show ?case
    by (intro exI [of _ "[]"] exI [of _ "drop (optind s) (argv s)"]) simp
next
  case (snoc optstring specs)
  let ?s1 = "optparse_calls specs s"
  from snoc obtain C S M rest where
    inv: "drop (optind s) (argv s) = M @ rest" "M \<in> shuffles C S"
      "argv ?s1 = take (optind s) (argv s) @ C @ S @ rest"
      "optind ?s1 = length (take (optind s) (argv s)) + length C"
      "\<forall>t\<in>set S. optparse_nonoption t" "permute ?s1 = 0 \<longrightarrow> S = []"
    by blast
  from optparse_rotate [of ?s1 optstring] obtain c rest' where
    call: "drop (optind ?s1) (argv ?s1) =
        (if permute ?s1 \<noteq> 0
         then takeWhile optparse_nonoption (drop (optind ?s1) (argv ?s1)) else []) @ c @ rest'"
      "argv (snd (optparse ?s1 optstring)) = take (optind ?s1) (argv ?s1) @ c @
        (if permute ?s1 \<noteq> 0
         then takeWhile optparse_nonoption (drop (optind ?s1) (argv ?s1)) else []) @ rest'"
      "optind (snd (optparse ?s1 optstring)) = optind ?s1 + length c"
      "permute (snd (optparse ?s1 optstring)) = permute ?s1"
    by blast
  from rotate_invariant_step [OF inv call(1) call(2)]
  show ?case
    unfolding optparse_calls_snoc call(3) call(4) by blast
qed

lemma optparse_long_calls_invariant:
  assumes "optind s \<le> length (argv s)"
  shows "\<exists>C S M rest. drop (optind s) (argv s) = M @ rest \<and> M \<in> shuffles C S \<and>
    argv (optparse_long_calls calls s) = take (optind s) (argv s) @ C @ S @ rest \<and>
    optind (optparse_long_calls calls s) = length (take (optind s) (argv s)) + length C \<and>
    (\<forall>t\<in>set S. optparse_long_nonoption t) \<and>
    (permute (optparse_long_calls calls s) = 0 \<longrightarrow> S = [])"
proof (induction calls rule: rev_induct)
  case Nil
  have "drop (optind s) (argv s) = [] @ drop (optind s) (argv s)" "[] \<in> shuffles [] []"
    "argv s = take (optind s) (argv s) @ [] @ [] @ drop (optind s) (argv s)"
    by simp_all
  with assms show ?case
    by (intro exI [of _ "[]"] exI [of _ "drop (optind s) (argv s)"]) simp
next
  case (snoc call calls)
  obtain longopts longindex where cl: "call = (longopts, longindex)"
    by (cases call)
  let ?s1 = "optparse_long_calls calls s"
  let ?s2 = "fst (snd (optparse_long ?s1 longopts longindex))"
  from snoc obtain C S M rest where
    inv: "drop (optind s) (argv s) = M @ rest" "M \<in> shuffles C S"
      "argv ?s1 = take (optind s) (argv s) @ C @ S @ rest"
      "optind ?s1 = length (take (optind s) (argv s)) + length C"
      "\<forall>t\<in>set S. optparse_long_nonoption t" "permute ?s1 = 0 \<longrightarrow> S = []"
    by blast
  from optparse_long_rotate [of ?s1 longopts longindex] obtain c rest' where
    call: "drop (optind ?s1) (argv ?s1) =
        (if permute ?s1 \<noteq> 0
         then takeWhile optparse_long_nonoption (drop (optind ?s1) (argv ?s1)) else [])
        @ c @ rest'"
      "argv ?s2 = take (optind ?s1) (argv ?s1) @ c @
        (if permute ?s1 \<noteq> 0
         then takeWhile optparse_long_nonoption (drop (optind ?s1) (argv ?s1)) else [])
        @ rest'"
      "optind ?s2 = optind ?s1 + length c"
      "permute ?s2 = permute ?s1"
    by blast
  from rotate_invariant_step [OF inv call(1) call(2)]
  show ?case
    unfolding cl optparse_long_calls_snoc call(3) call(4) by blast
qed

subsection \<open>The tokens positional1, --flag, positional2\<close>

lemma scenario_first_call:
  assumes p1: "optparse_long_nonoption p1"
  shows "optparse_long
      \<lparr>argv = [prog, p1, ''--flag'', p2], permute = 1, optind = 1, optopt = 0,
       optarg = None, errmsg = [], subopt = 0\<rparr>
      [\<lparr>longname = Some ''flag'', shortname = f, argtype = OPTPARSE_NONE\<rparr>] None =
    (f, \<lparr>argv = [prog, ''--flag'', p1, p2], permute = 1, optind = 2, optopt = f,
         optarg = None, errmsg = [], subopt = 0\<rparr>, None)"
proof -
  let ?av = "[prog, p1, ''--flag'', p2]"
  let ?st = "\<lambda>i c. \<lparr>argv = ?av, permute = 1, optind = i, optopt = c,
      optarg = None, errmsg = [], subopt = 0\<rparr>"
  let ?tbl = "[\<lparr>longname = Some ''flag'', shortname = f, argtype = OPTPARSE_NONE\<rparr>]"
  have n1: "p1 \<noteq> ''--''" "\<not> optparse__is_shortopt (Some p1)" "\<not> optparse__is_longopt (Some p1)"
    using p1 by (simp_all add: optparse_long_nonoption_def is_dashdash_iff)
  have t1: "argv_at (argv (?st 1 0)) (optind (?st 1 0)) = Some p1"
    by (simp add: argv_at_def)
  have p: "permute (?st 1 0) \<noteq> 0"
    by simp
  have t2: "argv_at (argv (?st 2 0)) (optind (?st 2 0)) = Some ''--flag''"
    by (simp add: argv_at_def)
  have "optparse_long (?st 2 0) ?tbl None =
      optparse_long_scan (?st 3 0) ?tbl None ''flag'' 0"
    using optparse_long_longopt [OF t2, of ?tbl None] by (simp add: eval_nat_numeral)
  also have "\<dots> = (f, ?st 3 f, None)"
    by (subst optparse_long_scan.simps)
      (simp add: optparse_longopts_end_def optparse__longopts_match_def
        optparse_long_found_def)
  finally have inner: "optparse_long (?st 2 0) ?tbl None = (f, ?st 3 f, None)" .
  have perm: "optparse__permute (?st 3 f) (Suc 0) =
      (?st 3 f)\<lparr>argv := [prog, ''--flag'', p1, p2]\<rparr>"
    using optparse__permute_append [of "?st 3 f" "[prog]" p1 "[''--flag'']" "[p2]" "Suc 0"]
    by simp
  have "optparse_long (?st 1 0) ?tbl None =
      (let (r, s1, longindex1) = optparse_long (?st 2 0) ?tbl None;
           s2 = optparse__permute s1 (Suc 0)
       in (r, s2\<lparr>optind := optind s2 - 1\<rparr>, longindex1))"
    using optparse_long_nonoption_permute [OF t1 n1 p, of ?tbl None]
    by (simp add: eval_nat_numeral)
  then show ?thesis
    unfolding inner by (simp add: perm)
qed

lemma scenario_second_call:
  assumes p1: "optparse_long_nonoption p1" and p2: "optparse_long_nonoption p2"
  shows "optparse_long
      \<lparr>argv = [prog, ''--flag'', p1, p2], permute = 1, optind = 2, optopt = f,
       optarg = None, errmsg = [], subopt = 0\<rparr> longopts None =
    (- 1, \<lparr>argv = [prog, ''--flag'', p1, p2], permute = 1, optind = 2, optopt = f,
           optarg = None, errmsg = [], subopt = 0\<rparr>, None)"
proof -
  let ?av = "[prog, ''--flag'', p1, p2]"
  let ?st = "\<lambda>i. \<lparr>argv = ?av, permute = 1, optind = i, optopt = f,
      optarg = None, errmsg = [], subopt = 0\<rparr>"
  have n1: "p1 \<noteq> ''--''" "\<not> optparse__is_shortopt (Some p1)" "\<not> optparse__is_longopt (Some p1)"
    using p1 by (simp_all add: optparse_long_nonoption_def is_dashdash_iff)
  have n2: "p2 \<noteq> ''--''" "\<not> optparse__is_shortopt (Some p2)" "\<not> optparse__is_longopt (Some p2)"
    using p2 by (simp_all add: optparse_long_nonoption_def is_dashdash_iff)
  have t2: "argv_at (argv (?st 2)) (optind (?st 2)) = Some p1"
    and t3: "argv_at (argv (?st 3)) (optind (?st 3)) = Some p2"
    and t4: "argv_at (argv (?st 4)) (optind (?st 4)) = None"
    by (simp_all add: argv_at_def)
  have p: "permute (?st 2) \<noteq> 0" "permute (?st 3) \<noteq> 0"
    by simp_all
  have perm4: "optparse__permute (?st 4) 3 = ?st 4"
    using optparse__permute_append [of "?st 4" "[prog, ''--flag'', p1]" p2 "[]" "[]" 3]
    by simp
  have perm3: "optparse__permute (?st 3) 2 = ?st 3"
    using optparse__permute_append [of "?st 3" "[prog, ''--flag'']" p1 "[]" "[p2]" 2]
    by simp
  have c4: "optparse_long (?st 4) longopts None = (- 1, ?st 4, None)"
    using t4 by (rule optparse_long_absent)
  have "optparse_long (?st 3) longopts None =
      (let (r, s1, longindex1) = optparse_long (?st 4) longopts None;
           s2 = optparse__permute s1 3
       in (r, s2\<lparr>optind := optind s2 - 1\<rparr>, longindex1))"
    using optparse_long_nonoption_permute [OF t3 n2 p(2), of longopts None]
    by (simp add: eval_nat_numeral)
  then have c3: "optparse_long (?st 3) longopts None = (- 1, ?st 3, None)"
    unfolding c4 by (simp add: perm4)
  have "optparse_long (?st 2) longopts None =
      (let (r, s1, longindex1) = optparse_long (?st 3) longopts None;
           s2 = optparse__permute s1 2
       in (r, s2\<lparr>optind := optind s2 - 1\<rparr>, longindex1))"
    using optparse_long_nonoption_permute [OF t2 n1 p(1), of longopts None]
    by (simp add: eval_nat_numeral)
  then show ?thesis
    unfolding c3 by (simp add: perm3)
qed

section \<open>The claims\<close>

text \<open>
  C1. A state initialised over the tokens \<^verbatim>\<open>[prog, -a, -b, -cred, -d, 10, -e]\<close> with the
  option string \<^verbatim>\<open>abc:d:e\<close>: six calls of \<^verbatim>\<open>optparse\<close> return \<^verbatim>\<open>'a'\<close>, \<^verbatim>\<open>'b'\<close>,
  \<^verbatim>\<open>'c'\<close> with the argument \<^verbatim>\<open>red\<close>, \<^verbatim>\<open>'d'\<close> with the argument \<^verbatim>\<open>10\<close>, \<^verbatim>\<open>'e'\<close> and
  then -1, and \<^verbatim>\<open>optparse_arg\<close> then returns \<^verbatim>\<open>NULL\<close>: no positional is left. The
  program name and the state handed to \<^verbatim>\<open>optparse_init\<close> are arbitrary.
\<close>

theorem C1_end_to_end:
  "(let s0 = optparse_init (o0::optparse_t)
               [prog, ''-a'', ''-b'', ''-cred'', ''-d'', ''10'', ''-e''];
        (r1, s1) = optparse s0 ''abc:d:e'';
        (r2, s2) = optparse s1 ''abc:d:e'';
        (r3, s3) = optparse s2 ''abc:d:e'';
        (r4, s4) = optparse s3 ''abc:d:e'';
        (r5, s5) = optparse s4 ''abc:d:e'';
        (r6, s6) = optparse s5 ''abc:d:e''
    in r1 = c_int_of_char CHR ''a'' \<and> optarg s1 = None \<and>
       r2 = c_int_of_char CHR ''b'' \<and> optarg s2 = None \<and>
       r3 = c_int_of_char CHR ''c'' \<and> optarg s3 = Some ''red'' \<and>
       r4 = c_int_of_char CHR ''d'' \<and> optarg s4 = Some ''10'' \<and>
       r5 = c_int_of_char CHR ''e'' \<and> optarg s5 = None \<and>
       r6 = - 1 \<and>
       fst (optparse_arg s6) = None)"
proof -
  define av where "av = [prog, ''-a'', ''-b'', ''-cred'', ''-d'', ''10'', ''-e'']"
  define st where "st = (\<lambda>i c a. \<lparr>argv = av, permute = 1, optind = i, optopt = c,
      optarg = a, errmsg = [], subopt = 0\<rparr>)"
  have s0: "optparse_init o0 av = st 1 0 None"
    by (simp add: optparse_init_eq av_def st_def)
  have c1: "optparse (st 1 0 None) ''abc:d:e'' = (c_int_of_char CHR ''a'', st 2 97 None)"
    by (simp add: short_eval av_def st_def)
  have c2: "optparse (st 2 97 None) ''abc:d:e'' = (c_int_of_char CHR ''b'', st 3 98 None)"
    by (simp add: short_eval av_def st_def)
  have c3: "optparse (st 3 98 None) ''abc:d:e'' =
      (c_int_of_char CHR ''c'', st 4 99 (Some ''red''))"
    by (simp add: short_eval av_def st_def)
  have c4: "optparse (st 4 99 (Some ''red'')) ''abc:d:e'' =
      (c_int_of_char CHR ''d'', st 6 100 (Some ''10''))"
    by (simp add: short_eval av_def st_def)
  have c5: "optparse (st 6 100 (Some ''10'')) ''abc:d:e'' =
      (c_int_of_char CHR ''e'', st 7 101 None)"
    by (simp add: short_eval av_def st_def)
  have c6: "optparse (st 7 101 None) ''abc:d:e'' = (- 1, st 7 0 None)"
    by (simp add: short_eval av_def st_def)
  have a: "fst (optparse_arg (st 7 0 None)) = None"
    by (simp add: short_eval av_def st_def)
  have o: "optarg (st i c x) = x" for i c x
    by (simp add: st_def)
  show ?thesis
    unfolding av_def [symmetric] Let_def s0 c1 c2 c3 c4 c5 c6 prod.case o a
    by simp
qed

text \<open>
  C2, as the code has it. A sequence of \<^verbatim>\<open>optparse\<close> calls, or a sequence of
  \<^verbatim>\<open>optparse_long\<close> calls, from a state whose cursor is inside the array: the tokens
  before the initial cursor stay; the tokens \<open>M\<close> from the initial cursor up to the last
  token examined are an interleaving of the consumed tokens \<open>C\<close> and of the non-options
  \<open>S\<close> that were stepped over, each in its original order (\<open>M \<in> shuffles C S\<close>); the array
  ends as \<open>C\<close>, then \<open>S\<close>, then the untouched rest, with the cursor at the first token of
  \<open>S\<close>. This holds for every value of \<^verbatim>\<open>permute\<close> (with 0, \<open>S\<close> is empty). For the tokens
  \<^verbatim>\<open>[prog, p1, --flag, p2]\<close> with non-options \<open>p1\<close> and \<open>p2\<close> and a flag without a value,
  the first \<^verbatim>\<open>optparse_long\<close> call returns the flag, the second returns -1, and draining
  the positionals gives \<open>p1\<close>, then \<open>p2\<close>.
\<close>

theorem C2_permutation_order:
  "(optind s \<le> length (argv s) \<longrightarrow>
      (\<exists>C S M rest.
         drop (optind s) (argv s) = M @ rest \<and> M \<in> shuffles C S \<and>
         argv (optparse_calls specs s) = take (optind s) (argv s) @ C @ S @ rest \<and>
         optind (optparse_calls specs s) = optind s + length C \<and>
         (\<forall>t\<in>set S. optparse_nonoption t)) \<and>
      (\<exists>C S M rest.
         drop (optind s) (argv s) = M @ rest \<and> M \<in> shuffles C S \<and>
         argv (optparse_long_calls calls s) = take (optind s) (argv s) @ C @ S @ rest \<and>
         optind (optparse_long_calls calls s) = optind s + length C \<and>
         (\<forall>t\<in>set S. optparse_long_nonoption t))) \<and>
   (optparse_long_nonoption p1 \<and> optparse_long_nonoption p2 \<longrightarrow>
      (let s0 = optparse_init (o0::optparse_t) [prog, p1, ''--flag'', p2];
           longopts = [\<lparr>longname = Some ''flag'', shortname = f, argtype = OPTPARSE_NONE\<rparr>];
           (r1, s1, i1) = optparse_long s0 longopts None;
           (r2, s2, i2) = optparse_long s1 longopts None
       in r1 = f \<and> r2 = - 1 \<and> argv s2 = [prog, ''--flag'', p1, p2] \<and>
          unconsumed_args s2 = [p1, p2]))"
proof (intro conjI impI)
  assume wf: "optind s \<le> length (argv s)"
  then have len: "length (take (optind s) (argv s)) = optind s"
    by simp
  from optparse_calls_invariant [OF wf, of specs] obtain C S M rest where
    "drop (optind s) (argv s) = M @ rest" "M \<in> shuffles C S"
    "argv (optparse_calls specs s) = take (optind s) (argv s) @ C @ S @ rest"
    "optind (optparse_calls specs s) = length (take (optind s) (argv s)) + length C"
    "\<forall>t\<in>set S. optparse_nonoption t"
    by blast
  then show "\<exists>C S M rest.
         drop (optind s) (argv s) = M @ rest \<and> M \<in> shuffles C S \<and>
         argv (optparse_calls specs s) = take (optind s) (argv s) @ C @ S @ rest \<and>
         optind (optparse_calls specs s) = optind s + length C \<and>
         (\<forall>t\<in>set S. optparse_nonoption t)"
    unfolding len by (intro exI [of _ C] exI [of _ S] exI [of _ M] exI [of _ rest]) simp
  from optparse_long_calls_invariant [OF wf, of calls] obtain C S M rest where
    "drop (optind s) (argv s) = M @ rest" "M \<in> shuffles C S"
    "argv (optparse_long_calls calls s) = take (optind s) (argv s) @ C @ S @ rest"
    "optind (optparse_long_calls calls s) = length (take (optind s) (argv s)) + length C"
    "\<forall>t\<in>set S. optparse_long_nonoption t"
    by blast
  then show "\<exists>C S M rest.
         drop (optind s) (argv s) = M @ rest \<and> M \<in> shuffles C S \<and>
         argv (optparse_long_calls calls s) = take (optind s) (argv s) @ C @ S @ rest \<and>
         optind (optparse_long_calls calls s) = optind s + length C \<and>
         (\<forall>t\<in>set S. optparse_long_nonoption t)"
    unfolding len by (intro exI [of _ C] exI [of _ S] exI [of _ M] exI [of _ rest]) simp
next
  assume n: "optparse_long_nonoption p1 \<and> optparse_long_nonoption p2"
  then have n1: "optparse_long_nonoption p1" and n2: "optparse_long_nonoption p2"
    by simp_all
  show "(let s0 = optparse_init o0 [prog, p1, ''--flag'', p2];
           longopts = [\<lparr>longname = Some ''flag'', shortname = f, argtype = OPTPARSE_NONE\<rparr>];
           (r1, s1, i1) = optparse_long s0 longopts None;
           (r2, s2, i2) = optparse_long s1 longopts None
       in r1 = f \<and> r2 = - 1 \<and> argv s2 = [prog, ''--flag'', p1, p2] \<and>
          unconsumed_args s2 = [p1, p2])"
    unfolding Let_def optparse_init_eq
    using scenario_first_call [OF n1, of prog p2 f]
      scenario_second_call [OF n1 n2, of prog f]
    by (simp add: unconsumed_args_eq)
qed

text \<open>
  The claim as stated speaks of every sequence of calls of the two functions. The
  tokens \<^verbatim>\<open>[prog, --x, -a]\<close>: \<^verbatim>\<open>optparse\<close> with the option string \<^verbatim>\<open>a\<close> steps over
  \<^verbatim>\<open>--x\<close> as a non-option, returns \<^verbatim>\<open>'a'\<close> and moves \<^verbatim>\<open>-a\<close> in front of \<^verbatim>\<open>--x\<close>;
  \<^verbatim>\<open>optparse_long\<close> on that state then returns \<^verbatim>\<open>'x'\<close> for \<^verbatim>\<open>--x\<close>. Both tokens were
  consumed as options, and their order in the array is not the one they had.
\<close>

theorem C2_permutation_order_counterexample:
  "optparse
     \<lparr>argv = [''prog'', ''--x'', ''-a''], permute = 1, optind = 1, optopt = 0,
      optarg = None, errmsg = [], subopt = 0\<rparr> ''a'' =
     (c_int_of_char CHR ''a'',
      \<lparr>argv = [''prog'', ''-a'', ''--x''], permute = 1, optind = 2, optopt = 97,
       optarg = None, errmsg = [], subopt = 0\<rparr>) \<and>
   optparse_long
     \<lparr>argv = [''prog'', ''-a'', ''--x''], permute = 1, optind = 2, optopt = 97,
      optarg = None, errmsg = [], subopt = 0\<rparr>
     [\<lparr>longname = Some ''x'', shortname = 120, argtype = OPTPARSE_NONE\<rparr>] None =
     (c_int_of_char CHR ''x'',
      \<lparr>argv = [''prog'', ''-a'', ''--x''], permute = 1, optind = 3, optopt = 120,
       optarg = None, errmsg = [], subopt = 0\<rparr>,
      None)"
  by code_simp

text \<open>
  The tokens \<^verbatim>\<open>[prog, positional1, --flag, positional2]\<close> with the short name \<^verbatim>\<open>'f'\<close>
  for the flag: the two calls and the draining of the positionals, and the two calls as
  a sequence from the initialised state, whose cursor is inside the array.
\<close>

theorem C2_permutation_order_witness:
  "(let s0 = optparse_init
               \<lparr>argv = [], permute = 0, optind = 0, optopt = 0, optarg = None,
                errmsg = [], subopt = 0\<rparr>
               [''prog'', ''positional1'', ''--flag'', ''positional2''];
        longopts = [\<lparr>longname = Some ''flag'', shortname = 102, argtype = OPTPARSE_NONE\<rparr>];
        (r1, s1, i1) = optparse_long s0 longopts None;
        (r2, s2, i2) = optparse_long s1 longopts None
    in optparse_long_nonoption ''positional1'' \<and> optparse_long_nonoption ''positional2'' \<and>
       r1 = 102 \<and> r2 = - 1 \<and>
       argv s2 = [''prog'', ''--flag'', ''positional1'', ''positional2''] \<and>
       unconsumed_args s2 = [''positional1'', ''positional2''] \<and>
       optind s0 \<le> length (argv s0) \<and>
       (\<exists>C S M rest.
          drop (optind s0) (argv s0) = M @ rest \<and> M \<in> shuffles C S \<and>
          argv (optparse_long_calls [(longopts, None), (longopts, None)] s0) =
            take (optind s0) (argv s0) @ C @ S @ rest \<and>
          optind (optparse_long_calls [(longopts, None), (longopts, None)] s0) =
            optind s0 + length C \<and>
          (\<forall>t\<in>set S. optparse_long_nonoption t)))"
proof -
  define s0 where "s0 = optparse_init
               \<lparr>argv = [], permute = 0, optind = 0, optopt = 0, optarg = None,
                errmsg = [], subopt = 0\<rparr>
               [''prog'', ''positional1'', ''--flag'', ''positional2'']"
  define longopts where
    "longopts = [\<lparr>longname = Some ''flag'', shortname = 102, argtype = OPTPARSE_NONE\<rparr>]"
  have n: "optparse_long_nonoption ''positional1'' \<and> optparse_long_nonoption ''positional2''"
    by (simp add: optparse_long_nonoption_def)
  have wf: "optind s0 \<le> length (argv s0)"
    by (simp add: s0_def optparse_init_eq)
  note c = C2_permutation_order [of s0 "[]" "[(longopts, None), (longopts, None)]"
      "''positional1''" "''positional2''"
      "\<lparr>argv = [], permute = 0, optind = 0, optopt = 0, optarg = None,
       errmsg = [], subopt = 0\<rparr>" "''prog''" 102]
  note seq = c [THEN conjunct1, THEN mp, OF wf, THEN conjunct2]
  note scen = c [THEN conjunct2, THEN mp, OF n, folded s0_def longopts_def]
  from scen have scen': "case optparse_long s0 longopts None of
      (r1, s1, i1) \<Rightarrow> case optparse_long s1 longopts None of
      (r2, s2, i2) \<Rightarrow> r1 = 102 \<and> r2 = - 1 \<and>
       argv s2 = [''prog'', ''--flag'', ''positional1'', ''positional2''] \<and>
       unconsumed_args s2 = [''positional1'', ''positional2'']"
    by (simp add: Let_def)
  show ?thesis
    unfolding s0_def [symmetric] longopts_def [symmetric] Let_def
    using n wf seq scen' by (simp add: split_beta)
qed

text \<open>
  C3. A call of \<^verbatim>\<open>optparse\<close> that reaches the cluster \<open>tok\<close> (at the cursor, or, with
  \<^verbatim>\<open>permute\<close> set, after stepping over the non-options \<open>sk\<close>) and reads in it a flag with
  an optional value, one for which \<^verbatim>\<open>optparse__argtype\<close> answers \<^verbatim>\<open>OPTPARSE_OPTIONAL\<close>
  (2). The call returns the flag; the argument is the rest of the token when characters
  follow the flag, and \<^verbatim>\<open>NULL\<close> when the flag ends the token. The cluster alone is
  consumed: the cursor advances by one, and every token \<open>rest\<close> after the cluster is
  left for \<^verbatim>\<open>optparse_arg\<close>, behind the non-options that were stepped over. With the
  cluster at the cursor (\<open>sk\<close> empty) the token after it is the next positional.
\<close>

theorem C3_optional_value:
  assumes sk: "\<forall>t\<in>set sk. optparse_nonoption t" and perm: "sk = [] \<or> permute s \<noteq> 0"
    and d: "drop (optind s) (argv s) = sk @ tok # rest"
    and short: "optparse__is_shortopt (Some tok)"
    and flag: "subopt s + 1 < length tok"
    and opt: "optparse__argtype optstring (tok ! (subopt s + 1)) = 2"
  shows "optparse s optstring =
           (c_int_of_char (tok ! (subopt s + 1)),
            s\<lparr>argv := take (optind s) (argv s) @ tok # sk @ rest,
              optind := optind s + 1,
              optopt := c_int_of_char (tok ! (subopt s + 1)),
              optarg := (if subopt s + 2 < length tok
                         then Some (drop (subopt s + 2) tok) else None),
              errmsg := [], subopt := 0\<rparr>) \<and>
         unconsumed_args (snd (optparse s optstring)) = sk @ rest \<and>
         fst (optparse_arg (snd (optparse s optstring))) =
           (case sk @ rest of [] \<Rightarrow> None | following # _ \<Rightarrow> Some following)"
proof -
  have "optparse_cluster
      (s\<lparr>errmsg := [], optopt := 0, optarg := None, optind := optind s + length sk\<rparr>)
      optstring tok =
      (c_int_of_char (tok ! (subopt s + 1)),
       s\<lparr>argv := argv s, optind := optind s + length sk + 1,
         optopt := c_int_of_char (tok ! (subopt s + 1)),
         optarg := (if subopt s + 2 < length tok
                    then Some (drop (subopt s + 2) tok) else None),
         errmsg := [], subopt := 0\<rparr>)"
    using opt cluster_flag [OF flag]
    by (cases s) (simp add: optparse_cluster_def Let_def)
  then have "optparse s optstring =
           (c_int_of_char (tok ! (subopt s + 1)),
            s\<lparr>argv := take (optind s) (argv s) @ tok # sk @ rest,
              optind := optind s + 1,
              optopt := c_int_of_char (tok ! (subopt s + 1)),
              optarg := (if subopt s + 2 < length tok
                         then Some (drop (subopt s + 2) tok) else None),
              errmsg := [], subopt := 0\<rparr>)"
    unfolding optparse_skip_to_cluster [OF sk perm d short]
    by (cases s) simp
  moreover have "length (take (optind s) (argv s)) = optind s"
    using drop_eq_ConsD(1) [of "optind s" "argv s"] d
    by (cases sk) simp_all
  ultimately have res: "optparse s optstring =
           (c_int_of_char (tok ! (subopt s + 1)),
            s\<lparr>argv := take (optind s) (argv s) @ tok # sk @ rest,
              optind := optind s + 1,
              optopt := c_int_of_char (tok ! (subopt s + 1)),
              optarg := (if subopt s + 2 < length tok
                         then Some (drop (subopt s + 2) tok) else None),
              errmsg := [], subopt := 0\<rparr>)"
    and left: "drop (optind (snd (optparse s optstring))) (argv (snd (optparse s optstring))) =
      sk @ rest"
    by simp_all
  have "fst (optparse_arg (snd (optparse s optstring))) =
      (case sk @ rest of [] \<Rightarrow> None | following # _ \<Rightarrow> Some following)"
    unfolding optparse_arg_eq fst_conv argv_at_drop left ..
  with res left show ?thesis
    by (simp add: unconsumed_args_eq)
qed

text \<open>
  The tokens \<^verbatim>\<open>[prog, -d, 10]\<close> with the option string \<^verbatim>\<open>d::\<close>: the call returns
  \<^verbatim>\<open>'d'\<close> without an argument, and \<^verbatim>\<open>10\<close> is the next positional. The tokens
  \<^verbatim>\<open>[prog, file, -d, 10]\<close>: the same, with \<^verbatim>\<open>file\<close> and \<^verbatim>\<open>10\<close> left as positionals.
\<close>

theorem C3_optional_value_witness:
  "(let s = optparse_init \<lparr>argv = [], permute = 0, optind = 0, optopt = 0, optarg = None,
                          errmsg = [], subopt = 0\<rparr> [''prog'', ''-d'', ''10''];
        s' = optparse_init s [''prog'', ''file'', ''-d'', ''10'']
    in (\<forall>t\<in>set []. optparse_nonoption t) \<and>
       drop (optind s) (argv s) = [] @ ''-d'' # [''10''] \<and>
       optparse__is_shortopt (Some ''-d'') \<and>
       subopt s + 1 < length ''-d'' \<and>
       optparse__argtype ''d::'' (''-d'' ! (subopt s + 1)) = 2 \<and>
       fst (optparse s ''d::'') = c_int_of_char CHR ''d'' \<and>
       optarg (snd (optparse s ''d::'')) = None \<and>
       optind (snd (optparse s ''d::'')) = 2 \<and>
       fst (optparse_arg (snd (optparse s ''d::''))) = Some ''10'' \<and>
       optparse_nonoption ''file'' \<and> permute s' \<noteq> 0 \<and>
       drop (optind s') (argv s') = [''file''] @ ''-d'' # [''10''] \<and>
       fst (optparse s' ''d::'') = c_int_of_char CHR ''d'' \<and>
       optarg (snd (optparse s' ''d::'')) = None \<and>
       argv (snd (optparse s' ''d::'')) = [''prog'', ''-d'', ''file'', ''10''] \<and>
       unconsumed_args (snd (optparse s' ''d::'')) = [''file'', ''10''])"
proof -
  define s where "s = optparse_init \<lparr>argv = [], permute = 0, optind = 0, optopt = 0,
    optarg = None, errmsg = [], subopt = 0\<rparr> [''prog'', ''-d'', ''10'']"
  define s' where "s' = optparse_init s [''prog'', ''file'', ''-d'', ''10'']"
  have s: "subopt s = 0" "optind s = 1" "argv s = [''prog'', ''-d'', ''10'']"
    by (simp_all add: s_def optparse_init_eq)
  have s': "subopt s' = 0" "optind s' = 1" "argv s' = [''prog'', ''file'', ''-d'', ''10'']"
    "permute s' = 1"
    by (simp_all add: s'_def optparse_init_eq)
  have h: "\<forall>t\<in>set []. optparse_nonoption t" "[] = [] \<or> permute s \<noteq> 0"
    "drop (optind s) (argv s) = [] @ ''-d'' # [''10'']"
    "optparse__is_shortopt (Some ''-d'')"
    "subopt s + 1 < length ''-d''" "optparse__argtype ''d::'' (''-d'' ! (subopt s + 1)) = 2"
    by (simp_all add: s optparse__argtype_def)
  have h': "\<forall>t\<in>set [''file'']. optparse_nonoption t" "[''file''] = [] \<or> permute s' \<noteq> 0"
    "drop (optind s') (argv s') = [''file''] @ ''-d'' # [''10'']"
    "optparse__is_shortopt (Some ''-d'')"
    "subopt s' + 1 < length ''-d''" "optparse__argtype ''d::'' (''-d'' ! (subopt s' + 1)) = 2"
    by (simp_all add: s' optparse__argtype_def optparse_nonoption_def)
  note c = C3_optional_value [OF h] and c' = C3_optional_value [OF h']
  show ?thesis
    unfolding Let_def s_def [symmetric] s'_def [symmetric]
    using h h' c c' by (auto simp: s s')
qed

text \<open>
  C4. A call of \<^verbatim>\<open>optparse\<close> that reaches the cluster \<open>tok\<close> (at the cursor, or, with
  \<^verbatim>\<open>permute\<close> set, after stepping over the non-options \<open>sk\<close>) and reads in it a flag with
  a required value, one for which \<^verbatim>\<open>optparse__argtype\<close> answers \<^verbatim>\<open>OPTPARSE_REQUIRED\<close>
  (1). When characters follow the flag in the token they are the argument and the
  cursor advances by one token; otherwise, when a token follows the cluster, that token
  is the argument and the cursor advances by two; otherwise the call returns \<^verbatim>\<open>'?'\<close>,
  the message is \<^verbatim>\<open>option requires an argument -- 'c'\<close> for the flag \<^verbatim>\<open>c\<close>, and the
  argument is \<^verbatim>\<open>NULL\<close>. The consumed tokens stand in front of \<open>sk\<close> afterwards.
\<close>

theorem C4_required_value:
  assumes sk: "\<forall>t\<in>set sk. optparse_nonoption t" and perm: "sk = [] \<or> permute s \<noteq> 0"
    and d: "drop (optind s) (argv s) = sk @ tok # rest"
    and short: "optparse__is_shortopt (Some tok)"
    and flag: "subopt s + 1 < length tok"
    and req: "optparse__argtype optstring (tok ! (subopt s + 1)) = 1"
    and nul: "tok ! (subopt s + 1) \<noteq> CHR 0x00"
  shows "optparse s optstring =
          (if subopt s + 2 < length tok then
             (c_int_of_char (tok ! (subopt s + 1)),
              s\<lparr>argv := take (optind s) (argv s) @ tok # sk @ rest,
                optind := optind s + 1,
                optopt := c_int_of_char (tok ! (subopt s + 1)),
                optarg := Some (drop (subopt s + 2) tok),
                errmsg := [], subopt := 0\<rparr>)
           else case rest of
             following # rest' \<Rightarrow>
               (c_int_of_char (tok ! (subopt s + 1)),
                s\<lparr>argv := take (optind s) (argv s) @ tok # following # sk @ rest',
                  optind := optind s + 2,
                  optopt := c_int_of_char (tok ! (subopt s + 1)),
                  optarg := Some following,
                  errmsg := [], subopt := 0\<rparr>)
           | [] \<Rightarrow>
               (c_int_of_char CHR ''?'',
                s\<lparr>argv := take (optind s) (argv s) @ tok # sk,
                  optind := optind s + 1,
                  optopt := c_int_of_char (tok ! (subopt s + 1)),
                  optarg := None,
                  errmsg := ''option requires an argument -- '' @ [CHR 0x27] @
                              [tok ! (subopt s + 1)] @ [CHR 0x27],
                  subopt := 0\<rparr>))"
proof -
  let ?s0 = "s\<lparr>errmsg := [], optopt := 0, optarg := None, optind := optind s + length sk\<rparr>"
  have nx: "argv_at (argv ?s0) (optind ?s0 + 1) = (case rest of [] \<Rightarrow> None | n # _ \<Rightarrow> Some n)"
  proof -
    have dd: "drop (Suc (optind s + length sk)) (argv s) = rest"
      using drop_eq_ConsD(3) [OF drop_eq_appendD [OF d]] .
    show ?thesis
    proof (cases rest)
      case Nil
      with dd have "length (argv s) \<le> Suc (optind s + length sk)" by simp
      with Nil show ?thesis by (simp add: argv_at_def)
    next
      case (Cons n rest')
      with dd drop_eq_ConsD(2) [of "Suc (optind s + length sk)" "argv s" n rest']
      show ?thesis by simp
    qed
  qed
  show ?thesis
    unfolding optparse_skip_to_cluster [OF sk perm d short]
    using req nul cluster_flag [OF flag] nx
    by (cases s; cases rest)
      (simp_all add: optparse_cluster_def Let_def optparse__error_eq OPTPARSE_MSG_MISSING_def
        char_str_def c_int_of_char_def)
qed

text \<open>
  The tokens \<^verbatim>\<open>[prog, -c]\<close> with the option string \<^verbatim>\<open>c:\<close>: no characters follow the flag
  and no token follows the cluster, so the call ends in the error. The tokens
  \<^verbatim>\<open>[prog, file, -c, red]\<close>: the argument is \<^verbatim>\<open>red\<close> and the cursor advances past
  \<^verbatim>\<open>-c\<close> and \<^verbatim>\<open>red\<close>, which stand in front of \<^verbatim>\<open>file\<close>.
\<close>

theorem C4_required_value_witness:
  "(let s = optparse_init \<lparr>argv = [], permute = 0, optind = 0, optopt = 0, optarg = None,
                          errmsg = [], subopt = 0\<rparr> [''prog'', ''-c''];
        s' = optparse_init s [''prog'', ''file'', ''-c'', ''red'']
    in (\<forall>t\<in>set []. optparse_nonoption t) \<and>
       drop (optind s) (argv s) = [] @ ''-c'' # [] \<and>
       optparse__is_shortopt (Some ''-c'') \<and>
       subopt s + 1 < length ''-c'' \<and>
       optparse__argtype ''c:'' (''-c'' ! (subopt s + 1)) = 1 \<and>
       ''-c'' ! (subopt s + 1) \<noteq> CHR 0x00 \<and>
       fst (optparse s ''c:'') = c_int_of_char CHR ''?'' \<and>
       errmsg (snd (optparse s ''c:'')) =
         ''option requires an argument -- '' @ [CHR 0x27] @ ''c'' @ [CHR 0x27] \<and>
       optarg (snd (optparse s ''c:'')) = None \<and>
       optind (snd (optparse s ''c:'')) = 2 \<and>
       optparse_nonoption ''file'' \<and> permute s' \<noteq> 0 \<and>
       drop (optind s') (argv s') = [''file''] @ ''-c'' # [''red''] \<and>
       fst (optparse s' ''c:'') = c_int_of_char CHR ''c'' \<and>
       optarg (snd (optparse s' ''c:'')) = Some ''red'' \<and>
       optind (snd (optparse s' ''c:'')) = 3 \<and>
       argv (snd (optparse s' ''c:'')) = [''prog'', ''-c'', ''red'', ''file''])"
proof -
  define s where "s = optparse_init \<lparr>argv = [], permute = 0, optind = 0, optopt = 0,
    optarg = None, errmsg = [], subopt = 0\<rparr> [''prog'', ''-c'']"
  define s' where "s' = optparse_init s [''prog'', ''file'', ''-c'', ''red'']"
  have s: "subopt s = 0" "optind s = 1" "argv s = [''prog'', ''-c'']"
    by (simp_all add: s_def optparse_init_eq)
  have s': "subopt s' = 0" "optind s' = 1" "argv s' = [''prog'', ''file'', ''-c'', ''red'']"
    "permute s' = 1"
    by (simp_all add: s'_def optparse_init_eq)
  have h: "\<forall>t\<in>set []. optparse_nonoption t" "[] = [] \<or> permute s \<noteq> 0"
    "drop (optind s) (argv s) = [] @ ''-c'' # []"
    "optparse__is_shortopt (Some ''-c'')"
    "subopt s + 1 < length ''-c''" "optparse__argtype ''c:'' (''-c'' ! (subopt s + 1)) = 1"
    "''-c'' ! (subopt s + 1) \<noteq> CHR 0x00"
    by (simp_all add: s optparse__argtype_def)
  have h': "\<forall>t\<in>set [''file'']. optparse_nonoption t" "[''file''] = [] \<or> permute s' \<noteq> 0"
    "drop (optind s') (argv s') = [''file''] @ ''-c'' # [''red'']"
    "optparse__is_shortopt (Some ''-c'')"
    "subopt s' + 1 < length ''-c''" "optparse__argtype ''c:'' (''-c'' ! (subopt s' + 1)) = 1"
    "''-c'' ! (subopt s' + 1) \<noteq> CHR 0x00"
    by (simp_all add: s' optparse__argtype_def optparse_nonoption_def)
  note c = C4_required_value [OF h] and c' = C4_required_value [OF h']
  show ?thesis
    unfolding Let_def s_def [symmetric] s'_def [symmetric]
    using h h' c c' by (auto simp: s s')
qed

text \<open>
  C9. The token at the cursor is \<^verbatim>\<open>--\<close>: \<^verbatim>\<open>optparse\<close> and \<^verbatim>\<open>optparse_long\<close> return -1
  and advance the cursor by one, whatever \<^verbatim>\<open>permute\<close> holds, and draining the
  positionals afterwards gives every token after the \<^verbatim>\<open>--\<close>, whatever its shape.
\<close>

theorem C9_dashdash:
  assumes "argv_at (argv s) (optind s) = Some ''--''"
  shows "optparse s optstring =
           (- 1, s\<lparr>errmsg := [], optopt := 0, optarg := None, optind := optind s + 1\<rparr>) \<and>
         optparse_long s longopts longindex = (- 1, s\<lparr>optind := optind s + 1\<rparr>, longindex) \<and>
         unconsumed_args (snd (optparse s optstring)) = drop (optind s + 1) (argv s) \<and>
         unconsumed_args (fst (snd (optparse_long s longopts longindex))) =
           drop (optind s + 1) (argv s)"
  using assms by (simp add: optparse_dashdash optparse_long_dashdash unconsumed_args_eq)

text \<open>
  The tokens \<^verbatim>\<open>[prog, --, -x]\<close> with \<^verbatim>\<open>permute\<close> set to 0: both calls return -1 and
  \<^verbatim>\<open>-x\<close> is left as the one positional.
\<close>

theorem C9_dashdash_witness:
  "(let s = (optparse_init \<lparr>argv = [], permute = 0, optind = 0, optopt = 0, optarg = None,
                          errmsg = [], subopt = 0\<rparr> [''prog'', ''--'', ''-x''])\<lparr>permute := 0\<rparr>
    in argv_at (argv s) (optind s) = Some ''--'' \<and>
       fst (optparse s ''x'') = - 1 \<and>
       fst (optparse_long s
          [\<lparr>longname = Some ''xray'', shortname = 120, argtype = OPTPARSE_NONE\<rparr>] None) = - 1 \<and>
       unconsumed_args (snd (optparse s ''x'')) = [''-x''] \<and>
       unconsumed_args (fst (snd (optparse_long s
          [\<lparr>longname = Some ''xray'', shortname = 120, argtype = OPTPARSE_NONE\<rparr>] None))) = [''-x''])"
proof -
  define s where "s = (optparse_init \<lparr>argv = [], permute = 0, optind = 0, optopt = 0,
    optarg = None, errmsg = [], subopt = 0\<rparr> [''prog'', ''--'', ''-x''])\<lparr>permute := 0\<rparr>"
  have h: "argv_at (argv s) (optind s) = Some ''--''"
    by (simp add: s_def optparse_init_eq argv_at_def)
  have s: "optind s = 1" "argv s = [''prog'', ''--'', ''-x'']"
    by (simp_all add: s_def optparse_init_eq)
  show ?thesis
    unfolding Let_def s_def [symmetric]
    using h C9_dashdash [OF h, of "''x''"
        "[\<lparr>longname = Some ''xray'', shortname = 120, argtype = OPTPARSE_NONE\<rparr>]" None]
    by (auto simp: s)
qed

text \<open>
  C8. \<^verbatim>\<open>optparse__error\<close>, called with one of the three reason phrases, returns
  \<^verbatim>\<open>'?'\<close> and stores the phrase, then \<^verbatim>\<open> -- '\<close>, then the offending name cut to what
  the buffer has room for (57 characters less the length of the phrase), then \<^verbatim>\<open>'\<close>;
  the name is stored whole when it fits, and the message has at most 63 characters.
  Every message that \<^verbatim>\<open>optparse\<close> or \<^verbatim>\<open>optparse_long\<close> leaves in the state is empty,
  or of this shape, or (for \<^verbatim>\<open>optparse_long\<close>) the message the state held before the
  call.

  The message of a call, by the token it lands on (at the cursor, or, with \<^verbatim>\<open>permute\<close>
  set, after stepping over the non-options \<open>sk\<close>):
  \<^item> on a cluster, for \<^verbatim>\<open>optparse\<close> and for \<^verbatim>\<open>optparse_long\<close> (whose option string is
    the one \<^verbatim>\<open>optparse__from_long\<close> builds): \<^verbatim>\<open>invalid option -- 'c'\<close> when the flag
    \<^verbatim>\<open>c\<close> read in the cluster is not declared, \<^verbatim>\<open>option requires an argument -- 'c'\<close>
    when it requires a value, ends the token and no token follows, and empty otherwise;
  \<^item> on a long-style token \<^verbatim>\<open>--option\<close>: \<^verbatim>\<open>invalid option -- 'option'\<close> with the whole
    text after the dashes, cut to 43 characters, when no entry has the name; for the
    first entry that has it, \<^verbatim>\<open>option takes no arguments -- 'name'\<close> (cut to 32) when
    the token carries \<^verbatim>\<open>=\<close> and the entry takes no argument,
    \<^verbatim>\<open>option requires an argument -- 'name'\<close> (cut to 30) when the entry requires one,
    the token carries none and no token follows, and empty otherwise.
\<close>

theorem C8_error_message_shape:
  "(\<forall>msg \<in> {OPTPARSE_MSG_INVALID, OPTPARSE_MSG_MISSING, OPTPARSE_MSG_TOOMANY}.
      fst (optparse__error options msg data) = c_int_of_char CHR ''?'' \<and>
      errmsg (snd (optparse__error options msg data)) =
        msg @ '' -- '' @ [CHR 0x27] @ take (57 - length msg) data @ [CHR 0x27] \<and>
      (length msg + length data \<le> 57 \<longrightarrow>
        errmsg (snd (optparse__error options msg data)) =
          msg @ '' -- '' @ [CHR 0x27] @ data @ [CHR 0x27]) \<and>
      length (errmsg (snd (optparse__error options msg data))) \<le> 63) \<and>
   (errmsg (snd (optparse s optstring)) = [] \<or>
    (\<exists>msg \<in> {OPTPARSE_MSG_INVALID, OPTPARSE_MSG_MISSING, OPTPARSE_MSG_TOOMANY}. \<exists>name.
       errmsg (snd (optparse s optstring)) =
         msg @ '' -- '' @ [CHR 0x27] @ take (57 - length msg) name @ [CHR 0x27])) \<and>
   (errmsg (fst (snd (optparse_long s longopts longindex))) = errmsg s \<or>
    errmsg (fst (snd (optparse_long s longopts longindex))) = [] \<or>
    (\<exists>msg \<in> {OPTPARSE_MSG_INVALID, OPTPARSE_MSG_MISSING, OPTPARSE_MSG_TOOMANY}. \<exists>name.
       errmsg (fst (snd (optparse_long s longopts longindex))) =
         msg @ '' -- '' @ [CHR 0x27] @ take (57 - length msg) name @ [CHR 0x27])) \<and>
   ((\<forall>t\<in>set sk. optparse_nonoption t) \<and> (sk = [] \<or> permute s \<noteq> 0) \<and>
    drop (optind s) (argv s) = sk @ tok # rest \<and> optparse__is_shortopt (Some tok) \<and>
    subopt s + 1 < length tok \<and> tok ! (subopt s + 1) \<noteq> CHR 0x00 \<longrightarrow>
      errmsg (snd (optparse s optstring)) =
        (if optparse__argtype optstring (tok ! (subopt s + 1)) = - 1 then
           ''invalid option -- '' @ [CHR 0x27, tok ! (subopt s + 1), CHR 0x27]
         else if optparse__argtype optstring (tok ! (subopt s + 1)) = 1 \<and>
                 subopt s + 2 = length tok \<and> rest = [] then
           ''option requires an argument -- '' @ [CHR 0x27, tok ! (subopt s + 1), CHR 0x27]
         else [])) \<and>
   ((\<forall>t\<in>set sk. optparse_long_nonoption t) \<and> (sk = [] \<or> permute s \<noteq> 0) \<and>
    drop (optind s) (argv s) = sk @ tok # rest \<and> optparse__is_shortopt (Some tok) \<and>
    subopt s + 1 < length tok \<and> tok ! (subopt s + 1) \<noteq> CHR 0x00 \<longrightarrow>
      errmsg (fst (snd (optparse_long s longopts longindex))) =
        (if optparse__argtype (optparse__from_long longopts) (tok ! (subopt s + 1)) = - 1 then
           ''invalid option -- '' @ [CHR 0x27, tok ! (subopt s + 1), CHR 0x27]
         else if optparse__argtype (optparse__from_long longopts) (tok ! (subopt s + 1)) = 1 \<and>
                 subopt s + 2 = length tok \<and> rest = [] then
           ''option requires an argument -- '' @ [CHR 0x27, tok ! (subopt s + 1), CHR 0x27]
         else [])) \<and>
   ((\<forall>t\<in>set sk. optparse_long_nonoption t) \<and> (sk = [] \<or> permute s \<noteq> 0) \<and>
    drop (optind s) (argv s) = sk @ (CHR ''-'' # CHR ''-'' # option) # rest \<and>
    option \<noteq> [] \<longrightarrow>
      ((\<forall>j. (\<forall>k\<le>j. \<not> optparse_longopts_end longopts k) \<longrightarrow>
            longname (longopts ! j) \<noteq> Some (takeWhile (\<lambda>c. c \<noteq> CHR ''='') option)) \<longrightarrow>
         errmsg (fst (snd (optparse_long s longopts longindex))) =
           ''invalid option -- '' @ [CHR 0x27] @ take 43 option @ [CHR 0x27]) \<and>
      ((\<forall>j\<le>i. \<not> optparse_longopts_end longopts j) \<and>
       longname (longopts ! i) = Some (takeWhile (\<lambda>c. c \<noteq> CHR ''='') option) \<and>
       (\<forall>j<i. longname (longopts ! j) \<noteq> Some (takeWhile (\<lambda>c. c \<noteq> CHR ''='') option)) \<longrightarrow>
         errmsg (fst (snd (optparse_long s longopts longindex))) =
           (if CHR ''='' \<in> set option \<and> argtype (longopts ! i) = OPTPARSE_NONE then
              ''option takes no arguments -- '' @ [CHR 0x27] @
                take 32 (takeWhile (\<lambda>c. c \<noteq> CHR ''='') option) @ [CHR 0x27]
            else if CHR ''='' \<notin> set option \<and> argtype (longopts ! i) = OPTPARSE_REQUIRED \<and>
                    rest = [] then
              ''option requires an argument -- '' @ [CHR 0x27] @
                take 30 (takeWhile (\<lambda>c. c \<noteq> CHR ''='') option) @ [CHR 0x27]
            else [])))"
proof -
  have len: "length msg \<le> 57"
    if "msg \<in> {OPTPARSE_MSG_INVALID, OPTPARSE_MSG_MISSING, OPTPARSE_MSG_TOOMANY}" for msg
    using that
    by (auto simp: OPTPARSE_MSG_INVALID_def OPTPARSE_MSG_MISSING_def OPTPARSE_MSG_TOOMANY_def)
  have 1: "\<forall>msg \<in> {OPTPARSE_MSG_INVALID, OPTPARSE_MSG_MISSING, OPTPARSE_MSG_TOOMANY}.
      fst (optparse__error options msg data) = c_int_of_char CHR ''?'' \<and>
      errmsg (snd (optparse__error options msg data)) =
        msg @ '' -- '' @ [CHR 0x27] @ take (57 - length msg) data @ [CHR 0x27] \<and>
      (length msg + length data \<le> 57 \<longrightarrow>
        errmsg (snd (optparse__error options msg data)) =
          msg @ '' -- '' @ [CHR 0x27] @ data @ [CHR 0x27]) \<and>
      length (errmsg (snd (optparse__error options msg data))) \<le> 63"
  proof
    fix msg
    assume m: "msg \<in> {OPTPARSE_MSG_INVALID, OPTPARSE_MSG_MISSING, OPTPARSE_MSG_TOOMANY}"
    show "fst (optparse__error options msg data) = c_int_of_char CHR ''?'' \<and>
      errmsg (snd (optparse__error options msg data)) =
        msg @ '' -- '' @ [CHR 0x27] @ take (57 - length msg) data @ [CHR 0x27] \<and>
      (length msg + length data \<le> 57 \<longrightarrow>
        errmsg (snd (optparse__error options msg data)) =
          msg @ '' -- '' @ [CHR 0x27] @ data @ [CHR 0x27]) \<and>
      length (errmsg (snd (optparse__error options msg data))) \<le> 63"
      using len [OF m] by (simp add: optparse__error_eq c_int_of_char_def)
  qed
  have 2: "errmsg (snd (optparse s optstring)) = [] \<or>
    (\<exists>msg \<in> {OPTPARSE_MSG_INVALID, OPTPARSE_MSG_MISSING, OPTPARSE_MSG_TOOMANY}. \<exists>name.
       errmsg (snd (optparse s optstring)) =
         msg @ '' -- '' @ [CHR 0x27] @ take (57 - length msg) name @ [CHR 0x27])"
    using optparse_errmsg_shape [of s optstring] by blast
  have 3: "errmsg (fst (snd (optparse_long s longopts longindex))) = errmsg s \<or>
    errmsg (fst (snd (optparse_long s longopts longindex))) = [] \<or>
    (\<exists>msg \<in> {OPTPARSE_MSG_INVALID, OPTPARSE_MSG_MISSING, OPTPARSE_MSG_TOOMANY}. \<exists>name.
       errmsg (fst (snd (optparse_long s longopts longindex))) =
         msg @ '' -- '' @ [CHR 0x27] @ take (57 - length msg) name @ [CHR 0x27])"
    using optparse_long_errmsg_shape [of s longopts longindex] by blast
  show ?thesis
    apply (intro conjI)
    subgoal by (rule 1)
    subgoal by (rule 2)
    subgoal by (rule 3)
    subgoal by (intro impI, elim conjE) (rule optparse_landing_errmsg)
    subgoal by (intro impI, elim conjE) (rule optparse_long_landing_cluster_errmsg)
    subgoal
      by (intro impI conjI; elim conjE)
        (rule optparse_long_landing_errmsg; blast)+
    done
qed

text \<open>
  The message for the unknown flag \<^verbatim>\<open>z\<close>, and a name of 40 characters cut to 32 by
  \<^verbatim>\<open>option takes no arguments\<close>, which fills the buffer. Then calls that step over
  \<^verbatim>\<open>file\<close> first: \<^verbatim>\<open>optparse\<close> on \<^verbatim>\<open>-z\<close> with the option string \<^verbatim>\<open>ab\<close>, and
  \<^verbatim>\<open>optparse_long\<close>, against a table with \<^verbatim>\<open>amend\<close> (\<^verbatim>\<open>'a'\<close>, no argument) and
  \<^verbatim>\<open>delay\<close> (\<^verbatim>\<open>'d'\<close>, required argument), on \<^verbatim>\<open>-d\<close>, \<^verbatim>\<open>--amend=yes\<close>, \<^verbatim>\<open>--delay\<close> and
  \<^verbatim>\<open>--foo=bar\<close>.
\<close>

theorem C8_error_message_shape_witness:
  "OPTPARSE_MSG_INVALID \<in> {OPTPARSE_MSG_INVALID, OPTPARSE_MSG_MISSING, OPTPARSE_MSG_TOOMANY} \<and>
   errmsg (snd (optparse__error
     \<lparr>argv = [''prog'', ''-z''], permute = 1, optind = 2, optopt = 122, optarg = None,
      errmsg = [], subopt = 0\<rparr> OPTPARSE_MSG_INVALID ''z'')) =
     ''invalid option -- '' @ [CHR 0x27] @ ''z'' @ [CHR 0x27] \<and>
   errmsg (snd (optparse__error
     \<lparr>argv = [''prog'', ''-z''], permute = 1, optind = 2, optopt = 122, optarg = None,
      errmsg = [], subopt = 0\<rparr> OPTPARSE_MSG_TOOMANY (replicate 40 CHR ''n''))) =
     ''option takes no arguments -- '' @ [CHR 0x27] @ replicate 32 CHR ''n'' @ [CHR 0x27] \<and>
   length (errmsg (snd (optparse__error
     \<lparr>argv = [''prog'', ''-z''], permute = 1, optind = 2, optopt = 122, optarg = None,
      errmsg = [], subopt = 0\<rparr> OPTPARSE_MSG_TOOMANY (replicate 40 CHR ''n'')))) = 63 \<and>
   optparse_nonoption ''file'' \<and> optparse__is_shortopt (Some ''-z'') \<and>
   errmsg (snd (optparse
     \<lparr>argv = [''prog'', ''file'', ''-z''], permute = 1, optind = 1, optopt = 0, optarg = None,
      errmsg = [], subopt = 0\<rparr> ''ab'')) =
     ''invalid option -- '' @ [CHR 0x27] @ ''z'' @ [CHR 0x27] \<and>
   errmsg (fst (snd (optparse_long
     \<lparr>argv = [''prog'', ''file'', ''-d''], permute = 1, optind = 1, optopt = 0, optarg = None,
      errmsg = [], subopt = 0\<rparr>
     [\<lparr>longname = Some ''amend'', shortname = 97, argtype = OPTPARSE_NONE\<rparr>,
      \<lparr>longname = Some ''delay'', shortname = 100, argtype = OPTPARSE_REQUIRED\<rparr>] None))) =
     ''option requires an argument -- '' @ [CHR 0x27] @ ''d'' @ [CHR 0x27] \<and>
   errmsg (fst (snd (optparse_long
     \<lparr>argv = [''prog'', ''file'', ''--amend=yes''], permute = 1, optind = 1, optopt = 0,
      optarg = None, errmsg = [], subopt = 0\<rparr>
     [\<lparr>longname = Some ''amend'', shortname = 97, argtype = OPTPARSE_NONE\<rparr>,
      \<lparr>longname = Some ''delay'', shortname = 100, argtype = OPTPARSE_REQUIRED\<rparr>] None))) =
     ''option takes no arguments -- '' @ [CHR 0x27] @ ''amend'' @ [CHR 0x27] \<and>
   errmsg (fst (snd (optparse_long
     \<lparr>argv = [''prog'', ''file'', ''--delay''], permute = 1, optind = 1, optopt = 0,
      optarg = None, errmsg = [], subopt = 0\<rparr>
     [\<lparr>longname = Some ''amend'', shortname = 97, argtype = OPTPARSE_NONE\<rparr>,
      \<lparr>longname = Some ''delay'', shortname = 100, argtype = OPTPARSE_REQUIRED\<rparr>] None))) =
     ''option requires an argument -- '' @ [CHR 0x27] @ ''delay'' @ [CHR 0x27] \<and>
   errmsg (fst (snd (optparse_long
     \<lparr>argv = [''prog'', ''file'', ''--foo=bar''], permute = 1, optind = 1, optopt = 0,
      optarg = None, errmsg = [], subopt = 0\<rparr>
     [\<lparr>longname = Some ''amend'', shortname = 97, argtype = OPTPARSE_NONE\<rparr>,
      \<lparr>longname = Some ''delay'', shortname = 100, argtype = OPTPARSE_REQUIRED\<rparr>] None))) =
     ''invalid option -- '' @ [CHR 0x27] @ ''foo=bar'' @ [CHR 0x27]"
proof -
  define o1 where "o1 = \<lparr>argv = [''prog'', ''-z''], permute = 1, optind = 2, optopt = 122,
    optarg = None, errmsg = [], subopt = 0\<rparr>"
  define st where "st last = \<lparr>argv = [''prog'', ''file'', last], permute = 1, optind = 1,
    optopt = 0, optarg = None, errmsg = [], subopt = 0\<rparr>" for last :: string
  define longopts where "longopts =
    [\<lparr>longname = Some ''amend'', shortname = 97, argtype = OPTPARSE_NONE\<rparr>,
     \<lparr>longname = Some ''delay'', shortname = 100, argtype = OPTPARSE_REQUIRED\<rparr>]"
  have m: "OPTPARSE_MSG_INVALID \<in>
      {OPTPARSE_MSG_INVALID, OPTPARSE_MSG_MISSING, OPTPARSE_MSG_TOOMANY}"
    "OPTPARSE_MSG_TOOMANY \<in>
      {OPTPARSE_MSG_INVALID, OPTPARSE_MSG_MISSING, OPTPARSE_MSG_TOOMANY}"
    by simp_all
  have a: "errmsg (snd (optparse__error o1 OPTPARSE_MSG_INVALID ''z'')) =
      OPTPARSE_MSG_INVALID @ '' -- '' @ [CHR 0x27] @
        take (57 - length OPTPARSE_MSG_INVALID) ''z'' @ [CHR 0x27]"
    using C8_error_message_shape
      [where options = o1 and data = "''z''" and s = o1 and optstring = "[]" and
        longopts = "[]" and longindex = None and sk = "[]" and tok = "[]" and rest = "[]" and
        option = "[]" and i = 0, THEN conjunct1] m(1)
    by blast
  have b: "errmsg (snd (optparse__error o1 OPTPARSE_MSG_TOOMANY (replicate 40 CHR ''n''))) =
      OPTPARSE_MSG_TOOMANY @ '' -- '' @ [CHR 0x27] @
        take (57 - length OPTPARSE_MSG_TOOMANY) (replicate 40 CHR ''n'') @ [CHR 0x27]"
    using C8_error_message_shape
      [where options = o1 and data = "replicate 40 CHR ''n''" and s = o1 and
        optstring = "[]" and longopts = "[]" and longindex = None and sk = "[]" and
        tok = "[]" and rest = "[]" and option = "[]" and i = 0, THEN conjunct1]
      m(2)
    by blast
  have n: "\<forall>t\<in>set [''file'']. optparse_nonoption t"
      "\<forall>t\<in>set [''file'']. optparse_long_nonoption t"
    by (simp_all add: optparse_nonoption_def optparse_long_nonoption_def)
  have z: "optparse__is_shortopt (Some ''-z'')" "optparse__is_shortopt (Some ''-d'')"
    by simp_all
  have d: "drop (optind (st last)) (argv (st last)) = [''file''] @ last # []"
      "permute (st last) \<noteq> 0" "subopt (st last) = 0" for last
    by (simp_all add: st_def)
  have os: "optparse__from_long longopts = ''ad:''"
    by (simp add: optparse__from_long_def optparse__from_long_loop.simps
        optparse_longopts_end_def longopts_def) code_simp
  have c: "errmsg (snd (optparse (st ''-z'') ''ab'')) =
      ''invalid option -- '' @ [CHR 0x27] @ ''z'' @ [CHR 0x27]"
    using C8_error_message_shape
      [where options = o1 and data = "[]" and s = "st ''-z''" and optstring = "''ab''" and
        longopts = "[]" and longindex = None and sk = "[''file'']" and tok = "''-z''" and
        rest = "[]" and option = "[]" and i = 0,
        THEN conjunct2, THEN conjunct2, THEN conjunct2, THEN conjunct1] n(1) z(1) d
    by (simp add: optparse__argtype_def)
  have e: "errmsg (fst (snd (optparse_long (st ''-d'') longopts None))) =
      ''option requires an argument -- '' @ [CHR 0x27] @ ''d'' @ [CHR 0x27]"
    using C8_error_message_shape
      [where options = o1 and data = "[]" and s = "st ''-d''" and optstring = "[]" and
        longopts = longopts and longindex = None and sk = "[''file'']" and tok = "''-d''" and
        rest = "[]" and option = "[]" and i = 0,
        THEN conjunct2, THEN conjunct2, THEN conjunct2, THEN conjunct2, THEN conjunct1]
      n(2) z(2) d
    by (simp add: os optparse__argtype_def)
  have live: "\<forall>j\<le>i. \<not> optparse_longopts_end longopts j" if "i \<le> 1" for i
    using that by (auto simp: le_Suc_eq optparse_longopts_end_def longopts_def)
  have dead: "optparse_longopts_end longopts 2"
    by (simp add: optparse_longopts_end_def longopts_def)
  have none: "\<forall>j. (\<forall>k\<le>j. \<not> optparse_longopts_end longopts k) \<longrightarrow>
      longname (longopts ! j) \<noteq> Some (takeWhile (\<lambda>c. c \<noteq> CHR ''='') ''foo=bar'')"
  proof (intro allI impI)
    fix j assume l: "\<forall>k\<le>j. \<not> optparse_longopts_end longopts k"
    have "j < 2"
    proof (rule ccontr)
      assume "\<not> j < 2"
      then have "2 \<le> j" by simp
      with l dead show False by blast
    qed
    then have "j = 0 \<or> j = 1" by auto
    then show "longname (longopts ! j) \<noteq> Some (takeWhile (\<lambda>c. c \<noteq> CHR ''='') ''foo=bar'')"
      by (auto simp: longopts_def)
  qed
  have f: "errmsg (fst (snd (optparse_long (st ''--amend=yes'') longopts None))) =
      ''option takes no arguments -- '' @ [CHR 0x27] @ ''amend'' @ [CHR 0x27]"
    using C8_error_message_shape
      [where options = o1 and data = "[]" and optstring = "[]" and tok = "[]" and
        sk = "[''file'']" and s = "st ''--amend=yes''" and option = "''amend=yes''" and
        rest = "[]" and longopts = longopts and i = 0 and longindex = None,
        THEN conjunct2, THEN conjunct2, THEN conjunct2, THEN conjunct2, THEN conjunct2,
        THEN mp,
        THEN conjunct2] n(2) d live [of 0]
    by (simp add: longopts_def)
  have g: "errmsg (fst (snd (optparse_long (st ''--delay'') longopts None))) =
      ''option requires an argument -- '' @ [CHR 0x27] @ ''delay'' @ [CHR 0x27]"
    using C8_error_message_shape
      [where options = o1 and data = "[]" and optstring = "[]" and tok = "[]" and
        sk = "[''file'']" and s = "st ''--delay''" and option = "''delay''" and
        rest = "[]" and longopts = longopts and i = 1 and longindex = None,
        THEN conjunct2, THEN conjunct2, THEN conjunct2, THEN conjunct2, THEN conjunct2,
        THEN mp,
        THEN conjunct2] n(2) d live [of 1]
    by (simp add: longopts_def)
  have h: "errmsg (fst (snd (optparse_long (st ''--foo=bar'') longopts None))) =
      ''invalid option -- '' @ [CHR 0x27] @ ''foo=bar'' @ [CHR 0x27]"
    using C8_error_message_shape
      [where options = o1 and data = "[]" and optstring = "[]" and tok = "[]" and
        sk = "[''file'']" and s = "st ''--foo=bar''" and option = "''foo=bar''" and
        rest = "[]" and longopts = longopts and i = 0 and longindex = None,
        THEN conjunct2, THEN conjunct2, THEN conjunct2, THEN conjunct2, THEN conjunct2,
        THEN mp,
        THEN conjunct1, THEN mp, OF _ none] n(2) d
    by simp
  show ?thesis
    unfolding o1_def [symmetric] st_def [symmetric] longopts_def [symmetric] a b c e f g h
    using n(1) z(1)
    by (simp add: OPTPARSE_MSG_INVALID_def OPTPARSE_MSG_TOOMANY_def)
qed

text \<open>
  C5. The token at the cursor is long-style: two dashes and then \<open>option\<close>, which is not
  empty. \<^verbatim>\<open>optparse__longopts_match\<close> accepts a name exactly when the name is the
  characters of \<open>option\<close> before its first \<^verbatim>\<open>=\<close> (all of \<open>option\<close> when it has none).
  \<^verbatim>\<open>optparse_long\<close> takes the first entry of the table, before the terminator, that has
  this name: it runs the loop body for that entry, so the slot receives its index and
  \<^verbatim>\<open>optopt\<close> its short name. The result of the call, by the kind of that entry:
  \<^item> the token carries \<^verbatim>\<open>=\<close>: the text after the first \<^verbatim>\<open>=\<close> is the argument and the
    cursor advances by one; for an entry that takes no argument the call is the
    too-many-arguments error instead;
  \<^item> the token carries no \<^verbatim>\<open>=\<close> and the entry requires an argument: the next token is
    the argument and the cursor advances by two, or, when no token follows, the call is
    the missing-argument error;
  \<^item> the token carries no \<^verbatim>\<open>=\<close> and the entry takes an optional argument or none: the
    argument is \<^verbatim>\<open>NULL\<close> and the cursor advances by one.

  When no entry before the terminator has the name, the call is the invalid-option
  error. Against a table that holds \<^verbatim>\<open>color\<close> with an optional argument, the call on
  \<^verbatim>\<open>--color=red\<close> returns the short name with the argument \<^verbatim>\<open>red\<close>, the call on
  \<^verbatim>\<open>--color\<close> returns it with the argument \<^verbatim>\<open>NULL\<close>, and the call on \<^verbatim>\<open>--colorful\<close> is
  the invalid-option error.
\<close>

theorem C5_long_match:
  assumes tok: "argv_at (argv s) (optind s) = Some (CHR ''-'' # CHR ''-'' # option)"
    and ne: "option \<noteq> []"
  shows "(optparse__longopts_match nm option \<longleftrightarrow>
            nm = Some (takeWhile (\<lambda>c. c \<noteq> CHR ''='') option)) \<and>
         ((\<forall>j\<le>i. \<not> optparse_longopts_end longopts j) \<and>
          longname (longopts ! i) = Some (takeWhile (\<lambda>c. c \<noteq> CHR ''='') option) \<and>
          (\<forall>j<i. longname (longopts ! j) \<noteq> Some (takeWhile (\<lambda>c. c \<noteq> CHR ''='') option)) \<longrightarrow>
          optparse_long s longopts longindex =
            optparse_long_found
              (s\<lparr>errmsg := [], optopt := 0, optarg := None, optind := optind s + 1\<rparr>)
              longopts longindex option i \<and>
          snd (snd (optparse_long s longopts longindex)) = map_option (\<lambda>_. int i) longindex \<and>
          optopt (fst (snd (optparse_long s longopts longindex))) = shortname (longopts ! i) \<and>
          optparse_long s longopts longindex =
            (if CHR ''='' \<in> set option then
               if argtype (longopts ! i) = OPTPARSE_NONE then
                 (c_int_of_char CHR ''?'',
                  s\<lparr>errmsg := ''option takes no arguments -- '' @ [CHR 0x27] @
                       take 32 (takeWhile (\<lambda>c. c \<noteq> CHR ''='') option) @ [CHR 0x27],
                    optopt := shortname (longopts ! i), optarg := None,
                    optind := optind s + 1\<rparr>,
                  map_option (\<lambda>_. int i) longindex)
               else
                 (shortname (longopts ! i),
                  s\<lparr>errmsg := [], optopt := shortname (longopts ! i),
                    optarg := Some (drop 1 (dropWhile (\<lambda>c. c \<noteq> CHR ''='') option)),
                    optind := optind s + 1\<rparr>,
                  map_option (\<lambda>_. int i) longindex)
             else if argtype (longopts ! i) = OPTPARSE_REQUIRED then
               (case argv_at (argv s) (optind s + 1) of
                  None \<Rightarrow>
                    (c_int_of_char CHR ''?'',
                     s\<lparr>errmsg := ''option requires an argument -- '' @ [CHR 0x27] @
                          take 30 option @ [CHR 0x27],
                       optopt := shortname (longopts ! i), optarg := None,
                       optind := optind s + 1\<rparr>,
                     map_option (\<lambda>_. int i) longindex)
                | Some following \<Rightarrow>
                    (shortname (longopts ! i),
                     s\<lparr>errmsg := [], optopt := shortname (longopts ! i),
                       optarg := Some following, optind := optind s + 2\<rparr>,
                     map_option (\<lambda>_. int i) longindex))
             else
               (shortname (longopts ! i),
                s\<lparr>errmsg := [], optopt := shortname (longopts ! i), optarg := None,
                  optind := optind s + 1\<rparr>,
                map_option (\<lambda>_. int i) longindex))) \<and>
         ((\<forall>j. (\<forall>k\<le>j. \<not> optparse_longopts_end longopts k) \<longrightarrow>
               longname (longopts ! j) \<noteq> Some (takeWhile (\<lambda>c. c \<noteq> CHR ''='') option)) \<longrightarrow>
          optparse_long s longopts longindex =
            (c_int_of_char CHR ''?'',
             s\<lparr>errmsg := ''invalid option -- '' @ [CHR 0x27] @ take 43 option @ [CHR 0x27],
               optopt := 0, optarg := None, optind := optind s + 1\<rparr>,
             longindex)) \<and>
         (optparse__longopts_match (Some ''color'') ''color=red'' \<and>
          optparse__longopts_arg ''color=red'' = Some ''red'' \<and>
          optparse__longopts_match (Some ''color'') ''color'' \<and>
          optparse__longopts_arg ''color'' = None \<and>
          \<not> optparse__longopts_match (Some ''color'') ''colorful'') \<and>
         (option = ''color=red'' \<longrightarrow>
            optparse_long s
              [\<lparr>longname = Some ''color'', shortname = c, argtype = OPTPARSE_OPTIONAL\<rparr>]
              longindex =
            (c, s\<lparr>errmsg := [], optopt := c, optarg := Some ''red'', optind := optind s + 1\<rparr>,
             map_option (\<lambda>_. 0) longindex)) \<and>
         (option = ''color'' \<longrightarrow>
            optparse_long s
              [\<lparr>longname = Some ''color'', shortname = c, argtype = OPTPARSE_OPTIONAL\<rparr>]
              longindex =
            (c, s\<lparr>errmsg := [], optopt := c, optarg := None, optind := optind s + 1\<rparr>,
             map_option (\<lambda>_. 0) longindex)) \<and>
         (option = ''colorful'' \<longrightarrow>
            optparse_long s
              [\<lparr>longname = Some ''color'', shortname = c, argtype = OPTPARSE_OPTIONAL\<rparr>]
              longindex =
            (c_int_of_char CHR ''?'',
             s\<lparr>errmsg := ''invalid option -- '' @ [CHR 0x27] @ ''colorful'' @ [CHR 0x27],
               optopt := 0, optarg := None, optind := optind s + 1\<rparr>,
             longindex))"
proof -
  let ?name = "takeWhile (\<lambda>c. c \<noteq> CHR ''='') option"
  let ?color = "[\<lparr>longname = Some ''color'', shortname = c, argtype = OPTPARSE_OPTIONAL\<rparr>]"
  note first = optparse_long_first [OF tok ne]
  note kind = optparse_long_match_result [OF tok ne]
  note none = optparse_long_nomatch [OF tok ne]
  have live: "\<forall>j\<le>0. \<not> optparse_longopts_end ?color j"
    by (simp add: optparse_longopts_end_def)
  have ex1: "optparse_long s ?color longindex =
      (c, s\<lparr>errmsg := [], optopt := c, optarg := Some ''red'', optind := optind s + 1\<rparr>,
       map_option (\<lambda>_. 0) longindex)" if "option = ''color=red''"
    using kind [of 0 ?color longindex] live that by simp
  have ex2: "optparse_long s ?color longindex =
      (c, s\<lparr>errmsg := [], optopt := c, optarg := None, optind := optind s + 1\<rparr>,
       map_option (\<lambda>_. 0) longindex)" if "option = ''color''"
    using kind [of 0 ?color longindex] live that by simp
  have ex3: "optparse_long s ?color longindex =
      (c_int_of_char CHR ''?'',
       s\<lparr>errmsg := ''invalid option -- '' @ [CHR 0x27] @ ''colorful'' @ [CHR 0x27],
         optopt := 0, optarg := None, optind := optind s + 1\<rparr>,
       longindex)" if o: "option = ''colorful''"
  proof -
    have "longname (?color ! j) \<noteq> Some ?name"
      if a: "\<forall>k\<le>j. \<not> optparse_longopts_end ?color k" for j
    proof -
      have "j = 0"
      proof (rule ccontr)
        assume "j \<noteq> 0"
        then have "1 \<le> j" by simp
        with a have "\<not> optparse_longopts_end ?color 1" by blast
        then show False by (simp add: optparse_longopts_end_def)
      qed
      then show ?thesis
        by (simp add: o)
    qed
    then have "\<forall>j. (\<forall>k\<le>j. \<not> optparse_longopts_end ?color k) \<longrightarrow>
        longname (?color ! j) \<noteq> Some ?name"
      by blast
    from none [OF this, of longindex] show ?thesis
      by (simp add: o)
  qed
  have ex: "optparse__longopts_match (Some ''color'') ''color=red'' \<and>
          optparse__longopts_arg ''color=red'' = Some ''red'' \<and>
          optparse__longopts_match (Some ''color'') ''color'' \<and>
          optparse__longopts_arg ''color'' = None \<and>
          \<not> optparse__longopts_match (Some ''color'') ''colorful''"
    by (simp add: optparse__longopts_match_def)
  have m: "optparse__longopts_match nm option \<longleftrightarrow> nm = Some ?name"
    by (rule longopts_match_iff)
  have two: "(\<forall>j\<le>i. \<not> optparse_longopts_end longopts j) \<and>
      longname (longopts ! i) = Some ?name \<and>
      (\<forall>j<i. longname (longopts ! j) \<noteq> Some ?name) \<longrightarrow>
      optparse_long s longopts longindex =
        optparse_long_found
          (s\<lparr>errmsg := [], optopt := 0, optarg := None, optind := optind s + 1\<rparr>)
          longopts longindex option i \<and>
      snd (snd (optparse_long s longopts longindex)) = map_option (\<lambda>_. int i) longindex \<and>
      optopt (fst (snd (optparse_long s longopts longindex))) = shortname (longopts ! i)"
    using first [of i longopts longindex] by (simp add: optparse_long_found_slot)
  show ?thesis
    apply (intro conjI impI)
    subgoal by (rule m)
    subgoal using two by blast
    subgoal using two by blast
    subgoal using two by blast
    subgoal by (rule kind) blast+
    subgoal by (rule none) blast
    subgoal using ex by blast
    subgoal using ex by blast
    subgoal using ex by blast
    subgoal using ex by blast
    subgoal using ex by blast
    subgoal by (rule ex1)
    subgoal by (rule ex2)
    subgoal by (rule ex3)
    done
qed

text \<open>
  The tokens \<^verbatim>\<open>--color=red\<close>, \<^verbatim>\<open>--color\<close>, \<^verbatim>\<open>--colorful\<close> and a table with the entries
  \<^verbatim>\<open>colorful\<close>, \<^verbatim>\<open>color\<close> and \<^verbatim>\<open>color\<close> again, the last two with an optional argument:
  the first call selects entry 1 with the argument \<^verbatim>\<open>red\<close>; the second selects entry 1
  with no argument and leaves \<^verbatim>\<open>--colorful\<close> at the cursor; against a table that holds
  \<^verbatim>\<open>color\<close> alone, the third call is the invalid-option error and the slot keeps its
  value.
\<close>

theorem C5_long_match_witness:
  "(let s = \<lparr>argv = [''prog'', ''--color=red'', ''--color'', ''--colorful''], permute = 1,
              optind = 1, optopt = 0, optarg = None, errmsg = [], subopt = 0\<rparr>;
        color = \<lparr>longname = Some ''color'', shortname = 99, argtype = OPTPARSE_OPTIONAL\<rparr>;
        longopts = [\<lparr>longname = Some ''colorful'', shortname = 0, argtype = OPTPARSE_NONE\<rparr>,
                    color, color\<lparr>shortname := 100\<rparr>];
        (r1, s1, i1) = optparse_long s longopts (Some 99);
        (r2, s2, i2) = optparse_long s1 longopts (Some 99);
        (r3, s3, i3) = optparse_long s2 [color] (Some 99)
    in argv_at (argv s) (optind s) = Some (CHR ''-'' # CHR ''-'' # ''color=red'') \<and>
       r1 = c_int_of_char CHR ''c'' \<and> optarg s1 = Some ''red'' \<and> optind s1 = 2 \<and>
       i1 = Some 1 \<and>
       argv_at (argv s1) (optind s1) = Some (CHR ''-'' # CHR ''-'' # ''color'') \<and>
       r2 = c_int_of_char CHR ''c'' \<and> optarg s2 = None \<and> optind s2 = 3 \<and> i2 = Some 1 \<and>
       argv_at (argv s2) (optind s2) = Some (CHR ''-'' # CHR ''-'' # ''colorful'') \<and>
       r3 = c_int_of_char CHR ''?'' \<and> i3 = Some 99 \<and>
       errmsg s3 = ''invalid option -- '' @ [CHR 0x27] @ ''colorful'' @ [CHR 0x27])"
proof -
  define s where "s = \<lparr>argv = [''prog'', ''--color=red'', ''--color'', ''--colorful''],
    permute = 1, optind = 1, optopt = 0, optarg = None, errmsg = [], subopt = 0\<rparr>"
  define color where
    "color = \<lparr>longname = Some ''color'', shortname = 99, argtype = OPTPARSE_OPTIONAL\<rparr>"
  define longopts where
    "longopts = [\<lparr>longname = Some ''colorful'', shortname = 0, argtype = OPTPARSE_NONE\<rparr>,
                 color, color\<lparr>shortname := 100\<rparr>]"
  define s1 where "s1 = s\<lparr>optopt := 99, optarg := Some ''red'', optind := 2\<rparr>"
  define s2 where "s2 = s\<lparr>optopt := 99, optarg := None, optind := 3\<rparr>"
  have t1: "argv_at (argv s) (optind s) = Some (CHR ''-'' # CHR ''-'' # ''color=red'')"
    by (simp add: s_def argv_at_def)
  have t2: "argv_at (argv s1) (optind s1) = Some (CHR ''-'' # CHR ''-'' # ''color'')"
    by (simp add: s1_def s_def argv_at_def)
  have t3: "argv_at (argv s2) (optind s2) = Some (CHR ''-'' # CHR ''-'' # ''colorful'')"
    by (simp add: s2_def s_def argv_at_def)
  have live: "\<forall>j\<le>1. \<not> optparse_longopts_end longopts j"
    by (simp add: le_Suc_eq optparse_longopts_end_def longopts_def color_def)
  have r1: "optparse_long s longopts (Some 99) = (99, s1, Some 1)"
    using C5_long_match [where s = s and option = "''color=red''" and nm = None and i = 1
        and longopts = longopts and longindex = "Some 99" and c = 0, OF t1 _,
        THEN conjunct2, THEN conjunct1, THEN mp, THEN conjunct2, THEN conjunct2,
        THEN conjunct2] live
    by (simp add: longopts_def color_def s_def s1_def)
  have r2: "optparse_long s1 longopts (Some 99) = (99, s2, Some 1)"
    using C5_long_match [where s = s1 and option = "''color''" and nm = None and i = 1
        and longopts = longopts and longindex = "Some 99" and c = 0, OF t2 _,
        THEN conjunct2, THEN conjunct1, THEN mp, THEN conjunct2, THEN conjunct2,
        THEN conjunct2] live
    by (simp add: longopts_def color_def s_def s1_def s2_def)
  have r3: "optparse_long s2 [color] (Some 99) =
      (c_int_of_char CHR ''?'',
       s2\<lparr>errmsg := ''invalid option -- '' @ [CHR 0x27] @ ''colorful'' @ [CHR 0x27],
          optopt := 0, optarg := None, optind := optind s2 + 1\<rparr>, Some 99)"
    using C5_long_match [where s = s2 and option = "''colorful''" and nm = None and i = 0
        and longopts = "[]" and longindex = "Some 99" and c = 99, OF t3 _,
        THEN conjunct2, THEN conjunct2, THEN conjunct2, THEN conjunct2, THEN conjunct2,
        THEN conjunct2, THEN mp]
    by (simp add: color_def)
  show ?thesis
    unfolding Let_def s_def [symmetric] color_def [symmetric] longopts_def [symmetric]
      r1 r2 r3 prod.case
    using t1 t2 t3 by (simp add: s1_def s2_def c_int_of_char_def)
qed

text \<open>
  C10. \<^verbatim>\<open>optparse_long\<close> with a slot that holds \<open>v\<close>. The slot still holds \<open>v\<close> after
  the call when the token at the cursor is absent, is \<^verbatim>\<open>--\<close>, is a non-option while
  \<^verbatim>\<open>permute\<close> is 0, or is long-style and matches no entry before the terminator (the
  call is then the invalid-option error). Whenever the slot holds another value after
  the call, the first token from the cursor on that is not a non-option (the token at
  the cursor itself when \<^verbatim>\<open>permute\<close> is 0) is a short-option cluster, or a long-style
  token that matches an entry before the terminator. As \<open>v\<close> is arbitrary, a call
  outside these two cases does not write the slot.
\<close>

theorem C10_longindex_frame:
  "(argv_at (argv s) (optind s) = None \<longrightarrow>
      optparse_long s longopts (Some v) = (- 1, s, Some v)) \<and>
   (argv_at (argv s) (optind s) = Some ''--'' \<longrightarrow>
      optparse_long s longopts (Some v) = (- 1, s\<lparr>optind := optind s + 1\<rparr>, Some v)) \<and>
   (argv_at (argv s) (optind s) = Some tok \<and> tok \<noteq> ''--'' \<and>
    \<not> optparse__is_shortopt (Some tok) \<and> \<not> optparse__is_longopt (Some tok) \<and>
    permute s = 0 \<longrightarrow>
      optparse_long s longopts (Some v) = (- 1, s, Some v)) \<and>
   (argv_at (argv s) (optind s) = Some tok \<and> optparse__is_longopt (Some tok) \<and>
    (\<forall>j. (\<forall>k\<le>j. \<not> optparse_longopts_end longopts k) \<longrightarrow>
       \<not> optparse__longopts_match (longname (longopts ! j)) (drop 2 tok)) \<longrightarrow>
      optparse_long s longopts (Some v) =
        (c_int_of_char CHR ''?'',
         s\<lparr>errmsg := ''invalid option -- '' @ [CHR 0x27] @ take 43 (drop 2 tok) @ [CHR 0x27],
           optopt := 0, optarg := None, optind := optind s + 1\<rparr>,
         Some v)) \<and>
   (snd (snd (optparse_long s longopts (Some v))) \<noteq> Some v \<longrightarrow>
      (\<exists>i\<ge>optind s. i < length (argv s) \<and>
         (\<forall>j. optind s \<le> j \<and> j < i \<longrightarrow>
            argv s ! j \<noteq> ''--'' \<and> \<not> optparse__is_shortopt (Some (argv s ! j)) \<and>
            \<not> optparse__is_longopt (Some (argv s ! j))) \<and>
         (i = optind s \<or> permute s \<noteq> 0) \<and>
         (optparse__is_shortopt (Some (argv s ! i)) \<or>
          optparse__is_longopt (Some (argv s ! i)) \<and>
          (\<exists>n. (\<forall>k\<le>n. \<not> optparse_longopts_end longopts k) \<and>
             optparse__longopts_match (longname (longopts ! n)) (drop 2 (argv s ! i))))))"
proof -
  have nomatch: "optparse_long s longopts (Some v) =
        (c_int_of_char CHR ''?'',
         s\<lparr>errmsg := ''invalid option -- '' @ [CHR 0x27] @ take 43 (drop 2 tok) @ [CHR 0x27],
           optopt := 0, optarg := None, optind := optind s + 1\<rparr>,
         Some v)"
    if tok: "argv_at (argv s) (optind s) = Some tok" and long: "optparse__is_longopt (Some tok)"
      and no: "\<forall>j. (\<forall>k\<le>j. \<not> optparse_longopts_end longopts k) \<longrightarrow>
       \<not> optparse__longopts_match (longname (longopts ! j)) (drop 2 tok)"
  proof -
    have "optparse_long_scan
        (s\<lparr>errmsg := [], optopt := 0, optarg := None, optind := optind s + 1\<rparr>)
        longopts (Some v) (drop 2 tok) 0 =
        (let (r, s2) = optparse__error
           (s\<lparr>errmsg := [], optopt := 0, optarg := None, optind := optind s + 1\<rparr>)
           OPTPARSE_MSG_INVALID (drop 2 tok) in (r, s2, Some v))"
      using no by (rule optparse_long_scan_none)
    then show ?thesis
      unfolding optparse_long_longopt [OF tok long]
      by (cases s)
        (simp add: optparse__error_eq OPTPARSE_MSG_INVALID_def c_int_of_char_def)
  qed
  show ?thesis
    using nomatch optparse_long_slot_written [of s longopts v]
    by (simp add: optparse_long_absent optparse_long_dashdash optparse_long_nonoption_stop)
qed

text \<open>
  The tokens \<^verbatim>\<open>[prog, --foo]\<close> against a table that holds \<^verbatim>\<open>amend\<close>: the first call is the
  invalid-option error, the second finds no token, and the slot holds 99 throughout.
\<close>

theorem C10_longindex_frame_witness:
  "(let s = \<lparr>argv = [''prog'', ''--foo''], permute = 1, optind = 1, optopt = 0,
              optarg = None, errmsg = [], subopt = 0\<rparr>;
        longopts = [\<lparr>longname = Some ''amend'', shortname = 97, argtype = OPTPARSE_NONE\<rparr>,
                    \<lparr>longname = None, shortname = 0, argtype = OPTPARSE_NONE\<rparr>];
        (r1, s1, i1) = optparse_long s longopts (Some 99);
        (r2, s2, i2) = optparse_long s1 longopts i1
    in argv_at (argv s) (optind s) = Some ''--foo'' \<and> optparse__is_longopt (Some ''--foo'') \<and>
       r1 = c_int_of_char CHR ''?'' \<and> i1 = Some 99 \<and>
       argv_at (argv s1) (optind s1) = None \<and>
       r2 = - 1 \<and> i2 = Some 99)"
proof -
  define s where "s = \<lparr>argv = [''prog'', ''--foo''], permute = 1, optind = 1, optopt = 0,
              optarg = None, errmsg = [], subopt = 0\<rparr>"
  define longopts where
    "longopts = [\<lparr>longname = Some ''amend'', shortname = 97, argtype = OPTPARSE_NONE\<rparr>,
                 \<lparr>longname = None, shortname = 0, argtype = OPTPARSE_NONE\<rparr>]"
  define s1 where "s1 = s\<lparr>errmsg := ''invalid option -- '' @ [CHR 0x27] @
      take 43 (drop 2 ''--foo'') @ [CHR 0x27], optopt := 0, optarg := None,
      optind := optind s + 1\<rparr>"
  have t1: "argv_at (argv s) (optind s) = Some ''--foo''" "optparse__is_longopt (Some ''--foo'')"
    by (simp_all add: s_def argv_at_def)
  have none: "\<forall>j. (\<forall>k\<le>j. \<not> optparse_longopts_end longopts k) \<longrightarrow>
      \<not> optparse__longopts_match (longname (longopts ! j)) (drop 2 ''--foo'')"
  proof (intro allI impI)
    fix j assume a: "\<forall>k\<le>j. \<not> optparse_longopts_end longopts k"
    have "j = 0"
    proof (rule ccontr)
      assume "j \<noteq> 0"
      then have "1 \<le> j" by simp
      with a have "\<not> optparse_longopts_end longopts 1" by blast
      then show False by (simp add: optparse_longopts_end_def longopts_def)
    qed
    then show "\<not> optparse__longopts_match (longname (longopts ! j)) (drop 2 ''--foo'')"
      by (simp add: longopts_def optparse__longopts_match_def)
  qed
  have r1: "optparse_long s longopts (Some 99) = (c_int_of_char CHR ''?'', s1, Some 99)"
    unfolding s1_def
    using C10_longindex_frame [of s longopts 99 "''--foo''"] t1 none by blast
  have t2: "argv_at (argv s1) (optind s1) = None"
    by (simp add: s1_def s_def argv_at_def)
  have r2: "optparse_long s1 longopts (Some 99) = (- 1, s1, Some 99)"
    using C10_longindex_frame [of s1 longopts 99 "[]"] t2 by blast
  show ?thesis
    unfolding Let_def s_def [symmetric] longopts_def [symmetric] r1 r2 prod.case
    using t1 t2 by simp
qed

text \<open>
  C7, as the code has it. \<^verbatim>\<open>optparse_long\<close> with a slot, the token at the cursor a
  short-option cluster: the result and the state are those of \<^verbatim>\<open>optparse\<close> with the
  option string that \<^verbatim>\<open>optparse__from_long\<close> builds from the table; the result is the
  character left in \<^verbatim>\<open>optopt\<close>, or \<^verbatim>\<open>'?'\<close>. The slot receives the index of the first
  entry before the terminator whose short name is the value of \<^verbatim>\<open>optopt\<close>, and -1 when
  no such entry has it. The search runs after an error as well: its guard is
  \<^verbatim>\<open>result != -1\<close>, and the result for a cluster is never -1.
\<close>

theorem C7_fallback_index:
  assumes tok: "argv_at (argv s) (optind s) = Some tok"
    and short: "optparse__is_shortopt (Some tok)"
  shows "fst (optparse_long s longopts (Some v)) =
           fst (optparse s (optparse__from_long longopts)) \<and>
         fst (snd (optparse_long s longopts (Some v))) =
           snd (optparse s (optparse__from_long longopts)) \<and>
         (fst (optparse_long s longopts (Some v)) =
            optopt (fst (snd (optparse_long s longopts (Some v)))) \<or>
          fst (optparse_long s longopts (Some v)) = c_int_of_char CHR ''?'') \<and>
         ((\<forall>j\<le>i. \<not> optparse_longopts_end longopts j) \<and>
          shortname (longopts ! i) = optopt (fst (snd (optparse_long s longopts (Some v)))) \<and>
          (\<forall>j<i. shortname (longopts ! j) \<noteq>
             optopt (fst (snd (optparse_long s longopts (Some v))))) \<longrightarrow>
          snd (snd (optparse_long s longopts (Some v))) = Some (int i)) \<and>
         ((\<forall>j. (\<forall>k\<le>j. \<not> optparse_longopts_end longopts k) \<longrightarrow>
             shortname (longopts ! j) \<noteq>
               optopt (fst (snd (optparse_long s longopts (Some v))))) \<longrightarrow>
          snd (snd (optparse_long s longopts (Some v))) = Some (- 1))"
proof -
  let ?r = "optparse s (optparse__from_long longopts)"
  have eq: "optparse_long s longopts (Some v) =
      (fst ?r, snd ?r,
       Some (optparse__long_fallback_loop longopts (optopt (snd ?r)) 0 (- 1)))"
    using optparse_long_shortopt [OF tok short] optparse__long_fallback_shortopt [OF tok short]
    by simp
  have res: "fst ?r = optopt (snd ?r) \<or> fst ?r = c_int_of_char CHR ''?''"
    unfolding optparse_shortopt [OF tok short] by (rule optparse_cluster_result)
  show ?thesis
    unfolding eq using res
    by (auto simp: optparse__long_fallback_loop_first optparse__long_fallback_loop_none)
qed

text \<open>
  The claim as stated gives the slot -1 whenever the short scan signals an error. The
  tokens \<^verbatim>\<open>[prog, -d]\<close> against a table that holds \<^verbatim>\<open>delay\<close> with the short name
  \<^verbatim>\<open>'d'\<close> and a required value: the short scan returns \<^verbatim>\<open>'?'\<close> with the message
  \<^verbatim>\<open>option requires an argument -- 'd'\<close>, and the slot receives 0, the index of the
  entry.
\<close>

theorem C7_fallback_index_counterexample:
  "optparse__is_shortopt (argv_at [''prog'', ''-d''] 1) \<and>
   fst (optparse
     \<lparr>argv = [''prog'', ''-d''], permute = 1, optind = 1, optopt = 0, optarg = None,
      errmsg = [], subopt = 0\<rparr>
     (optparse__from_long
       [\<lparr>longname = Some ''delay'', shortname = 100, argtype = OPTPARSE_REQUIRED\<rparr>])) =
     c_int_of_char CHR ''?'' \<and>
   errmsg (snd (optparse
     \<lparr>argv = [''prog'', ''-d''], permute = 1, optind = 1, optopt = 0, optarg = None,
      errmsg = [], subopt = 0\<rparr>
     (optparse__from_long
       [\<lparr>longname = Some ''delay'', shortname = 100, argtype = OPTPARSE_REQUIRED\<rparr>]))) =
     ''option requires an argument -- '' @ [CHR 0x27] @ ''d'' @ [CHR 0x27] \<and>
   optparse_long
     \<lparr>argv = [''prog'', ''-d''], permute = 1, optind = 1, optopt = 0, optarg = None,
      errmsg = [], subopt = 0\<rparr>
     [\<lparr>longname = Some ''delay'', shortname = 100, argtype = OPTPARSE_REQUIRED\<rparr>]
     (Some 99) =
     (c_int_of_char CHR ''?'',
      \<lparr>argv = [''prog'', ''-d''], permute = 1, optind = 2, optopt = 100, optarg = None,
       errmsg = ''option requires an argument -- '' @ [CHR 0x27] @ ''d'' @ [CHR 0x27],
       subopt = 0\<rparr>,
      Some 0) \<and>
   snd (snd (optparse_long
     \<lparr>argv = [''prog'', ''-d''], permute = 1, optind = 1, optopt = 0, optarg = None,
      errmsg = [], subopt = 0\<rparr>
     [\<lparr>longname = Some ''delay'', shortname = 100, argtype = OPTPARSE_REQUIRED\<rparr>]
     (Some 99))) \<noteq> Some (- 1)"
  by code_simp

text \<open>
  A table with \<^verbatim>\<open>amend\<close> and \<^verbatim>\<open>brief\<close>, whose option string is \<^verbatim>\<open>ab\<close>: the cluster
  \<^verbatim>\<open>-b\<close> gives the slot 1; the cluster \<^verbatim>\<open>-z\<close> is an invalid option, no entry has the
  short name \<^verbatim>\<open>'z'\<close>, and the slot receives -1.
\<close>

theorem C7_fallback_index_witness:
  "(let s = \<lparr>argv = [''prog'', ''-b'', ''-z''], permute = 1, optind = 1, optopt = 0,
              optarg = None, errmsg = [], subopt = 0\<rparr>;
        longopts = [\<lparr>longname = Some ''amend'', shortname = 97, argtype = OPTPARSE_NONE\<rparr>,
                    \<lparr>longname = Some ''brief'', shortname = 98, argtype = OPTPARSE_NONE\<rparr>,
                    \<lparr>longname = None, shortname = 0, argtype = OPTPARSE_NONE\<rparr>];
        (r1, s1, i1) = optparse_long s longopts (Some 99);
        (r2, s2, i2) = optparse_long s1 longopts (Some 99)
    in argv_at (argv s) (optind s) = Some ''-b'' \<and> optparse__is_shortopt (Some ''-b'') \<and>
       optparse__from_long longopts = ''ab'' \<and>
       r1 = c_int_of_char CHR ''b'' \<and> i1 = Some 1 \<and>
       argv_at (argv s1) (optind s1) = Some ''-z'' \<and> optparse__is_shortopt (Some ''-z'') \<and>
       r2 = c_int_of_char CHR ''?'' \<and> optopt s2 = c_int_of_char CHR ''z'' \<and> i2 = Some (- 1))"
proof -
  define s where "s = \<lparr>argv = [''prog'', ''-b'', ''-z''], permute = 1, optind = 1,
    optopt = 0, optarg = None, errmsg = [], subopt = 0\<rparr>"
  define longopts where
    "longopts = [\<lparr>longname = Some ''amend'', shortname = 97, argtype = OPTPARSE_NONE\<rparr>,
                 \<lparr>longname = Some ''brief'', shortname = 98, argtype = OPTPARSE_NONE\<rparr>,
                 \<lparr>longname = None, shortname = 0, argtype = OPTPARSE_NONE\<rparr>]"
  define s1 where "s1 = s\<lparr>optopt := 98, optind := 2\<rparr>"
  define s2 where "s2 = s\<lparr>optopt := 122, optind := 3,
    errmsg := ''invalid option -- '' @ [CHR 0x27] @ ''z'' @ [CHR 0x27]\<rparr>"
  have fl: "optparse__from_long longopts = ''ab''"
    unfolding longopts_def by code_simp
  have t1: "argv_at (argv s) (optind s) = Some ''-b''" "optparse__is_shortopt (Some ''-b'')"
    by (simp_all add: s_def argv_at_def)
  have t2: "argv_at (argv s1) (optind s1) = Some ''-z''" "optparse__is_shortopt (Some ''-z'')"
    by (simp_all add: s1_def s_def argv_at_def)
  have o1: "optparse s ''ab'' = (98, s1)"
    by (simp add: short_eval s_def s1_def)
  have o2: "optparse s1 ''ab'' = (63, s2)"
    by (simp add: short_eval s_def s1_def s2_def optparse__error_eq OPTPARSE_MSG_INVALID_def
        char_str_def)
  have live: "\<forall>j\<le>1. \<not> optparse_longopts_end longopts j"
    by (simp add: le_Suc_eq optparse_longopts_end_def longopts_def)
  have none: "\<forall>j. (\<forall>k\<le>j. \<not> optparse_longopts_end longopts k) \<longrightarrow>
      shortname (longopts ! j) \<noteq> 122"
  proof (intro allI impI)
    fix j assume a: "\<forall>k\<le>j. \<not> optparse_longopts_end longopts k"
    have "j < 2"
    proof (rule ccontr)
      assume "\<not> j < 2"
      then have "2 \<le> j" by simp
      with a have "\<not> optparse_longopts_end longopts 2" by blast
      then show False by (simp add: optparse_longopts_end_def longopts_def)
    qed
    then have "j = 0 \<or> j = 1" by auto
    then show "shortname (longopts ! j) \<noteq> 122"
      by (auto simp: longopts_def)
  qed
  have r1: "optparse_long s longopts (Some 99) = (98, s1, Some 1)"
    using C7_fallback_index [OF t1, of longopts 99 1] live
    by (simp add: fl o1 prod_eq_iff) (simp add: longopts_def s1_def)
  have r2: "optparse_long s1 longopts (Some 99) = (63, s2, Some (- 1))"
    using C7_fallback_index [OF t2, of longopts 99 0] none
    by (simp add: fl o2 prod_eq_iff) (simp add: s2_def)
  show ?thesis
    unfolding Let_def s_def [symmetric] longopts_def [symmetric] r1 r2 prod.case
    using t1 t2 fl by (simp add: s2_def c_int_of_char_def)
qed

text \<open>
  C6. The claim holds of \<^verbatim>\<open>optparse\<close>, which clears the message on entry
  (\<open>optparse_errmsg_empty\<close>), and of \<^verbatim>\<open>optparse_long\<close> when it returns an option code
  (\<open>optparse_long_errmsg_empty\<close>). It fails where \<^verbatim>\<open>optparse_long\<close> returns -1: lines 296
  to 313 return before line 315 clears the message. The tokens \<^verbatim>\<open>[prog, --foo]\<close> against
  a table that holds \<^verbatim>\<open>amend\<close>: the first call is the invalid-option error; the second
  call finds no token and returns -1 with the message of the first call still in the
  state, where \<^verbatim>\<open>optparse\<close> on the same state returns -1 with the message cleared.
\<close>

theorem C6_stale_errmsg_after_done:
  "fst (optparse_long
     \<lparr>argv = [''prog'', ''--foo''], permute = 1, optind = 1, optopt = 0, optarg = None,
      errmsg = [], subopt = 0\<rparr>
     [\<lparr>longname = Some ''amend'', shortname = 97, argtype = OPTPARSE_NONE\<rparr>] None) =
     c_int_of_char CHR ''?'' \<and>
   fst (snd (optparse_long
     \<lparr>argv = [''prog'', ''--foo''], permute = 1, optind = 1, optopt = 0, optarg = None,
      errmsg = [], subopt = 0\<rparr>
     [\<lparr>longname = Some ''amend'', shortname = 97, argtype = OPTPARSE_NONE\<rparr>] None)) =
     \<lparr>argv = [''prog'', ''--foo''], permute = 1, optind = 2, optopt = 0, optarg = None,
      errmsg = ''invalid option -- '' @ [CHR 0x27] @ ''foo'' @ [CHR 0x27], subopt = 0\<rparr> \<and>
   optparse_long
     \<lparr>argv = [''prog'', ''--foo''], permute = 1, optind = 2, optopt = 0, optarg = None,
      errmsg = ''invalid option -- '' @ [CHR 0x27] @ ''foo'' @ [CHR 0x27], subopt = 0\<rparr>
     [\<lparr>longname = Some ''amend'', shortname = 97, argtype = OPTPARSE_NONE\<rparr>] None =
     (- 1,
      \<lparr>argv = [''prog'', ''--foo''], permute = 1, optind = 2, optopt = 0, optarg = None,
       errmsg = ''invalid option -- '' @ [CHR 0x27] @ ''foo'' @ [CHR 0x27], subopt = 0\<rparr>,
      None) \<and>
   optparse
     \<lparr>argv = [''prog'', ''--foo''], permute = 1, optind = 2, optopt = 0, optarg = None,
      errmsg = ''invalid option -- '' @ [CHR 0x27] @ ''foo'' @ [CHR 0x27], subopt = 0\<rparr>
     ''a'' =
     (- 1,
      \<lparr>argv = [''prog'', ''--foo''], permute = 1, optind = 2, optopt = 0, optarg = None,
       errmsg = [], subopt = 0\<rparr>)"
  by code_simp

end
